(* ===== verification/Ride_Prelude.thy ===== *)
theory Ride_Prelude
  imports Main "HOL-Library.Word"
begin

text \<open>
  Shared vocabulary of the development: the machine integer types of the C sources, the ways a
  run of the C code can end other than by returning, C's truncating remainder, ring storage, and
  the contract of a bounded first-in first-out channel.  The contract is stated once, as the
  locale \<open>bounded_fifo\<close>, and interpreted for the event queue of \<open>queue.c\<close> and for the io_uring
  submission and completion rings of \<open>ev.c\<close>.
\<close>

unbundle bit_operations_syntax

section \<open>Machine integers\<close>

text \<open>Signed C integers are words too; they are read with \<^const>\<open>sint\<close>.\<close>

type_synonym u8 = "8 word"
type_synonym u16 = "16 word"
type_synonym u32 = "32 word"
type_synonym u64 = "64 word"
type_synonym i32 = "32 word"
type_synonym i64 = "64 word"

named_theorems ring_simps \<open>facts about ring storage\<close>
named_theorems word_conv \<open>conversions between words and integers\<close>

text \<open>C's \<open>%\<close> truncates towards zero: the result has the sign of the dividend.\<close>

definition c_rem :: "int \<Rightarrow> int \<Rightarrow> int" where
  "c_rem a b = sgn a * (\<bar>a\<bar> mod \<bar>b\<bar>)"

lemma c_rem_nonneg [simp]: "0 \<le> a \<Longrightarrow> 0 < b \<Longrightarrow> c_rem a b = a mod b"
  by (cases "a = 0") (auto simp: c_rem_def)

text \<open>Small non-negative values survive the conversions between the widths.\<close>

lemma scast_of_nat [word_conv]: "n < 2 ^ 31 \<Longrightarrow> (scast (of_nat n :: i32) :: u64) = of_nat n"
  by (simp add: signed_of_nat signed_take_bit_int_eq_self)

lemma sint_of_nat_32 [word_conv]: "n < 2 ^ 31 \<Longrightarrow> sint (of_nat n :: i32) = int n"
  by (simp add: signed_of_nat signed_take_bit_int_eq_self)

lemma unat_of_nat_32 [word_conv]: "n < 2 ^ 32 \<Longrightarrow> unat (of_nat n :: u32) = n"
  by (simp add: unat_of_nat)

lemma unat_of_nat_64 [word_conv]: "n < 2 ^ 64 \<Longrightarrow> unat (of_nat n :: u64) = n"
  by (simp add: unat_of_nat)

lemma of_nat_less_64 [word_conv]:
  "m < 2 ^ 64 \<Longrightarrow> n < 2 ^ 64 \<Longrightarrow> (of_nat m :: u64) < of_nat n \<longleftrightarrow> m < n"
  by (simp add: word_less_nat_alt unat_of_nat_64)

lemma of_nat_eq_64 [word_conv]:
  "m < 2 ^ 64 \<Longrightarrow> n < 2 ^ 64 \<Longrightarrow> (of_nat m :: u64) = of_nat n \<longleftrightarrow> m = n"
  by (metis unat_of_nat_64)

lemma sint_0_32 [word_conv]: "sint (w :: i32) = 0 \<longleftrightarrow> w = 0"
  by (metis signed_0 signed_word_eqI)

text \<open>A non-negative \<open>int\<close> reads the same signed and unsigned.\<close>

lemma sint_nonneg_32:
  assumes nn: "0 \<le> sint (w :: i32)"
  shows "unat w < 2 ^ 31" "int (unat w) = sint w"
proof -
  have lt: "sint w < 2 ^ 31" using sint_lt [of w] by simp
  have "uint w = uint (word_of_int (sint w) :: i32)" by simp
  also have "\<dots> = sint w mod 2 ^ 32" by (simp only: uint_word_of_int) simp
  also have "\<dots> = sint w" using nn lt by (intro mod_pos_pos_trivial) auto
  finally show e: "int (unat w) = sint w" by simp
  with lt have "int (unat w) < int (2 ^ 31)" by simp
  then show "unat w < 2 ^ 31" by (simp only: of_nat_less_iff)
qed

lemma scast_nonneg_32: "0 \<le> sint (w :: i32) \<Longrightarrow> (scast w :: u64) = of_nat (unat w)"
  using scast_of_nat [OF sint_nonneg_32(1), of w] by simp

text \<open>A negative \<open>int\<close> becomes a huge \<open>size_t\<close>.\<close>

lemma scast_neg [word_conv]: "n < 2 ^ 31 \<Longrightarrow> (scast (- of_nat n :: i32) :: u64) = - of_nat n"
proof -
  assume "n < 2 ^ 31"
  moreover have "(- of_nat n :: i32) = word_of_int (- int n)" by simp
  ultimately have "(scast (- of_nat n :: i32) :: u64) = word_of_int (- int n)"
    by (simp only: signed_of_int) (simp add: signed_take_bit_int_eq_self)
  then show ?thesis by simp
qed

lemma unat_neg_64 [word_conv]: "0 < n \<Longrightarrow> n < 2 ^ 64 \<Longrightarrow> unat (- of_nat n :: u64) = 2 ^ 64 - n"
proof -
  assume n: "0 < n" "n < 2 ^ 64"
  have "of_nat (2 ^ 64 - n) + of_nat n = (of_nat (2 ^ 64 - n + n) :: u64)"
    by (rule of_nat_add [symmetric])
  also have "\<dots> = 0" using n by simp
  finally have "- of_nat n = (of_nat (2 ^ 64 - n) :: u64)"
    by (metis add.commute minus_unique)
  with n show ?thesis by (simp add: unat_of_nat_64 del: of_nat_diff)
qed

lemma sint_neg_64 [word_conv]: "n < 2 ^ 63 \<Longrightarrow> sint (- of_nat n :: i64) = - int n"
proof -
  assume "n < 2 ^ 63"
  moreover have "(- of_nat n :: i64) = word_of_int (- int n)" by simp
  ultimately show ?thesis
    by (simp only: signed_of_int) (simp add: signed_take_bit_int_eq_self)
qed

lemma sint_neg_32 [word_conv]: "n < 2 ^ 31 \<Longrightarrow> sint (- of_nat n :: i32) = - int n"
proof -
  assume "n < 2 ^ 31"
  moreover have "(- of_nat n :: i32) = word_of_int (- int n)" by simp
  ultimately show ?thesis
    by (simp only: signed_of_int) (simp add: signed_take_bit_int_eq_self)
qed

section \<open>How a run can end\<close>

text \<open>
  \<open>Exit c\<close> is a call of \<open>exit(c)\<close>; \<open>Assert_Fail\<close> a failing \<open>assert\<close> or an \<open>abort()\<close>;
  \<open>Out_Of_Bounds\<close> an access outside the object it is made through; \<open>Null_Deref\<close> an access through
  a null pointer; \<open>Div_Zero\<close> a division by zero; \<open>Diverges\<close> a loop that never ends.  A definition that can end in one of these
  returns a \<open>res\<close>: \<open>Inl\<close> the fault, or \<open>Inr\<close> the value the C function returns.
\<close>

datatype fault = Exit nat | Assert_Fail | Out_Of_Bounds | Null_Deref | Div_Zero | Diverges

type_synonym 'a res = "fault + 'a"

definition bind_res :: "'a res \<Rightarrow> ('a \<Rightarrow> 'b res) \<Rightarrow> 'b res" where
  "bind_res m f = (case m of Inl e \<Rightarrow> Inl e | Inr x \<Rightarrow> f x)"

lemma bind_res_Inl [simp]: "bind_res (Inl e) f = Inl e"
  and bind_res_Inr [simp]: "bind_res (Inr x) f = f x"
  by (simp_all add: bind_res_def)

lemma bind_res_eq_Inr [simp]:
  "bind_res m f = Inr y \<longleftrightarrow> (\<exists>x. m = Inr x \<and> f x = Inr y)"
  by (cases m) auto

lemma bind_res_assoc: "bind_res (bind_res m f) g = bind_res m (\<lambda>x. bind_res (f x) g)"
  by (cases m) simp_all

text \<open>
  \<open>wp Q P r\<close>: the run \<open>r\<close> ends in a fault that \<open>Q\<close> allows, or returns a value with \<open>P\<close>.  Handlers are
  verified by running this predicate backwards through their calls.
\<close>

definition wp :: "(fault \<Rightarrow> bool) \<Rightarrow> ('a \<Rightarrow> bool) \<Rightarrow> 'a res \<Rightarrow> bool" where
  "wp Q P r = (case r of Inl f \<Rightarrow> Q f | Inr x \<Rightarrow> P x)"

lemma wp_Inl [simp]: "wp Q P (Inl f) = Q f" and wp_Inr [simp]: "wp Q P (Inr x) = P x"
  by (simp_all add: wp_def)

lemma wp_bind [simp]: "wp Q P (bind_res m f) = wp Q (\<lambda>x. wp Q P (f x)) m"
  by (cases m) simp_all

lemma wp_mono: "wp Q P r \<Longrightarrow> (\<And>f. Q f \<Longrightarrow> Q' f) \<Longrightarrow> (\<And>x. P x \<Longrightarrow> P' x) \<Longrightarrow> wp Q' P' r"
  by (cases r) simp_all

lemma wp_conj: "wp Q P r \<Longrightarrow> wp Q P' r \<Longrightarrow> wp Q (\<lambda>x. P x \<and> P' x) r"
  by (cases r) simp_all

lemma wp_Inr_D: "wp Q P r \<Longrightarrow> r = Inr x \<Longrightarrow> P x"
  by simp

lemma wp_case_prod [simp]: "wp Q P (case z of (x, y) \<Rightarrow> f x y) = (case z of (x, y) \<Rightarrow> wp Q P (f x y))"
  by (cases z) simp

lemma wp_if [simp]: "wp Q P (if b then r else r') = (if b then wp Q P r else wp Q P r')"
  by simp

lemma wp_Let [simp]: "wp Q P (Let x f) = (let y = x in wp Q P (f y))"
  by (simp add: Let_def)

lemma wp_frame: "(\<And>x. r = Inr x \<Longrightarrow> P x) \<Longrightarrow> wp (\<lambda>_. True) P r"
  by (cases r) simp_all

text \<open>Running a handler over a list, stopping at the first fault.\<close>

fun fold_res :: "('a \<Rightarrow> 's \<Rightarrow> 's res) \<Rightarrow> 'a list \<Rightarrow> 's \<Rightarrow> 's res" where
  "fold_res f [] s = Inr s"
| "fold_res f (x # xs) s = bind_res (f x s) (fold_res f xs)"

lemma fold_res_invariant:
  assumes "fold_res f xs s = Inr s'" and "P s"
    and "\<And>x s s'. x \<in> set xs \<Longrightarrow> P s \<Longrightarrow> f x s = Inr s' \<Longrightarrow> P s'"
  shows "P s'"
  using assms
proof (induction xs arbitrary: s)
  case (Cons x xs)
  then obtain s1 where "f x s = Inr s1" "fold_res f xs s1 = Inr s'" by auto
  with Cons show ?case by (metis list.set_intros(1,2))
qed simp

lemma fold_res_append: "fold_res f (xs @ ys) s = bind_res (fold_res f xs s) (fold_res f ys)"
  by (induction xs arbitrary: s) (auto simp: bind_res_def split: sum.splits)

section \<open>Ring storage\<close>

text \<open>
  The elements of a ring buffer, oldest first: \<open>slot i\<close> is the position of the \<open>i\<close>-th element in
  the storage \<open>buf\<close>, and there are \<open>n\<close> of them.
\<close>

definition ring_list :: "(nat \<Rightarrow> 'a) \<Rightarrow> (nat \<Rightarrow> nat) \<Rightarrow> nat \<Rightarrow> 'a list" where
  "ring_list buf slot n = map (\<lambda>i. buf (slot i)) [0..<n]"

lemma length_ring_list [simp, ring_simps]: "length (ring_list buf slot n) = n"
  by (simp add: ring_list_def)

lemma ring_list_0 [simp, ring_simps]: "ring_list buf slot 0 = []"
  by (simp add: ring_list_def)

lemma ring_list_eq_Nil [simp, ring_simps]: "ring_list buf slot n = [] \<longleftrightarrow> n = 0"
  by (simp add: ring_list_def)

text \<open>Positions of a ring of \<open>N\<close> slots, without \<open>mod\<close>.\<close>

lemma wrap_add:
  "0 \<le> a \<Longrightarrow> a < N \<Longrightarrow> 0 \<le> b \<Longrightarrow> b \<le> N \<Longrightarrow> (a + b) mod N = (if a + b < N then a + b else a + b - N)"
  for a b N :: int
proof (cases "a + b < N")
  case False
  assume "0 \<le> a" "a < N" "0 \<le> b" "b \<le> N"
  with False have "(a + b - N) mod N = a + b - N" by (intro mod_pos_pos_trivial) auto
  with False show ?thesis by simp
qed simp

lemma wrap_diff:
  "0 \<le> h \<Longrightarrow> h < N \<Longrightarrow> 0 \<le> t \<Longrightarrow> t < N \<Longrightarrow> (h - t) mod N = (if t \<le> h then h - t else h - t + N)"
  for h t N :: int
proof (cases "t \<le> h")
  case False
  assume "0 \<le> h" "h < N" "0 \<le> t" "t < N"
  with False have "(h - t + N) mod N = h - t + N" by (intro mod_pos_pos_trivial) auto
  with False show ?thesis by simp
qed simp

text \<open>Writing the first free position appends, as long as no live element is stored there.\<close>

lemma ring_list_snoc:
  assumes "\<And>i. i < n \<Longrightarrow> slot i \<noteq> slot n"
  shows "ring_list (buf(slot n := x)) slot (Suc n) = ring_list buf slot n @ [x]"
proof -
  have "map (\<lambda>i. (buf(slot n := x)) (slot i)) [0..<n] = map (\<lambda>i. buf (slot i)) [0..<n]"
    using assms by (intro map_cong) auto
  then show ?thesis by (simp add: ring_list_def)
qed

lemma ring_list_Suc:
  "ring_list buf slot (Suc n) = buf (slot 0) # ring_list buf (\<lambda>i. slot (Suc i)) n"
  unfolding ring_list_def by (simp del: upt_Suc add: upt_conv_Cons map_Suc_upt [symmetric] comp_def)

lemma ring_list_cong:
  "n = m \<Longrightarrow> (\<And>i. i < m \<Longrightarrow> buf (slot i) = buf' (slot' i))
     \<Longrightarrow> ring_list buf slot n = ring_list buf' slot' m"
  by (simp add: ring_list_def)

lemma nth_ring_list [simp, ring_simps]: "i < n \<Longrightarrow> ring_list buf slot n ! i = buf (slot i)"
  by (simp add: ring_list_def)

section \<open>Bounded FIFO channels\<close>

text \<open>
  A client's view of a channel: what it puts in with \<open>enq\<close> (\<open>None\<close>: refused, the channel is full)
  and what it takes out with \<open>deq\<close> (\<open>None\<close>: empty).  \<open>fifo_run\<close> plays a sequence of such
  operations, in any interleaving of producers and consumers, and returns what was accepted, what
  was delivered and the final channel.
\<close>

datatype 'a fifo_op = Enq 'a | Deq

fun fifo_run ::
  "('a \<Rightarrow> 'q \<Rightarrow> 'q option) \<Rightarrow> ('q \<Rightarrow> ('a \<times> 'q) option) \<Rightarrow> 'a fifo_op list \<Rightarrow> 'q
     \<Rightarrow> 'a list \<times> 'a list \<times> 'q" where
  "fifo_run enq deq [] q = ([], [], q)"
| "fifo_run enq deq (Enq x # ops) q =
     (case enq x q of
        None \<Rightarrow> fifo_run enq deq ops q
      | Some q' \<Rightarrow> (case fifo_run enq deq ops q' of (acc, out, r) \<Rightarrow> (x # acc, out, r)))"
| "fifo_run enq deq (Deq # ops) q =
     (case deq q of
        None \<Rightarrow> fifo_run enq deq ops q
      | Some (x, q') \<Rightarrow> (case fifo_run enq deq ops q' of (acc, out, r) \<Rightarrow> (acc, x # out, r)))"

locale bounded_fifo =
  fixes invar :: "'q \<Rightarrow> bool"
    and contents :: "'q \<Rightarrow> 'a list"
    and capacity :: "'q \<Rightarrow> nat"
    and enq :: "'a \<Rightarrow> 'q \<Rightarrow> 'q option"
    and deq :: "'q \<Rightarrow> ('a \<times> 'q) option"
  assumes contents_bounded: "invar q \<Longrightarrow> length (contents q) \<le> capacity q"
    and enq_full: "invar q \<Longrightarrow> enq x q = None \<longleftrightarrow> length (contents q) = capacity q"
    and enq_appends: "invar q \<Longrightarrow> enq x q = Some q' \<Longrightarrow>
           invar q' \<and> contents q' = contents q @ [x] \<and> capacity q' = capacity q"
    and deq_empty: "invar q \<Longrightarrow> deq q = None \<longleftrightarrow> contents q = []"
    and deq_oldest: "invar q \<Longrightarrow> deq q = Some (x, q') \<Longrightarrow>
           invar q' \<and> contents q = x # contents q' \<and> capacity q' = capacity q"
begin

text \<open>
  Nothing is lost, duplicated or reordered between acceptance and delivery: what was in the
  channel followed by what was accepted is what was delivered followed by what is still there.
\<close>

lemma run_order:
  assumes "invar q" and "fifo_run enq deq ops q = (acc, out, q')"
  shows "invar q' \<and> contents q @ acc = out @ contents q' \<and> capacity q' = capacity q"
  using assms
proof (induction ops arbitrary: q acc out)
  case Nil
  then show ?case by simp
next
  case (Cons op ops)
  show ?case
  proof (cases op)
    case (Enq x)
    with Cons show ?thesis
      by (fastforce split: option.splits prod.splits dest: enq_appends)
  next
    case Deq
    with Cons show ?thesis
      by (fastforce split: option.splits prod.splits dest: deq_oldest)
  qed
qed

text \<open>A channel that starts empty delivers a prefix of what it accepted.\<close>

lemma run_prefix:
  assumes "invar q" "contents q = []" "fifo_run enq deq ops q = (acc, out, q')"
  shows "out = take (length out) acc" and "length acc \<le> length out + capacity q"
proof -
  from run_order [OF assms(1,3)] assms(2)
  have "acc = out @ contents q'" and i: "invar q'" "capacity q' = capacity q" by auto
  then show "out = take (length out) acc" by simp
  from \<open>acc = out @ contents q'\<close> i contents_bounded [of q']
  show "length acc \<le> length out + capacity q" by simp
qed

text \<open>A put that is accepted on an empty channel is the next take.\<close>

lemma enq_deq_roundtrip:
  assumes "invar q" "contents q = []" "enq x q = Some q'"
  shows "\<exists>q''. deq q' = Some (x, q'') \<and> contents q'' = []"
proof -
  from enq_appends [OF assms(1,3)] assms(2) have q': "invar q'" "contents q' = [x]" by auto
  with deq_empty obtain y q'' where d: "deq q' = Some (y, q'')" by fastforce
  from deq_oldest [OF q'(1) d] q'(2) d show ?thesis by auto
qed

end

end
