(* ===== verification/C_Lib.thy ===== *)
theory C_Lib
  imports Ride_Prelude
begin

text \<open>
  What the sources use of the C library and of the file-descriptor interface, as its manual pages
  document it: C strings in fixed-size buffers (\<open>strlen\<close>, \<open>strncpy\<close>), \<open>strtoll\<close> with base 0,
  GNU \<open>getopt\<close> with argument permutation, decimal conversion of \<open>printf\<close>, and eventfd objects.
  Nothing here is code of the repository; the component theories build on it.
\<close>

section \<open>C strings\<close>

abbreviation NUL :: char where "NUL \<equiv> CHR 0x00"

text \<open>The string a buffer holds: its characters up to the first NUL.\<close>

definition cstr :: "string \<Rightarrow> string" where
  "cstr buf = takeWhile (\<lambda>c. c \<noteq> NUL) buf"

definition strlen :: "string \<Rightarrow> nat" where
  "strlen buf = length (cstr buf)"

text \<open>\<open>strncpy\<close> writes exactly \<open>n\<close> characters: the string, then NULs; a longer string is cut.\<close>

definition strncpy :: "string \<Rightarrow> string \<Rightarrow> nat \<Rightarrow> string" where
  "strncpy dst src n = take n (cstr src @ replicate n NUL) @ drop n dst"

lemma cstr_no_NUL [simp]: "NUL \<notin> set (cstr buf)"
  by (auto simp: cstr_def dest: set_takeWhileD)

lemma cstr_id [simp]: "NUL \<notin> set s \<Longrightarrow> cstr s = s"
  by (auto simp: cstr_def takeWhile_eq_all_conv)

lemma cstr_append_NUL [simp]: "NUL \<notin> set s \<Longrightarrow> cstr (s @ NUL # t) = s"
  by (induction s) (auto simp: cstr_def)

lemma cstr_pad [simp]: "NUL \<notin> set s \<Longrightarrow> cstr (s @ replicate n NUL) = s"
  by (cases n) simp_all

lemma length_cstr_le: "length (cstr buf) \<le> length buf"
  by (simp add: cstr_def length_takeWhile_le)

lemma strlen_lt_iff: "NUL \<in> set buf \<Longrightarrow> strlen buf < length buf"
  by (induction buf) (auto simp: strlen_def cstr_def)

lemma cstr_update_NUL: "length (cstr buf) \<le> i \<Longrightarrow> cstr (buf[i := NUL]) = cstr buf"
proof (induction buf arbitrary: i)
  case (Cons c buf)
  then show ?case by (cases i) (auto simp: cstr_def split: if_splits)
qed simp

lemma take_cstr: "n \<le> length (cstr buf) \<Longrightarrow> take n buf = take n (cstr buf)"
proof -
  assume n: "n \<le> length (cstr buf)"
  have "take n buf = take n (cstr buf @ dropWhile (\<lambda>c. c \<noteq> NUL) buf)" by (simp add: cstr_def)
  with n show ?thesis by simp
qed

lemma length_strncpy [simp]: "n \<le> length dst \<Longrightarrow> length (strncpy dst src n) = length dst"
  by (simp add: strncpy_def)

lemma strncpy_short:
  "NUL \<notin> set s \<Longrightarrow> length s \<le> n \<Longrightarrow> strncpy dst s n = s @ replicate (n - length s) NUL @ drop n dst"
  by (simp add: strncpy_def)

lemma strncpy_long:
  "NUL \<notin> set s \<Longrightarrow> n \<le> length s \<Longrightarrow> strncpy dst s n = take n s @ drop n dst"
  by (simp add: strncpy_def)

lemma replicate_update [simp]: "(replicate k x)[i := x] = replicate k x"
proof (induction k arbitrary: i)
  case (Suc k)
  then show ?case by (cases i) simp_all
qed simp

text \<open>The idiom of the sources: \<open>strncpy\<close> over the whole buffer, then a forced terminator.\<close>

lemma cstr_strncpy_term:
  assumes "length dst = n" "0 < n" "NUL \<notin> set s"
  shows "cstr ((strncpy dst s n)[n - 1 := NUL]) = take (n - 1) s"
proof (cases "length s < n")
  case True
  then have "(strncpy dst s n)[n - 1 := NUL] = s @ replicate (n - length s) NUL"
    using assms by (auto simp: strncpy_short list_update_append)
  moreover have "n - length s = Suc (n - length s - 1)" using True by simp
  ultimately have "(strncpy dst s n)[n - 1 := NUL] = s @ NUL # replicate (n - length s - 1) NUL"
    by (metis replicate_Suc)
  with assms True show ?thesis by simp
next
  case False
  then have "strncpy dst s n = take n s" using assms by (simp add: strncpy_long)
  moreover have "take n s = take (n - 1) s @ [s ! (n - 1)]"
    using False assms(2) take_Suc_conv_app_nth [of "n - 1" s] by simp
  ultimately have "(strncpy dst s n)[n - 1 := NUL] = take (n - 1) s @ [NUL]"
    using False assms by (simp add: list_update_append)
  moreover have "NUL \<notin> set (take (n - 1) s)" using assms(3) by (auto dest: in_set_takeD)
  ultimately show ?thesis by simp
qed

section \<open>Decimal output\<close>

fun show_nat :: "nat \<Rightarrow> string" where
  "show_nat n = (if n < 10 then [char_of (48 + n)] else show_nat (n div 10) @ [char_of (48 + n mod 10)])"

declare show_nat.simps [simp del]

text \<open>\<open>printf("%d")\<close>\<close>

definition show_int :: "int \<Rightarrow> string" where
  "show_int i = (if i < 0 then CHR ''-'' # show_nat (nat (- i)) else show_nat (nat i))"

lemma length_show_nat: "n < 10 ^ Suc k \<Longrightarrow> length (show_nat n) \<le> Suc k"
proof (induction k arbitrary: n)
  case 0
  then show ?case by (subst show_nat.simps) simp
next
  case (Suc k)
  then have "n div 10 < 10 ^ Suc k" by (simp add: div_less_iff_less_mult mult.commute)
  then have "length (show_nat (n div 10)) \<le> Suc k" by (rule Suc.IH)
  then show ?case by (subst show_nat.simps) simp
qed

lemma length_show_int_32: "length (show_int (sint (w :: i32))) \<le> 11"
proof -
  have "sint w < 2147483648" "- 2147483648 \<le> sint w"
    using sint_lt [of w] sint_ge [of w] by simp_all
  then have "nat \<bar>sint w\<bar> < 10 ^ Suc 9" by simp
  then have "length (show_nat (nat \<bar>sint w\<bar>)) \<le> Suc 9" by (rule length_show_nat)
  then show ?thesis by (cases "sint w < 0") (auto simp: show_int_def abs_if)
qed

section \<open>strtoll with base 0\<close>

definition c_isspace :: "char \<Rightarrow> bool" where
  "c_isspace c \<longleftrightarrow> c \<in> {CHR '' '', CHR 0x09, CHR 0x0A, CHR 0x0B, CHR 0x0C, CHR 0x0D}"

definition digit_val :: "char \<Rightarrow> nat" where
  "digit_val c =
     (let n = of_char c :: nat in
      if 48 \<le> n \<and> n \<le> 57 then n - 48
      else if 97 \<le> n \<and> n \<le> 122 then n - 87
      else if 65 \<le> n \<and> n \<le> 90 then n - 55
      else 36)"

fun scan_digits :: "nat \<Rightarrow> nat \<Rightarrow> string \<Rightarrow> nat" where
  "scan_digits base acc [] = acc"
| "scan_digits base acc (c # cs) =
     (if digit_val c < base then scan_digits base (acc * base + digit_val c) cs else acc)"

text \<open>The prefix decides the base; a prefix counts only when a digit of its base follows.\<close>

fun scan_prefix :: "string \<Rightarrow> nat \<times> string" where
  "scan_prefix (z # x # d # cs) =
     (if z = CHR ''0'' \<and> x \<in> {CHR ''x'', CHR ''X''} \<and> digit_val d < 16 then (16, d # cs)
      else if z = CHR ''0'' \<and> x \<in> {CHR ''b'', CHR ''B''} \<and> digit_val d < 2 then (2, d # cs)
      else if z = CHR ''0'' then (8, z # x # d # cs)
      else (10, z # x # d # cs))"
| "scan_prefix (z # cs) = (if z = CHR ''0'' then (8, z # cs) else (10, z # cs))"
| "scan_prefix [] = (10, [])"

definition LLONG_MAX :: int where "LLONG_MAX = 2 ^ 63 - 1"
definition LLONG_MIN :: int where "LLONG_MIN = - (2 ^ 63)"

definition strtoll :: "string \<Rightarrow> int" where
  "strtoll s =
     (let s1 = dropWhile c_isspace s;
          neg = (s1 \<noteq> [] \<and> hd s1 = CHR ''-'');
          s2 = (if s1 \<noteq> [] \<and> hd s1 \<in> {CHR ''-'', CHR ''+''} then tl s1 else s1);
          v = (case scan_prefix s2 of (base, ds) \<Rightarrow> int (scan_digits base 0 ds))
      in max LLONG_MIN (min LLONG_MAX (if neg then - v else v)))"

lemma strtoll_range: "LLONG_MIN \<le> strtoll s \<and> strtoll s \<le> LLONG_MAX"
  by (auto simp: strtoll_def Let_def LLONG_MIN_def LLONG_MAX_def)

section \<open>getopt\<close>

text \<open>
  GNU \<open>getopt\<close> without \<open>POSIXLY_CORRECT\<close>: operands met before options are moved behind them, \<open>--\<close>
  ends the options.  The state is the rest of the option cluster being read (\<open>nextchar\<close>), the
  arguments not looked at yet and the operands passed over so far; when the options are
  exhausted \<open>argv[optind ..]\<close> is \<open>operands\<close> and \<open>optind == argc\<close> says that it is empty.
  An option is declared by its letter and whether it takes an argument.
\<close>

datatype has_arg = No_Arg | Required_Arg | Optional_Arg

datatype opt_ev =
    Opt char "string option"  \<comment> \<open>the option letter and \<open>optarg\<close>\<close>
  | Opt_Missing char          \<comment> \<open>\<open>':'\<close>, with \<open>optopt\<close>\<close>
  | Opt_Invalid char          \<comment> \<open>\<open>'?'\<close>, with \<open>optopt\<close>\<close>

record getopt_state =
  nextchar :: string
  args :: "string list"
  operands :: "string list"

definition getopt_init :: "string list \<Rightarrow> getopt_state" where
  "getopt_init argv = \<lparr>nextchar = [], args = tl argv, operands = []\<rparr>"

fun getopt_letter ::
  "(char \<rightharpoonup> has_arg) \<Rightarrow> char \<Rightarrow> string \<Rightarrow> string list \<Rightarrow> string list \<Rightarrow> opt_ev \<times> getopt_state" where
  "getopt_letter spec c rest as ops =
     (case spec c of
        None \<Rightarrow> (Opt_Invalid c, \<lparr>nextchar = rest, args = as, operands = ops\<rparr>)
      | Some No_Arg \<Rightarrow> (Opt c None, \<lparr>nextchar = rest, args = as, operands = ops\<rparr>)
      | Some Optional_Arg \<Rightarrow>
          (Opt c (if rest = [] then None else Some rest), \<lparr>nextchar = [], args = as, operands = ops\<rparr>)
      | Some Required_Arg \<Rightarrow>
          (if rest \<noteq> [] then (Opt c (Some rest), \<lparr>nextchar = [], args = as, operands = ops\<rparr>)
           else case as of
                  [] \<Rightarrow> (Opt_Missing c, \<lparr>nextchar = [], args = [], operands = ops\<rparr>)
                | a # as' \<Rightarrow> (Opt c (Some a), \<lparr>nextchar = [], args = as', operands = ops\<rparr>)))"

fun getopt_next ::
  "(char \<rightharpoonup> has_arg) \<Rightarrow> string list \<Rightarrow> string list \<Rightarrow> opt_ev option \<times> getopt_state" where
  "getopt_next spec [] ops = (None, \<lparr>nextchar = [], args = [], operands = ops\<rparr>)"
| "getopt_next spec (a # as) ops =
     (if a = ''--'' then (None, \<lparr>nextchar = [], args = [], operands = ops @ as\<rparr>)
      else case a of
             m # c # rest \<Rightarrow>
               (if m = CHR ''-'' then map_prod Some id (getopt_letter spec c rest as ops)
                else getopt_next spec as (ops @ [a]))
           | _ \<Rightarrow> getopt_next spec as (ops @ [a]))"

definition getopt ::
  "(char \<rightharpoonup> has_arg) \<Rightarrow> getopt_state \<Rightarrow> opt_ev option \<times> getopt_state" where
  "getopt spec st =
     (case nextchar st of
        c # rest \<Rightarrow> map_prod Some id (getopt_letter spec c rest (args st) (operands st))
      | [] \<Rightarrow> getopt_next spec (args st) (operands st))"

text \<open>Every reported option consumes input, so a loop over \<open>getopt\<close> ends.\<close>

definition getopt_size :: "getopt_state \<Rightarrow> nat" where
  "getopt_size st = length (nextchar st) + sum_list (map (\<lambda>a. Suc (length a)) (args st))"

lemma getopt_letter_size:
  "getopt_size (snd (getopt_letter spec c rest as ops)) \<le>
     length rest + sum_list (map (\<lambda>a. Suc (length a)) as)"
  by (auto simp: getopt_size_def split: option.splits has_arg.splits list.splits)

lemma getopt_next_size:
  "getopt_next spec as ops = (Some e, st') \<Longrightarrow>
     getopt_size st' < sum_list (map (\<lambda>a. Suc (length a)) as)"
proof (induction spec as ops rule: getopt_next.induct)
  case (1 spec ops)
  then show ?case by simp
next
  case (2 spec a as ops)
  show ?case
  proof (cases "\<exists>c rest. a = CHR ''-'' # c # rest \<and> a \<noteq> ''--''")
    case True
    then obtain c rest where a: "a = CHR ''-'' # c # rest" "a \<noteq> ''--''" by blast
    with "2.prems" have "st' = snd (getopt_letter spec c rest as ops)"
      by (auto simp: prod_eq_iff)
    with getopt_letter_size [of spec c rest as ops] a show ?thesis by simp
  next
    case False
    with 2 show ?thesis
      by (fastforce split: if_splits list.splits)
  qed
qed

lemma getopt_decreases:
  "getopt spec st = (Some e, st') \<Longrightarrow> getopt_size st' < getopt_size st"
proof (cases "nextchar st")
  case Nil
  moreover assume "getopt spec st = (Some e, st')"
  ultimately show ?thesis by (auto simp: getopt_def getopt_size_def [of st] dest: getopt_next_size)
next
  case (Cons c rest)
  moreover assume "getopt spec st = (Some e, st')"
  ultimately have "st' = snd (getopt_letter spec c rest (args st) (operands st))"
    by (auto simp: getopt_def prod_eq_iff)
  with getopt_letter_size [of spec c rest "args st" "operands st"] Cons show ?thesis
    by (simp add: getopt_size_def [of st])
qed

section \<open>Error numbers and eventfd objects\<close>

definition EINTR :: nat where "EINTR = 4"
definition EBADF :: nat where "EBADF = 9"
definition EAGAIN :: nat where "EAGAIN = 11"
definition EINVAL :: nat where "EINVAL = 22"
definition ENAMETOOLONG :: nat where "ENAMETOOLONG = 36"

lemmas errno_defs = EINTR_def EBADF_def EAGAIN_def EINVAL_def ENAMETOOLONG_def

text \<open>
  A non-blocking eventfd holds a counter.  A read of a semaphore takes one unit, a read of a plain
  eventfd takes everything; at zero both fail with \<open>EAGAIN\<close>.  A write adds.
\<close>

record eventfd =
  efd_count :: nat
  efd_semaphore :: bool

type_synonym fdtable = "i32 \<rightharpoonup> eventfd"

definition eventfd_read :: "fdtable \<Rightarrow> i32 \<Rightarrow> nat + (nat \<times> fdtable)" where
  "eventfd_read t fd =
     (case t fd of
        None \<Rightarrow> Inl EBADF
      | Some e \<Rightarrow>
          (if efd_count e = 0 then Inl EAGAIN
           else if efd_semaphore e then Inr (1, t(fd \<mapsto> e\<lparr>efd_count := efd_count e - 1\<rparr>))
           else Inr (efd_count e, t(fd \<mapsto> e\<lparr>efd_count := 0\<rparr>))))"

definition eventfd_write :: "fdtable \<Rightarrow> i32 \<Rightarrow> nat \<Rightarrow> nat + fdtable" where
  "eventfd_write t fd v =
     (case t fd of
        None \<Rightarrow> Inl EBADF
      | Some e \<Rightarrow>
          (if v = 2 ^ 64 - 1 then Inl EINVAL
           else if 2 ^ 64 - 1 \<le> efd_count e + v then Inl EAGAIN
           else Inr (t(fd \<mapsto> e\<lparr>efd_count := efd_count e + v\<rparr>))))"

lemma eventfd_write_read:
  "eventfd_write t fd 1 = Inr t' \<Longrightarrow> \<exists>v t''. eventfd_read t' fd = Inr (v, t'')"
  by (auto simp: eventfd_write_def eventfd_read_def split: option.splits if_splits)

end
