(* ===== verification/Ride_Types.thy ===== *)
theory Ride_Types
  imports C_Lib
begin

text \<open>The constants and structures of \<open>ride.h\<close>, shared by the kernel side and the user side.\<close>

definition MAX_FILENAME_LEN :: nat where "MAX_FILENAME_LEN = 128"
definition MAX_THREADS :: u64 where "MAX_THREADS = 20"
definition DEFAULT_IO_CONCURRENCY :: u64 where "DEFAULT_IO_CONCURRENCY = 32"

text \<open>
  \<open>DEFAULT_THREADS\<close> is a macro over \<open>sysconf(_SC_NPROCESSORS_ONLN)\<close>, the number of processors
  online (or \<open>-1\<close>), which is an argument here.  The division is C's, of a positive number.
\<close>

definition DEFAULT_THREADS :: "int \<Rightarrow> u64" where
  "DEFAULT_THREADS nprocs = (if nprocs < 1 then 1 else word_of_int (nprocs div 2))"

datatype watch_path_type = WATCH_FILE | WATCH_DIRECRTORY

text \<open>\<open>path\<close> is an array of \<open>MAX_FILENAME_LEN\<close> characters, \<open>path_len\<close> a \<open>long\<close>.\<close>

record event =
  ev_path :: string
  ev_path_len :: i64

definition event_ok :: "event \<Rightarrow> bool" where
  "event_ok e \<longleftrightarrow> length (ev_path e) = MAX_FILENAME_LEN"

text \<open>\<open>memset(&event, 0, sizeof event)\<close>\<close>

definition event_zero :: event where
  "event_zero = \<lparr>ev_path = replicate 128 NUL, ev_path_len = 0\<rparr>"

lemma event_zero_simps [simp]:
  "event_ok event_zero" "cstr (ev_path event_zero) = []" "ev_path_len event_zero = 0"
  by (simp_all add: event_ok_def event_zero_def MAX_FILENAME_LEN_def cstr_def)

end
