(* ===== verification/Bpf_Filter.thy ===== *)
theory Bpf_Filter
  imports Ride_Types "HOL-Library.Sublist"
begin

text \<open>
  The kernel side, \<open>ride.bpf.c\<close>: the LSM \<open>file_open\<close> hook that selects the files to be hashed.
  The kernel structures are cut down to the fields the hook reads.  The kernel function
  \<open>bpf_path_d_path\<close> and the outcome of \<open>bpf_ringbuf_reserve\<close> are arguments: the first maps a path
  and the previous contents of the buffer to its return value and the new contents, the second is
  the reserved record, with whatever it held before, or nothing.
\<close>

section \<open>Definitions\<close>

record file_system_type =
  fs_flags :: i32

record super_block =
  s_type :: "file_system_type option"

record inode =
  i_mode :: u16
  i_sb :: super_block

record 'p kfile =
  f_inode :: inode
  f_path :: 'p

definition S_IFMT :: u16 where "S_IFMT = 0xF000"
definition S_IFREG :: u16 where "S_IFREG = 0x8000"
definition S_IFDIR :: u16 where "S_IFDIR = 0x4000"

definition S_ISREG :: "u16 \<Rightarrow> bool" where
  "S_ISREG m \<longleftrightarrow> m AND S_IFMT = S_IFREG"

definition FS_REQUIRES_DEV :: i32 where "FS_REQUIRES_DEV = 1"

definition fs_requires_dev :: "super_block \<Rightarrow> bool" where
  "fs_requires_dev sb =
     (case s_type sb of None \<Rightarrow> False | Some t \<Rightarrow> fs_flags t AND FS_REQUIRES_DEV \<noteq> 0)"

text \<open>The constants user space stores into the program before it is loaded.\<close>

record bpf_rodata =
  ro_watch_path :: string
  ro_watch_path_len :: u64
  ro_watch_path_type :: watch_path_type
  ro_userspace_pid :: i32

text \<open>The comparison loop, from index \<open>i\<close> with \<open>n\<close> iterations left.\<close>

fun match_from :: "string \<Rightarrow> string \<Rightarrow> nat \<Rightarrow> nat \<Rightarrow> bool res" where
  "match_from path wpath i 0 = Inr True"
| "match_from path wpath i (Suc n) =
     (if length path \<le> i \<or> length wpath \<le> i then Inl Out_Of_Bounds
      else if path ! i \<noteq> wpath ! i then Inr False
      else match_from path wpath (Suc i) n)"

text \<open>
  \<open>plen\<close> is an \<open>int\<close> and \<open>watch_path_len\<close> a \<open>size_t\<close>: both comparisons are made on unsigned
  64-bit values, after sign extension of \<open>plen\<close>.
\<close>

definition in_watch_path :: "bpf_rodata \<Rightarrow> string \<Rightarrow> i32 \<Rightarrow> bool res" where
  "in_watch_path ro path plen =
     (let pl = scast plen :: u64 in
      if pl < ro_watch_path_len ro
         \<or> (ro_watch_path_type ro = WATCH_FILE \<and> ro_watch_path_len ro \<noteq> pl)
      then Inr False
      else match_from path (ro_watch_path ro) 0 (unat (ro_watch_path_len ro)))"

text \<open>What a run of the hook does to the BPF ring buffer.\<close>

datatype rb_action = Rb_Reserve_Failed | Rb_Discard | Rb_Submit event

definition ride ::
  "bpf_rodata \<Rightarrow> ('p \<Rightarrow> string \<Rightarrow> i32 \<times> string) \<Rightarrow> u64 \<Rightarrow> 'p kfile \<Rightarrow> event option
     \<Rightarrow> (i32 \<times> rb_action list) res" where
  "ride ro d_path pid_tgid file reserve =
     (if drop_bit 32 pid_tgid = (scast (ro_userspace_pid ro) :: u64) then Inr (0, [])
      else if \<not> S_ISREG (i_mode (f_inode file)) \<or> \<not> fs_requires_dev (i_sb (f_inode file))
      then Inr (0, [])
      else case reserve of
             None \<Rightarrow> Inr (0, [Rb_Reserve_Failed])
           | Some mem \<Rightarrow>
               (let r = d_path (f_path file) (ev_path mem);
                    plen = fst r - 1;
                    buf = (snd r)[MAX_FILENAME_LEN - 1 := NUL];
                    ev = mem\<lparr>ev_path := buf, ev_path_len := scast plen\<rparr>
                in bind_res (in_watch_path ro buf plen)
                     (\<lambda>hit. if hit then Inr (0, [Rb_Submit ev]) else Inr (0, [Rb_Discard]))))"

section \<open>The filter\<close>

lemma match_from_prefix:
  "i + n \<le> length path \<Longrightarrow> i + n \<le> length wpath \<Longrightarrow>
     match_from path wpath i n = Inr (take n (drop i path) = take n (drop i wpath))"
proof (induction n arbitrary: i)
  case 0
  then show ?case by simp
next
  case (Suc n)
  then have "drop i path = path ! i # drop (Suc i) path" "drop i wpath = wpath ! i # drop (Suc i) wpath"
    by (simp_all add: Cons_nth_drop_Suc)
  with Suc show ?case by simp
qed

lemma in_watch_path_no_fault:
  assumes "unat (ro_watch_path_len ro) \<le> 128" "length (ro_watch_path ro) = 128" "length path = 128"
  shows "\<exists>b. in_watch_path ro path plen = Inr b"
  using assms by (auto simp: in_watch_path_def Let_def match_from_prefix)

text \<open>
  What \<open>bpf_path_d_path\<close> documents for a path that fits: it fills the buffer with the string and
  returns its size, the terminator included.
\<close>

definition d_path_yields :: "('p \<Rightarrow> string \<Rightarrow> i32 \<times> string) \<Rightarrow> 'p \<Rightarrow> string \<Rightarrow> bool" where
  "d_path_yields d_path p s \<longleftrightarrow>
     NUL \<notin> set s \<and> length s < MAX_FILENAME_LEN \<and>
     (\<forall>mem. length mem = MAX_FILENAME_LEN \<longrightarrow>
        fst (d_path p mem) = of_nat (length s + 1) \<and>
        length (snd (d_path p mem)) = MAX_FILENAME_LEN \<and> cstr (snd (d_path p mem)) = s)"

text \<open>The watched string, as the hook reads it.\<close>

definition watched :: "bpf_rodata \<Rightarrow> string" where
  "watched ro = take (unat (ro_watch_path_len ro)) (ro_watch_path ro)"

definition rodata_ok :: "bpf_rodata \<Rightarrow> bool" where
  "rodata_ok ro \<longleftrightarrow> length (ro_watch_path ro) = MAX_FILENAME_LEN
     \<and> unat (ro_watch_path_len ro) \<le> MAX_FILENAME_LEN"

text \<open>The abstract filter: equality for a watched file, a prefix test for a watched directory.\<close>

definition watch_matches :: "bpf_rodata \<Rightarrow> string \<Rightarrow> bool" where
  "watch_matches ro s =
     (case ro_watch_path_type ro of
        WATCH_FILE \<Rightarrow> s = watched ro
      | WATCH_DIRECRTORY \<Rightarrow> prefix (watched ro) s)"

definition hook_ignores :: "bpf_rodata \<Rightarrow> u64 \<Rightarrow> 'p kfile \<Rightarrow> bool" where
  "hook_ignores ro pid_tgid file \<longleftrightarrow>
     drop_bit 32 pid_tgid = (scast (ro_userspace_pid ro) :: u64)
     \<or> \<not> S_ISREG (i_mode (f_inode file)) \<or> \<not> fs_requires_dev (i_sb (f_inode file))"

lemma prefix_take_iff: "prefix xs ys \<longleftrightarrow> length xs \<le> length ys \<and> take (length xs) ys = xs"
  by (auto simp: prefix_def append_eq_conv_conj) (metis append_take_drop_id)

lemma in_watch_path_iff:
  assumes ro: "rodata_ok ro" and buf: "length buf = MAX_FILENAME_LEN" "cstr buf = s"
  shows "in_watch_path ro buf (of_nat (length s)) = Inr (watch_matches ro s)"
proof -
  define n where "n = unat (ro_watch_path_len ro)"
  have n: "n \<le> 128" "ro_watch_path_len ro = of_nat n" "length (ro_watch_path ro) = 128"
    using ro by (simp_all add: n_def rodata_ok_def MAX_FILENAME_LEN_def)
  have s: "length s \<le> 128"
    using buf length_cstr_le [of buf] by (simp add: MAX_FILENAME_LEN_def)
  have w: "watched ro = take n (ro_watch_path ro)" by (simp add: watched_def n_def)
  then have len_w: "length (watched ro) = n" using n by simp
  have m: "match_from buf (ro_watch_path ro) 0 n = Inr (take n buf = watched ro)"
    using n buf by (simp add: match_from_prefix MAX_FILENAME_LEN_def w)
  have conv: "(scast (of_nat (length s) :: i32) :: u64) = of_nat (length s)"
    using s by (intro scast_of_nat) simp
  have tk: "take n buf = take n s" if "n \<le> length s"
    using that buf(2) take_cstr [of n buf] by simp
  have lt: "(of_nat (length s) :: u64) < of_nat n \<longleftrightarrow> length s < n"
    using s n by (intro of_nat_less_64) simp_all
  have eq: "(of_nat n :: u64) = of_nat (length s) \<longleftrightarrow> n = length s"
    using s n by (intro of_nat_eq_64) simp_all
  have un: "unat (of_nat n :: u64) = n" using n by (intro unat_of_nat_64) simp
  show ?thesis
  proof (cases "length s < n \<or> (ro_watch_path_type ro = WATCH_FILE \<and> n \<noteq> length s)")
    case True
    then have "\<not> watch_matches ro s"
      using len_w by (auto simp: watch_matches_def prefix_take_iff split: watch_path_type.splits)
    with True show ?thesis
      by (auto simp: in_watch_path_def Let_def conv n(2) lt eq)
  next
    case False
    then have "watch_matches ro s \<longleftrightarrow> take n s = watched ro"
      using len_w by (auto simp: watch_matches_def prefix_take_iff split: watch_path_type.splits)
    with False m tk show ?thesis
      by (auto simp: in_watch_path_def Let_def conv n(2) lt eq un)
  qed
qed

lemma ride_selects:
  assumes ro: "rodata_ok ro" and mem: "event_ok mem" and d: "d_path_yields d_path (f_path file) s"
  shows "\<exists>buf. length buf = MAX_FILENAME_LEN \<and> cstr buf = s \<and>
    ride ro d_path pid_tgid file (Some mem) =
      Inr (0, if hook_ignores ro pid_tgid file then []
              else if watch_matches ro s
              then [Rb_Submit \<lparr>ev_path = buf, ev_path_len = of_nat (length s)\<rparr>]
              else [Rb_Discard])"
proof -
  define r where "r = d_path (f_path file) (ev_path mem)"
  define buf where "buf = (snd r)[MAX_FILENAME_LEN - 1 := NUL]"
  have r: "fst r = of_nat (length s) + 1" "length (snd r) = MAX_FILENAME_LEN" "cstr (snd r) = s"
    and s: "length s < MAX_FILENAME_LEN"
    using d mem by (simp_all add: d_path_yields_def event_ok_def r_def)
  have buf: "length buf = MAX_FILENAME_LEN" "cstr buf = s"
    using r s by (simp_all add: buf_def cstr_update_NUL)
  have len: "(scast (of_nat (length s) :: i32) :: u64) = of_nat (length s)"
    using s by (intro scast_of_nat) (simp add: MAX_FILENAME_LEN_def)
  have "ride ro d_path pid_tgid file (Some mem) =
      Inr (0, if hook_ignores ro pid_tgid file then []
              else if watch_matches ro s
              then [Rb_Submit \<lparr>ev_path = buf, ev_path_len = of_nat (length s)\<rparr>]
              else [Rb_Discard])"
    unfolding ride_def hook_ignores_def Let_def option.case r_def [symmetric] buf_def [symmetric]
    by (simp add: in_watch_path_iff [OF ro buf] r(1) len)
  with buf show ?thesis by blast
qed

text \<open>A negative length, compared as an unsigned number, passes the length test of a directory watch.\<close>

lemma in_watch_path_negative:
  assumes ro: "rodata_ok ro" and len: "length buf = MAX_FILENAME_LEN" and e: "0 < errno" "errno < 4096"
  shows "in_watch_path ro buf (- of_nat errno - 1) =
     Inr (ro_watch_path_type ro = WATCH_DIRECRTORY \<and> prefix (watched ro) buf)"
proof -
  define n where "n = unat (ro_watch_path_len ro)"
  have n: "n \<le> 128" "length (ro_watch_path ro) = 128" "length buf = 128"
    using ro len by (simp_all add: n_def rodata_ok_def MAX_FILENAME_LEN_def)
  have w: "watched ro = take n (ro_watch_path ro)" by (simp add: watched_def n_def)
  define pl where "pl = (- of_nat errno :: i32) - 1"
  have "pl = - of_nat (errno + 1)" by (simp add: pl_def)
  then have sc: "(scast pl :: u64) = - of_nat (errno + 1)"
    using e(2) by (simp only:) (intro scast_neg, simp)
  have "unat (- of_nat (errno + 1) :: u64) = 2 ^ 64 - (errno + 1)"
    using e(2) by (intro unat_neg_64) simp_all
  moreover have "128 < 2 ^ 64 - (errno + 1)" using e(2) by simp
  ultimately have big: "n < unat (- of_nat (errno + 1) :: u64)" using n(1) by simp
  then have guard: "\<not> (- of_nat (errno + 1) :: u64) < ro_watch_path_len ro"
      "ro_watch_path_len ro \<noteq> - of_nat (errno + 1)"
    unfolding word_less_nat_alt n_def by (simp, metis less_irrefl)
  have "match_from buf (ro_watch_path ro) 0 n = Inr (prefix (watched ro) buf)"
    using n w by (simp add: match_from_prefix prefix_take_iff)
  with guard show ?thesis
    unfolding in_watch_path_def Let_def pl_def [symmetric] sc n_def
    by (cases "ro_watch_path_type ro") simp_all
qed

text \<open>
  What \<open>bpf_path_d_path\<close> documents of any call: it stays inside the buffer it is given, and either returns a
  negative error number, or fills the buffer with the path and returns its size, the terminator included.
  After an error the contents of the buffer are unspecified.
\<close>

definition d_path_result :: "i32 \<times> string \<Rightarrow> bool" where
  "d_path_result r \<longleftrightarrow> length (snd r) = MAX_FILENAME_LEN \<and>
     ((\<exists>errno. 0 < errno \<and> errno < 4096 \<and> fst r = - of_nat errno)
      \<or> NUL \<in> set (snd r) \<and> fst r = of_nat (length (cstr (snd r)) + 1))"

lemma d_path_yields_result:
  assumes "d_path_yields d_path p s" "event_ok mem"
  shows "d_path_result (d_path p (ev_path mem))"
proof -
  let ?r = "d_path p (ev_path mem)"
  from assms have r: "fst ?r = of_nat (length s + 1)" "length (snd ?r) = MAX_FILENAME_LEN" "cstr (snd ?r) = s"
      "length s < MAX_FILENAME_LEN"
    unfolding d_path_yields_def event_ok_def by blast+
  have "NUL \<in> set (snd ?r)"
  proof (rule ccontr)
    assume "NUL \<notin> set (snd ?r)"
    then have "cstr (snd ?r) = snd ?r" by simp
    with r show False by simp
  qed
  with r show ?thesis unfolding d_path_result_def by auto
qed

lemma prefix_cstr: "NUL \<notin> set w \<Longrightarrow> prefix w buf \<longleftrightarrow> prefix w (cstr buf)"
proof (induction w arbitrary: buf)
  case (Cons c w)
  then show ?case by (cases buf) (auto simp: cstr_def)
qed simp

text \<open>The hook for whatever the helper returns.\<close>

lemma ride_result:
  assumes ro: "rodata_ok ro" "NUL \<notin> set (watched ro)"
    and d: "d_path (f_path file) (ev_path mem) = (ret, b)" "d_path_result (ret, b)"
    and buf: "buf = b[MAX_FILENAME_LEN - 1 := NUL]"
  shows "ride ro d_path pid_tgid file (Some mem) =
      Inr (0, if hook_ignores ro pid_tgid file then []
              else if (case ro_watch_path_type ro of
                         WATCH_FILE \<Rightarrow> 0 < sint ret \<and> cstr buf = watched ro
                       | WATCH_DIRECRTORY \<Rightarrow> prefix (watched ro) (cstr buf))
              then [Rb_Submit \<lparr>ev_path = buf, ev_path_len = scast (ret - 1)\<rparr>]
              else [Rb_Discard])"
proof -
  have len: "length buf = MAX_FILENAME_LEN" using d(2) by (simp add: buf d_path_result_def)
  from d(2) have "in_watch_path ro buf (ret - 1) = Inr (case ro_watch_path_type ro of
      WATCH_FILE \<Rightarrow> 0 < sint ret \<and> cstr buf = watched ro | WATCH_DIRECRTORY \<Rightarrow> prefix (watched ro) (cstr buf))"
    unfolding d_path_result_def fst_conv snd_conv
  proof (elim conjE disjE exE)
    fix errno assume e: "0 < errno" "errno < 4096" and ret: "ret = - of_nat errno"
    have "sint ret = - int errno" using e(2) unfolding ret by (intro sint_neg_32) simp
    then show ?thesis
      using in_watch_path_negative [OF ro(1) len e] prefix_cstr [OF ro(2), of buf] e(1)
      by (cases "ro_watch_path_type ro") (simp_all add: ret)
  next
    assume b: "length b = MAX_FILENAME_LEN" "NUL \<in> set b" and ret: "ret = of_nat (length (cstr b) + 1)"
    have lt: "length (cstr b) < MAX_FILENAME_LEN" using strlen_lt_iff [OF b(2)] b(1) by (simp add: strlen_def)
    then have cs: "cstr buf = cstr b" unfolding buf by (intro cstr_update_NUL) simp
    have "sint ret = int (length (cstr b) + 1)"
      using lt unfolding ret by (intro sint_of_nat_32) (simp add: MAX_FILENAME_LEN_def)
    then show ?thesis
      using in_watch_path_iff [OF ro(1) len refl] cs
      by (cases "ro_watch_path_type ro") (auto simp: ret watch_matches_def)
  qed
  then show ?thesis
    unfolding ride_def hook_ignores_def Let_def option.case d(1) fst_conv snd_conv buf [symmetric] by simp
qed

text \<open>
  C22.  When \<open>bpf_path_d_path\<close> fails with an error number, as it does for a path that does not fit the
  record, the result is not checked.  A file watch discards the event, because the length differs; a
  directory watch does not, because the negative length passes as a huge unsigned number: whatever the
  helper left in the buffer is taken for the path, and if it starts with the watched directory it is
  submitted, with a negative length.
\<close>

theorem d_path_failure_not_discarded:
  assumes "rodata_ok ro" and "\<not> hook_ignores ro pid_tgid file"
    and "d_path (f_path file) (ev_path mem) = (- of_nat errno, buf)" "0 < errno" "errno < 4096"
    and "length buf = MAX_FILENAME_LEN"
  shows "ride ro d_path pid_tgid file (Some mem) =
     Inr (0, case ro_watch_path_type ro of
               WATCH_FILE \<Rightarrow> [Rb_Discard]
             | WATCH_DIRECRTORY \<Rightarrow>
                 if prefix (watched ro) (buf[127 := NUL])
                 then [Rb_Submit \<lparr>ev_path = buf[127 := NUL], ev_path_len = - of_nat (errno + 1)\<rparr>]
                 else [Rb_Discard])"
proof -
  let ?pl = "(- of_nat errno :: i32) - 1"
  have "?pl = - of_nat (errno + 1)" by simp
  then have pl: "(scast ?pl :: u64) = - of_nat (errno + 1)"
    using assms(5) by (simp only:) (intro scast_neg, simp)
  have "in_watch_path ro (buf[127 := NUL]) ?pl =
      Inr (ro_watch_path_type ro = WATCH_DIRECRTORY \<and> prefix (watched ro) (buf[127 := NUL]))"
    using assms(1,4,5,6) by (intro in_watch_path_negative) simp_all
  with assms(2,3) show ?thesis
    by (cases "ro_watch_path_type ro")
      (simp_all add: ride_def hook_ignores_def Let_def pl MAX_FILENAME_LEN_def)
qed

text \<open>
  A watch on \<open>/etc/\<close>, and a file that is not below it: its path is \<open>/srv/etc/\<close> followed by 122 letters.  The
  kernel writes the path from its end, so the failing helper leaves the last 127 bytes, which start with \<open>/etc/\<close>.
\<close>

definition etc_rodata :: bpf_rodata where
  "etc_rodata = \<lparr>ro_watch_path = ''/etc/'' @ replicate 123 NUL, ro_watch_path_len = 5,
                 ro_watch_path_type = WATCH_DIRECRTORY, ro_userspace_pid = 1000\<rparr>"

definition reg_file :: "unit kfile" where
  "reg_file = \<lparr>f_inode = \<lparr>i_mode = 0x81A4, i_sb = \<lparr>s_type = Some \<lparr>fs_flags = 1\<rparr>\<rparr>\<rparr>, f_path = ()\<rparr>"

definition srv_tail :: string where
  "srv_tail = ''/etc/'' @ replicate 122 CHR ''a'' @ [NUL]"

theorem d_path_failure_not_discarded_witness:
  "ride etc_rodata (\<lambda>_ _. (- of_nat ENAMETOOLONG, srv_tail)) (7 * 2 ^ 32) reg_file (Some event_zero) =
     Inr (0, [Rb_Submit \<lparr>ev_path = srv_tail, ev_path_len = - 37\<rparr>])"
proof -
  have "drop_bit 32 (7 * 2 ^ 32 :: u64) = 7" by (simp add: drop_bit_eq_div)
  then have use: "\<not> hook_ignores etc_rodata (7 * 2 ^ 32) reg_file"
    by (simp add: hook_ignores_def reg_file_def etc_rodata_def S_ISREG_def S_IFMT_def S_IFREG_def
        fs_requires_dev_def FS_REQUIRES_DEV_def)
  have ro: "rodata_ok etc_rodata" "ro_watch_path_type etc_rodata = WATCH_DIRECRTORY"
    by (simp_all add: rodata_ok_def etc_rodata_def MAX_FILENAME_LEN_def)
  have buf: "length srv_tail = MAX_FILENAME_LEN" "srv_tail[127 := NUL] = srv_tail" "prefix (watched etc_rodata) srv_tail"
    by (simp_all add: srv_tail_def MAX_FILENAME_LEN_def watched_def etc_rodata_def list_update_append)
  show ?thesis
    using d_path_failure_not_discarded [OF ro(1) use, of "\<lambda>_ _. (- of_nat ENAMETOOLONG, srv_tail)" event_zero
        ENAMETOOLONG srv_tail] ro(2) buf by (simp add: ENAMETOOLONG_def)
qed

end
