(* ===== verification/Ride_Config.thy ===== *)
theory Ride_Config
  imports Bpf_Filter
begin

text \<open>
  The command line and the watch path: \<open>struct ride_cli_args\<close>, \<open>parse_env\<close> and \<open>ride_stat\<close> of
  \<open>ride.c\<close>, and the constants \<open>ride_run\<close> stores into the BPF program.  The file system calls
  \<open>stat\<close> (the mode of a path) and \<open>realpath\<close> are arguments.
\<close>

section \<open>Definitions\<close>

record ride_cli_args =
  watch_path :: string
  watch_path_len :: u64
  cli_watch_path_type :: watch_path_type
  fingerprint_alg :: string
  threads :: u64
  io_concurrency :: u64
  verify :: bool

definition EXIT_FAILURE :: nat where "EXIT_FAILURE = 1"
definition EXIT_SUCCESS :: nat where "EXIT_SUCCESS = 0"

definition MAX_CONCURRENCY :: u64 where "MAX_CONCURRENCY = 256"

text \<open>\<open>":f::t:c:v"\<close>\<close>

definition optstring :: "char \<rightharpoonup> has_arg" where
  "optstring = [CHR ''f'' \<mapsto> Optional_Arg, CHR ''t'' \<mapsto> Required_Arg,
                CHR ''c'' \<mapsto> Required_Arg, CHR ''v'' \<mapsto> No_Arg]"

text \<open>One round of the option loop; \<open>None\<close> is a return with a non-zero status.\<close>

fun parse_opt :: "ride_cli_args \<Rightarrow> opt_ev \<Rightarrow> ride_cli_args option" where
  "parse_opt out (Opt_Missing c) = None"
| "parse_opt out (Opt_Invalid c) = None"
| "parse_opt out (Opt c optarg) =
     (if c = CHR ''v'' then Some (out\<lparr>verify := True\<rparr>)
      else if c = CHR ''f'' then
        (case optarg of
           Some a \<Rightarrow> Some (out\<lparr>fingerprint_alg := (strncpy (fingerprint_alg out) a 10)[9 := NUL]\<rparr>)
         | None \<Rightarrow> Some (out\<lparr>fingerprint_alg := ''BLAKE3'' @ [NUL] @ drop 7 (fingerprint_alg out)\<rparr>))
      else if c = CHR ''t'' then
        (let n = word_of_int (strtoll (the optarg)) :: u64 in
         if n = 0 \<or> MAX_THREADS < n then None else Some (out\<lparr>threads := n\<rparr>))
      else if c = CHR ''c'' then
        (let n = word_of_int (strtoll (the optarg)) :: u64 in
         if n = 0 \<or> MAX_CONCURRENCY < n then None else Some (out\<lparr>io_concurrency := n\<rparr>))
      else Some out)"

function parse_opts :: "getopt_state \<Rightarrow> ride_cli_args \<Rightarrow> nat + (ride_cli_args \<times> getopt_state)" where
  "parse_opts st out =
     (case getopt optstring st of
        (None, st') \<Rightarrow> Inr (out, st')
      | (Some e, st') \<Rightarrow>
          (case parse_opt out e of
             None \<Rightarrow> Inl EXIT_FAILURE
           | Some out' \<Rightarrow> parse_opts st' out'))"
  by pat_completeness auto
termination
  by (relation "measure (\<lambda>(st, out). getopt_size st)") (auto intro: getopt_decreases [OF sym])

declare parse_opts.simps [simp del]

definition parse_env :: "ride_cli_args \<Rightarrow> string list \<Rightarrow> nat + ride_cli_args" where
  "parse_env out argv =
     (case parse_opts (getopt_init argv) out of
        Inl e \<Rightarrow> Inl e
      | Inr (out', st) \<Rightarrow>
          (case operands st of
             [] \<Rightarrow> Inl EXIT_FAILURE
           | p # _ \<Rightarrow>
               Inr (out'\<lparr>watch_path := (strncpy (watch_path out') p MAX_FILENAME_LEN)
                                        [MAX_FILENAME_LEN - 1 := NUL]\<rparr>)))"

text \<open>The messages \<open>ride_stat\<close> prints without returning.\<close>

datatype stat_diag = Dir_Path_Too_Large | Dir_Path_Very_Large

definition stat_type :: "u32 \<Rightarrow> watch_path_type option" where
  "stat_type mode =
     (if mode AND 0xF000 = 0x4000 then Some WATCH_DIRECRTORY
      else if mode AND 0xF000 = 0x8000 then Some WATCH_FILE
      else None)"

definition ride_stat ::
  "(string \<Rightarrow> u32 option) \<Rightarrow> (string \<Rightarrow> string option) \<Rightarrow> ride_cli_args
     \<Rightarrow> nat + (ride_cli_args \<times> stat_diag list)" where
  "ride_stat stat realpath a =
     (case stat (cstr (watch_path a)) of
        None \<Rightarrow> Inl 1
      | Some mode \<Rightarrow>
     (case stat_type mode of
        None \<Rightarrow> Inl 1
      | Some t \<Rightarrow>
     (case realpath (cstr (watch_path a)) of
        None \<Rightarrow> Inl 1
      | Some abspath \<Rightarrow>
          (let pathlen = length abspath in
           if MAX_FILENAME_LEN - 1 < pathlen then Inl 1
           else
             let d1 = (if t = WATCH_DIRECRTORY \<and> MAX_FILENAME_LEN - 2 < pathlen
                       then [Dir_Path_Too_Large] else []);
                 wpath = (strncpy (watch_path a) abspath MAX_FILENAME_LEN)[MAX_FILENAME_LEN - 1 := NUL];
                 wpath' = (if t = WATCH_DIRECRTORY then wpath[pathlen := CHR ''/''] else wpath);
                 len = (if t = WATCH_DIRECRTORY then pathlen + 1 else pathlen);
                 d2 = (if t = WATCH_DIRECRTORY \<and> 90 * MAX_FILENAME_LEN < 100 * len
                       then [Dir_Path_Very_Large] else [])
             in Inr (a\<lparr>watch_path := wpath', watch_path_len := of_nat len,
                          cli_watch_path_type := t\<rparr>, d1 @ d2)))))"

text \<open>The initialiser of \<open>args\<close> in \<open>ride_run\<close>; fields it does not name are zero.\<close>

definition cli_args_init :: "int \<Rightarrow> ride_cli_args" where
  "cli_args_init nprocs =
     \<lparr>watch_path = replicate 128 NUL, watch_path_len = 0, cli_watch_path_type = WATCH_FILE,
      fingerprint_alg = ''BLAKE3'' @ replicate 4 NUL, threads = DEFAULT_THREADS nprocs,
      io_concurrency = DEFAULT_IO_CONCURRENCY, verify = False\<rparr>"

definition ride_rodata :: "ride_cli_args \<Rightarrow> i32 \<Rightarrow> bpf_rodata" where
  "ride_rodata a pid =
     \<lparr>ro_watch_path = strncpy (replicate 128 NUL) (watch_path a) MAX_FILENAME_LEN,
      ro_watch_path_len = watch_path_len a,
      ro_watch_path_type = cli_watch_path_type a,
      ro_userspace_pid = pid\<rparr>"

section \<open>Well-formed arguments\<close>

text \<open>
  What the rest of the program relies on: buffers of their declared size, both strings
  terminated, and a number of tasks between 1 and 256.  \<open>threads_ok\<close> is kept apart, because the
  default does not always satisfy it.
\<close>

definition args_ok :: "ride_cli_args \<Rightarrow> bool" where
  "args_ok a \<longleftrightarrow> length (watch_path a) = MAX_FILENAME_LEN \<and> NUL \<in> set (watch_path a)
     \<and> length (fingerprint_alg a) = 10 \<and> NUL \<in> set (fingerprint_alg a)
     \<and> 0 < io_concurrency a \<and> io_concurrency a \<le> MAX_CONCURRENCY"

definition threads_ok :: "ride_cli_args \<Rightarrow> bool" where
  "threads_ok a \<longleftrightarrow> 0 < threads a \<and> threads a \<le> MAX_THREADS"

lemma NUL_in_set_update: "i < length xs \<Longrightarrow> NUL \<in> set (xs[i := NUL])"
  by (metis length_list_update nth_list_update_eq nth_mem)

lemma args_ok_init: "args_ok (cli_args_init nprocs)"
  by (simp add: args_ok_def cli_args_init_def MAX_FILENAME_LEN_def DEFAULT_IO_CONCURRENCY_def
      MAX_CONCURRENCY_def)

lemma parse_opt_ok: "parse_opt a e = Some a' \<Longrightarrow> args_ok a \<Longrightarrow> args_ok a'"
  by (cases "(a, e)" rule: parse_opt.cases)
    (auto simp: args_ok_def Let_def NUL_in_set_update not_less word_neq_0_conv
      split: if_splits option.splits)

lemma parse_opt_threads:
  "parse_opt a e = Some a' \<Longrightarrow> threads a' = threads a \<or> threads_ok a'"
  by (cases "(a, e)" rule: parse_opt.cases)
    (auto simp: threads_ok_def Let_def not_less word_neq_0_conv split: if_splits option.splits)

lemma parse_opts_ok:
  "parse_opts st a = Inr (a', st') \<Longrightarrow> args_ok a \<Longrightarrow>
     args_ok a' \<and> (threads a' = threads a \<or> threads_ok a')"
proof (induction st a arbitrary: a' rule: parse_opts.induct)
  case (1 st out)
  show ?case
  proof (cases "getopt optstring st")
    case (Pair r st1)
    show ?thesis
    proof (cases r)
      case None
      with Pair "1.prems" show ?thesis by (simp add: parse_opts.simps [of st out])
    next
      case (Some e)
      with Pair "1.prems"(1) obtain out1
        where o: "parse_opt out e = Some out1" "parse_opts st1 out1 = Inr (a', st')"
        by (auto simp: parse_opts.simps [of st out] split: option.splits)
      have "args_ok out1" using o(1) "1.prems"(2) by (rule parse_opt_ok)
      then have "args_ok a' \<and> (threads a' = threads out1 \<or> threads_ok a')"
        using "1.IH" [OF Pair [symmetric] Some o(1) o(2)] by simp
      with parse_opt_threads [OF o(1)] show ?thesis by (auto simp: threads_ok_def)
    qed
  qed
qed

text \<open>The size of the integers \<open>-t\<close> and \<open>-c\<close> accept does not depend on what \<open>strtoll\<close> returns.\<close>

lemma parse_env_ok:
  assumes "parse_env (cli_args_init nprocs) argv = Inr a"
  shows "args_ok a \<and> (threads a = DEFAULT_THREADS nprocs \<or> threads_ok a)"
proof -
  from assms obtain out st p ps
    where o: "parse_opts (getopt_init argv) (cli_args_init nprocs) = Inr (out, st)"
      and a: "a = out\<lparr>watch_path := (strncpy (watch_path out) p MAX_FILENAME_LEN)
                                  [MAX_FILENAME_LEN - 1 := NUL]\<rparr>"
    by (auto simp: parse_env_def split: sum.splits prod.splits list.splits)
  from parse_opts_ok [OF o args_ok_init]
  have "args_ok out" "threads out = threads (cli_args_init nprocs) \<or> threads_ok out" by auto
  then show ?thesis
    by (auto simp: a args_ok_def threads_ok_def cli_args_init_def MAX_FILENAME_LEN_def
        intro!: NUL_in_set_update)
qed

section \<open>The watch path\<close>

text \<open>
  \<open>realpath\<close> returns a C string: without NUL.  The buffer \<open>ride_stat\<close> leaves behind is the
  canonical path, with a slash appended for a directory, padded with NULs.
\<close>

lemma strncpy_pad:
  assumes "length wpath = 128" "NUL \<notin> set p" "length p \<le> 127"
  shows "(strncpy wpath p 128)[127 := NUL] = p @ replicate (128 - length p) NUL"
proof -
  have "(strncpy wpath p 128) = p @ replicate (128 - length p) NUL"
    using assms by (simp add: strncpy_short)
  moreover have "(p @ replicate (128 - length p) NUL)[127 := NUL] = p @ replicate (128 - length p) NUL"
    using assms by (auto simp: list_update_append)
  ultimately show ?thesis by simp
qed

lemma strncpy_self: "length wpath = 128 \<Longrightarrow> length dst = 128 \<Longrightarrow> NUL \<notin> set s \<Longrightarrow> length s \<le> 128 \<Longrightarrow>
   wpath = s @ replicate (128 - length s) NUL \<Longrightarrow> strncpy dst wpath 128 = wpath"
  by (simp add: strncpy_def)

definition stat_watch :: "watch_path_type \<Rightarrow> string \<Rightarrow> string" where
  "stat_watch t p = (case t of WATCH_FILE \<Rightarrow> p | WATCH_DIRECRTORY \<Rightarrow> p @ ''/'')"

lemma ride_stat_path:
  assumes a: "length (watch_path a) = MAX_FILENAME_LEN"
    and st: "stat (cstr (watch_path a)) = Some mode" "stat_type mode = Some t"
    and rp: "realpath (cstr (watch_path a)) = Some p" "NUL \<notin> set p" "length p \<le> 127"
  shows "\<exists>diag. ride_stat stat realpath a =
     Inr (a\<lparr>watch_path := stat_watch t p @ replicate (128 - length (stat_watch t p)) NUL,
            watch_path_len := of_nat (length (stat_watch t p)), cli_watch_path_type := t\<rparr>, diag)
     \<and> (Dir_Path_Too_Large \<in> set diag \<longleftrightarrow> t = WATCH_DIRECRTORY \<and> length p = 127)"
proof -
  have wpath: "(strncpy (watch_path a) p 128)[127 := NUL] = p @ replicate (128 - length p) NUL"
    using a rp by (intro strncpy_pad) (simp_all add: MAX_FILENAME_LEN_def)
  have "128 - length p = Suc (127 - length p)" using rp(3) by simp
  then have sl: "(p @ replicate (128 - length p) NUL)[length p := CHR ''/'']
      = p @ ''/'' @ replicate (127 - length p) NUL"
    by (simp add: list_update_append)
  show ?thesis
    using st rp wpath sl
    by (cases t) (auto simp: ride_stat_def Let_def MAX_FILENAME_LEN_def stat_watch_def)
qed

lemma rodata_watched:
  assumes "NUL \<notin> set w" "length w \<le> 128"
    "watch_path a = w @ replicate (128 - length w) NUL" "watch_path_len a = of_nat (length w)"
  shows "rodata_ok (ride_rodata a pid)" "watched (ride_rodata a pid) = w"
proof -
  have "strncpy (replicate 128 NUL) (watch_path a) 128 = watch_path a"
    using assms by (intro strncpy_self [of _ _ w]) simp_all
  moreover have "unat (of_nat (length w) :: u64) = length w"
    using assms(2) by (intro unat_of_nat_64) simp
  ultimately show "rodata_ok (ride_rodata a pid)" "watched (ride_rodata a pid) = w"
    using assms by (simp_all add: rodata_ok_def watched_def ride_rodata_def MAX_FILENAME_LEN_def)
qed

text \<open>Success of \<open>ride_stat\<close>, and the constants the hook then gets.\<close>

lemma ride_stat_inv:
  assumes "ride_stat stat realpath a = Inr (a', diag)"
  obtains mode t p where "stat (cstr (watch_path a)) = Some mode" "stat_type mode = Some t"
    "realpath (cstr (watch_path a)) = Some p" "length p \<le> 127"
  using assms by (auto simp: ride_stat_def Let_def MAX_FILENAME_LEN_def split: option.splits if_splits)

lemma stat_rodata:
  assumes a: "args_ok a"
    and st: "stat (cstr (watch_path a)) = Some mode" "stat_type mode = Some t"
    and rp: "realpath (cstr (watch_path a)) = Some p" "NUL \<notin> set p" "length p \<le> 127"
    and rs: "ride_stat stat realpath a = Inr (a', diag)"
  shows "rodata_ok (ride_rodata a' pid)" "watched (ride_rodata a' pid) = stat_watch t p"
    "ro_watch_path_type (ride_rodata a' pid) = t" "NUL \<notin> set (stat_watch t p)"
proof -
  define w where "w = stat_watch t p"
  have w: "NUL \<notin> set w" "length w \<le> 128" using rp by (auto simp: w_def stat_watch_def split: watch_path_type.splits)
  have a': "a' = a\<lparr>watch_path := w @ replicate (128 - length w) NUL,
                   watch_path_len := of_nat (length w), cli_watch_path_type := t\<rparr>"
    using ride_stat_path [of a stat mode t realpath p, OF _ st rp] a rs by (auto simp: args_ok_def w_def)
  show "rodata_ok (ride_rodata a' pid)" "watched (ride_rodata a' pid) = stat_watch t p"
    using w a' by (auto intro: rodata_watched simp: w_def [symmetric])
  show "ro_watch_path_type (ride_rodata a' pid) = t" by (simp add: ride_rodata_def a')
  show "NUL \<notin> set (stat_watch t p)" using w by (simp add: w_def)
qed

lemma watch_result:
  assumes "args_ok a"
    and "stat (cstr (watch_path a)) = Some mode" "stat_type mode = Some t"
    and "realpath (cstr (watch_path a)) = Some p" "NUL \<notin> set p" "length p \<le> 127"
    and "ride_stat stat realpath a = Inr (a', diag)"
    and "d_path (f_path file) (ev_path mem) = (ret, b)" "d_path_result (ret, b)"
    and "buf = b[MAX_FILENAME_LEN - 1 := NUL]"
  shows "ride (ride_rodata a' pid) d_path pid_tgid file (Some mem) =
      Inr (0, if hook_ignores (ride_rodata a' pid) pid_tgid file then []
              else if (case t of
                         WATCH_FILE \<Rightarrow> 0 < sint ret \<and> cstr buf = p
                       | WATCH_DIRECRTORY \<Rightarrow> prefix (p @ ''/'') (cstr buf))
              then [Rb_Submit \<lparr>ev_path = buf, ev_path_len = scast (ret - 1)\<rparr>]
              else [Rb_Discard])"
proof -
  have ro: "rodata_ok (ride_rodata a' pid)" "watched (ride_rodata a' pid) = stat_watch t p"
      "ro_watch_path_type (ride_rodata a' pid) = t" "NUL \<notin> set (watched (ride_rodata a' pid))"
    using stat_rodata [OF assms(1-7)] by simp_all
  from ride_result [where d_path = d_path, OF ro(1,4) assms(8-10), of pid_tgid] ro show ?thesis
    by (cases t) (simp_all add: stat_watch_def)
qed

lemma watch_select:
  assumes "args_ok a"
    and "stat (cstr (watch_path a)) = Some mode" "stat_type mode = Some t"
    and "realpath (cstr (watch_path a)) = Some p" "NUL \<notin> set p" "length p \<le> 127"
    and "ride_stat stat realpath a = Inr (a', diag)"
    and "d_path_yields d_path (f_path file) s" "event_ok mem"
  shows "\<exists>buf. length buf = MAX_FILENAME_LEN \<and> cstr buf = s \<and>
    ride (ride_rodata a' pid) d_path pid_tgid file (Some mem) =
      Inr (0, if hook_ignores (ride_rodata a' pid) pid_tgid file then []
              else if (case t of WATCH_FILE \<Rightarrow> s = p | WATCH_DIRECRTORY \<Rightarrow> prefix (p @ ''/'') s)
              then [Rb_Submit \<lparr>ev_path = buf, ev_path_len = of_nat (length s)\<rparr>]
              else [Rb_Discard])"
proof -
  have ro: "rodata_ok (ride_rodata a' pid)" "watched (ride_rodata a' pid) = stat_watch t p"
      "ro_watch_path_type (ride_rodata a' pid) = t" "NUL \<notin> set (watched (ride_rodata a' pid))"
    using stat_rodata [OF assms(1-7)] by simp_all
  have "watch_matches (ride_rodata a' pid) s \<longleftrightarrow>
      (case t of WATCH_FILE \<Rightarrow> s = p | WATCH_DIRECRTORY \<Rightarrow> prefix (p @ ''/'') s)"
    using ro(2,3) by (auto simp: watch_matches_def stat_watch_def split: watch_path_type.splits)
  with ride_selects [OF ro(1) assms(9,8), of pid_tgid] show ?thesis by (simp only:)
qed

text \<open>
  C5.  End to end, from the command line to the kernel: when \<open>parse_env\<close> and \<open>ride_stat\<close> accept the
  arguments, there are a type \<open>t\<close> and a canonical path \<open>p\<close> of the watch path such that the hook, with
  the constants \<open>ride_run\<close> stores, does the following when a file is opened.  It does nothing if the process is
  the program's own, if the file is not a regular file or if its file system does not require a device.
  Otherwise it tries to reserve a record, and without one it does nothing more.  With one, let \<open>ret\<close> and
  \<open>buf\<close> be the result of \<open>bpf_path_d_path\<close> and the string in the record after it, whether the path fits
  into the record or the helper fails: the record is submitted, with that string and the length \<open>ret - 1\<close>,
  exactly when, for a watched file, the helper succeeded and the string is \<open>p\<close>, and, for a watched
  directory, the string starts with \<open>p/\<close>; it is discarded otherwise.  The open itself is never refused.
\<close>

theorem watch_end_to_end:
  assumes parse: "parse_env (cli_args_init nprocs) argv = Inr a"
    and rs: "ride_stat stat realpath a = Inr (a', diag)"
    and rp: "\<And>y. realpath (cstr (watch_path a)) = Some y \<Longrightarrow> NUL \<notin> set y"
    and d: "\<And>mem. reserve = Some mem \<Longrightarrow> d_path_result (d_path (f_path file) (ev_path mem))"
  shows "\<exists>mode t p. stat (cstr (watch_path a)) = Some mode \<and> stat_type mode = Some t
    \<and> realpath (cstr (watch_path a)) = Some p \<and>
    ride (ride_rodata a' pid) d_path pid_tgid file reserve =
      Inr (0, if drop_bit 32 pid_tgid = (scast pid :: u64) \<or> \<not> S_ISREG (i_mode (f_inode file))
                 \<or> \<not> fs_requires_dev (i_sb (f_inode file)) then []
              else case reserve of
                     None \<Rightarrow> [Rb_Reserve_Failed]
                   | Some mem \<Rightarrow>
                       let (ret, b) = d_path (f_path file) (ev_path mem); buf = b[MAX_FILENAME_LEN - 1 := NUL]
                       in if (case t of
                                WATCH_FILE \<Rightarrow> 0 < sint ret \<and> cstr buf = p
                              | WATCH_DIRECRTORY \<Rightarrow> prefix (p @ ''/'') (cstr buf))
                          then [Rb_Submit \<lparr>ev_path = buf, ev_path_len = scast (ret - 1)\<rparr>]
                          else [Rb_Discard])"
proof -
  obtain mode t p where s: "stat (cstr (watch_path a)) = Some mode" "stat_type mode = Some t"
    "realpath (cstr (watch_path a)) = Some p" "length p \<le> 127"
    using ride_stat_inv [OF rs] .
  note select = watch_result [OF parse_env_ok [OF parse, THEN conjunct1] s(1-3) rp [OF s(3)] s(4) rs, where d_path = d_path]
  let ?ign = "drop_bit 32 pid_tgid = (scast pid :: u64) \<or> \<not> S_ISREG (i_mode (f_inode file))
      \<or> \<not> fs_requires_dev (i_sb (f_inode file))"
  have ign: "hook_ignores (ride_rodata a' pid) pid_tgid file \<longleftrightarrow> ?ign"
    by (simp add: hook_ignores_def ride_rodata_def)
  show ?thesis
  proof (cases reserve)
    case None
    have "ride (ride_rodata a' pid) d_path pid_tgid file None = Inr (0, if ?ign then [] else [Rb_Reserve_Failed])"
      unfolding ign [symmetric] by (simp add: ride_def hook_ignores_def)
    with None s show ?thesis by auto
  next
    case (Some mem)
    obtain ret b where r: "d_path (f_path file) (ev_path mem) = (ret, b)" by fastforce
    from select [OF r d [OF Some, unfolded r] refl, of pid pid_tgid] s(1-3) show ?thesis
      unfolding ign Some option.case r Let_def prod.case by blast
  qed
qed

text \<open>Sample inputs: \<open>ride /etc\<close> on a four-processor machine, with \<open>/etc/passwd\<close> being opened.\<close>

definition sample_args :: "string \<Rightarrow> ride_cli_args" where
  "sample_args p = (cli_args_init 4)\<lparr>watch_path := p @ replicate (128 - length p) NUL\<rparr>"

definition sample_d_path :: "string \<Rightarrow> string \<Rightarrow> i32 \<times> string" where
  "sample_d_path p mem = (of_nat (length p + 1), p @ replicate (128 - length p) NUL)"

definition sample_file :: "string \<Rightarrow> string kfile" where
  "sample_file p = \<lparr>f_inode = \<lparr>i_mode = 0x81A4, i_sb = \<lparr>s_type = Some \<lparr>fs_flags = 1\<rparr>\<rparr>\<rparr>, f_path = p\<rparr>"

lemma sample_d_path_yields:
  "NUL \<notin> set p \<Longrightarrow> length p < 128 \<Longrightarrow> d_path_yields sample_d_path p p"
  by (simp add: d_path_yields_def sample_d_path_def MAX_FILENAME_LEN_def)

lemma sample_args_ok [simp]:
  assumes "length p < 128"
  shows "args_ok (sample_args p)" "NUL \<notin> set p \<Longrightarrow> cstr (watch_path (sample_args p)) = p"
  using assms args_ok_init [of 4] by (auto simp: sample_args_def args_ok_def MAX_FILENAME_LEN_def)

lemma sample_stat:
  assumes "NUL \<notin> set p" "length p < 128"
  shows "\<exists>a' diag. ride_stat (\<lambda>_. Some 0x41ED) Some (sample_args p) = Inr (a', diag)"
  using ride_stat_path [of "sample_args p" "\<lambda>_. Some 0x41ED" "0x41ED" WATCH_DIRECRTORY Some p]
    assms sample_args_ok [of p]
  by (fastforce simp: args_ok_def stat_type_def)

lemma sample_not_ignored: "\<not> hook_ignores (ride_rodata a 1000) (7 * 2 ^ 32) (sample_file p)"
proof -
  have "drop_bit 32 (7 * 2 ^ 32 :: u64) = 7" by (simp add: drop_bit_eq_div)
  then show ?thesis
    by (simp add: hook_ignores_def sample_file_def ride_rodata_def S_ISREG_def S_IFMT_def S_IFREG_def
        fs_requires_dev_def FS_REQUIRES_DEV_def)
qed

definition etc_argv :: "string list" where
  "etc_argv = [''ride'', ''/etc'']"

lemma etc_parse: "parse_env (cli_args_init 4) etc_argv = Inr (sample_args ''/etc'')"
proof -
  have "(strncpy (replicate 128 NUL) ''/etc'' 128)[127 := NUL] = ''/etc'' @ replicate (128 - length ''/etc'') NUL"
    by (rule strncpy_pad) simp_all
  then show ?thesis
    by (simp add: parse_env_def parse_opts.simps getopt_def getopt_init_def cli_args_init_def etc_argv_def sample_args_def
        MAX_FILENAME_LEN_def)
qed

theorem watch_end_to_end_witness:
  "\<exists>a a' diag. parse_env (cli_args_init 4) etc_argv = Inr a \<and> ride_stat (\<lambda>_. Some 0x41ED) Some a = Inr (a', diag) \<and>
     ride (ride_rodata a' 1000) sample_d_path (7 * 2 ^ 32) (sample_file ''/etc/passwd'') (Some event_zero)
       = Inr (0, [Rb_Submit \<lparr>ev_path = ''/etc/passwd'' @ replicate 117 NUL, ev_path_len = 11\<rparr>])"
proof -
  let ?a = "sample_args ''/etc''"
  obtain a' diag where rs: "ride_stat (\<lambda>_. Some 0x41ED) Some ?a = Inr (a', diag)"
    using sample_stat [of "''/etc''"] by auto
  let ?r = "sample_d_path (f_path (sample_file ''/etc/passwd'')) (ev_path event_zero)"
  have r: "?r = (12, ''/etc/passwd'' @ replicate 117 NUL)"
    by (simp add: sample_d_path_def sample_file_def)
  have "cstr (''/etc/passwd'' @ replicate 117 NUL) = ''/etc/passwd''" by (rule cstr_pad) simp
  then have c: "cstr (CHR ''/'' # ''etc/passwd'' @ replicate 117 NUL) = ''/etc/passwd''"  by simp
  have d: "d_path_result ?r" unfolding r by (simp add: d_path_result_def MAX_FILENAME_LEN_def c [simplified])
  have upd: "(''/etc/passwd'' @ replicate 117 NUL)[127 := NUL] = ''/etc/passwd'' @ replicate 117 NUL"
    by (simp add: list_update_append)
  obtain mode t p where w: "stat_type 0x41ED = Some t" "p = ''/etc''"
    "ride (ride_rodata a' 1000) sample_d_path (7 * 2 ^ 32) (sample_file ''/etc/passwd'') (Some event_zero) = Inr (0,
      if drop_bit 32 (7 * 2 ^ 32 :: u64) = scast (1000 :: i32) \<or> \<not> S_ISREG (i_mode (f_inode (sample_file ''/etc/passwd'')))
        \<or> \<not> fs_requires_dev (i_sb (f_inode (sample_file ''/etc/passwd''))) then []
      else let (ret, b) = ?r; buf = b[MAX_FILENAME_LEN - 1 := NUL]
           in if (case t of WATCH_FILE \<Rightarrow> 0 < sint ret \<and> cstr buf = p | WATCH_DIRECRTORY \<Rightarrow> prefix (p @ ''/'') (cstr buf))
              then [Rb_Submit \<lparr>ev_path = buf, ev_path_len = scast (ret - 1)\<rparr>] else [Rb_Discard])"
    using watch_end_to_end [OF etc_parse rs, of "Some event_zero" sample_d_path "sample_file ''/etc/passwd''" 1000 "7 * 2 ^ 32"] d
      sample_args_ok [of "''/etc''"] by auto
  have "drop_bit 32 (7 * 2 ^ 32 :: u64) = 7" by (simp add: drop_bit_eq_div)
  moreover have "t = WATCH_DIRECRTORY" using w(1) by (simp add: stat_type_def)
  moreover have "S_ISREG (i_mode (f_inode (sample_file ''/etc/passwd'')))" "fs_requires_dev (i_sb (f_inode (sample_file ''/etc/passwd'')))"
    by (simp_all add: sample_file_def S_ISREG_def S_IFMT_def S_IFREG_def fs_requires_dev_def FS_REQUIRES_DEV_def)
  ultimately have "ride (ride_rodata a' 1000) sample_d_path (7 * 2 ^ 32) (sample_file ''/etc/passwd'') (Some event_zero)
       = Inr (0, [Rb_Submit \<lparr>ev_path = ''/etc/passwd'' @ replicate 117 NUL, ev_path_len = 11\<rparr>])"
    unfolding w(3) r using c upd by (simp add: w(2) MAX_FILENAME_LEN_def)
  with etc_parse rs show ?thesis by blast
qed



text \<open>
  A directory whose canonical path has 127 characters: \<open>ride_stat\<close> prints that the watch path is
  too large, but returns success.  The appended slash overwrites the terminator, so the buffer
  holds no terminated string any more, and the hook can never match a file below it.
\<close>

theorem watch_dir_127_accepted:
  assumes "args_ok a" "stat (cstr (watch_path a)) = Some mode" "stat_type mode = Some WATCH_DIRECRTORY"
    and "realpath (cstr (watch_path a)) = Some p" "NUL \<notin> set p" "length p = 127"
  shows "\<exists>a' diag. ride_stat stat realpath a = Inr (a', diag) \<and> Dir_Path_Too_Large \<in> set diag
     \<and> NUL \<notin> set (watch_path a') \<and> watch_path_len a' = 128
     \<and> (\<forall>s. length s < MAX_FILENAME_LEN \<longrightarrow> \<not> watch_matches (ride_rodata a' pid) s)"
proof -
  let ?w = "stat_watch WATCH_DIRECRTORY p"
  have w: "NUL \<notin> set ?w" "length ?w = 128" using assms by (simp_all add: stat_watch_def)
  obtain diag where rs: "ride_stat stat realpath a =
     Inr (a\<lparr>watch_path := ?w, watch_path_len := 128, cli_watch_path_type := WATCH_DIRECRTORY\<rparr>, diag)"
    and diag: "Dir_Path_Too_Large \<in> set diag"
    using ride_stat_path [of a stat mode WATCH_DIRECRTORY realpath p] assms w
    by (auto simp: args_ok_def)
  let ?a' = "a\<lparr>watch_path := ?w, watch_path_len := 128, cli_watch_path_type := WATCH_DIRECRTORY\<rparr>"
  have "watched (ride_rodata ?a' pid) = ?w"
    using w by (intro rodata_watched) simp_all
  then have "\<not> watch_matches (ride_rodata ?a' pid) s" if "length s < MAX_FILENAME_LEN" for s
    using that w by (auto simp: watch_matches_def ride_rodata_def MAX_FILENAME_LEN_def prefix_take_iff)
  with rs diag w show ?thesis by auto
qed

theorem watch_dir_127_accepted_witness:
  "\<exists>a' diag. ride_stat (\<lambda>_. Some 0x41ED) Some (sample_args (replicate 127 CHR ''a'')) = Inr (a', diag)
     \<and> Dir_Path_Too_Large \<in> set diag \<and> NUL \<notin> set (watch_path a') \<and> watch_path_len a' = 128
     \<and> (\<forall>s. length s < MAX_FILENAME_LEN \<longrightarrow> \<not> watch_matches (ride_rodata a' 1000) s)"
  using watch_dir_127_accepted [of "sample_args (replicate 127 CHR ''a'')" "\<lambda>_. Some 0x41ED" "0x41ED" Some
      "replicate 127 CHR ''a''" 1000] sample_args_ok [of "replicate 127 CHR ''a''"]
  by (simp add: stat_type_def)

section \<open>The command line\<close>

text \<open>Decimal numbers are read back by \<open>strtoll\<close>.\<close>

lemma digit_val_digit [simp]: "d < 10 \<Longrightarrow> digit_val (char_of (48 + d)) = d"
  by (simp add: digit_val_def Let_def of_char_of)

lemma scan_digits_append:
  "(\<forall>c\<in>set ds. digit_val c < b) \<Longrightarrow> scan_digits b acc (ds @ cs) = scan_digits b (scan_digits b acc ds) cs"
  by (induction ds arbitrary: acc) auto

lemma show_nat_digits: "\<forall>c\<in>set (show_nat n). digit_val c < 10"
  by (induction n rule: show_nat.induct) (subst show_nat.simps, auto)

lemma scan_show_nat: "scan_digits 10 0 (show_nat n) = n"
proof (induction n rule: show_nat.induct)
  case (1 n)
  then show ?case
    by (subst show_nat.simps) (auto simp: scan_digits_append show_nat_digits)
qed

lemma hd_show_nat: "0 < n \<Longrightarrow> \<exists>(d :: nat) ds. show_nat n = char_of (48 + d) # ds \<and> 0 < d \<and> d < 10"
proof (induction n rule: show_nat.induct)
  case (1 n)
  show ?case
  proof (cases "n < 10")
    case True
    with "1.prems" have "show_nat n = char_of (48 + n) # [] \<and> 0 < n \<and> n < 10"
      by (subst show_nat.simps) simp
    then show ?thesis by blast
  next
    case False
    then have "0 < n div 10" by (simp add: div_greater_zero_iff)
    with False "1.IH" obtain d :: nat and ds
      where "show_nat (n div 10) = char_of (48 + d) # ds" "0 < d" "d < 10"
      by blast
    with False have "show_nat n = char_of (48 + d) # ds @ [char_of (48 + n mod 10)]"
      by (subst show_nat.simps) simp
    with \<open>0 < d\<close> \<open>d < 10\<close> show ?thesis by blast
  qed
qed

lemma scan_prefix_decimal: "c \<noteq> CHR ''0'' \<Longrightarrow> scan_prefix (c # cs) = (10, c # cs)"
  by (cases cs rule: scan_prefix.cases) (auto split: list.splits)

lemma strtoll_show_nat:
  assumes "n < 2 ^ 63"
  shows "strtoll (show_nat n) = int n"
proof (cases "n = 0")
  case True
  have "show_nat 0 = ''0''" by code_simp
  with True show ?thesis
    by (simp add: strtoll_def c_isspace_def digit_val_def Let_def LLONG_MIN_def LLONG_MAX_def)
next
  case False
  then obtain d :: nat and ds where n: "show_nat n = char_of (48 + d) # ds" and d: "0 < d" "d < 10"
    using hd_show_nat by blast
  let ?c = "char_of (48 + d) :: char"
  have ne: "?c \<noteq> x" if "(of_char x :: nat) \<noteq> 48 + d" for x
    using that d by (auto simp: of_char_of)
  have "?c \<noteq> CHR ''0''" "?c \<noteq> CHR ''-''" "?c \<noteq> CHR ''+''" "\<not> c_isspace ?c"
    using d ne [of "CHR ''0''"] ne [of "CHR ''-''"] ne [of "CHR ''+''"] ne [of "CHR '' ''"]
      ne [of "CHR 0x09"] ne [of "CHR 0x0A"] ne [of "CHR 0x0B"] ne [of "CHR 0x0C"] ne [of "CHR 0x0D"]
    unfolding c_isspace_def insert_iff empty_iff by simp_all
  then show ?thesis
    using assms scan_show_nat [of n]
    by (simp add: strtoll_def n scan_prefix_decimal LLONG_MIN_def LLONG_MAX_def)
qed

text \<open>An operand: not empty and not starting with a dash.\<close>

definition is_operand :: "string \<Rightarrow> bool" where
  "is_operand p \<longleftrightarrow> p \<noteq> [] \<and> hd p \<noteq> CHR ''-''"

lemma getopt_next_operand:
  "is_operand p \<Longrightarrow> getopt_next spec (p # as) ops = getopt_next spec as (ops @ [p])"
proof -
  assume "is_operand p"
  then obtain c cs where "p = c # cs" "c \<noteq> CHR ''-''" by (cases p) (auto simp: is_operand_def)
  then show ?thesis by (cases cs) simp_all
qed

lemma show_nat_not_Nil [simp]: "show_nat n \<noteq> []"
  by (subst show_nat.simps) simp

lemma of_nat_word_0_64: "n < 2 ^ 64 \<Longrightarrow> (of_nat n :: u64) = 0 \<longleftrightarrow> n = 0"
  using of_nat_eq_64 [of n 0] by simp

lemma parse_env_options:
  assumes "n < 2 ^ 63" "m < 2 ^ 63" "is_operand p" "NUL \<notin> set p"
  shows "parse_env (cli_args_init nprocs) [prog, ''-t'', show_nat n, ''-c'', show_nat m, p] =
     (if 1 \<le> n \<and> n \<le> 20 \<and> 1 \<le> m \<and> m \<le> 256
      then Inr ((cli_args_init nprocs)\<lparr>threads := of_nat n, io_concurrency := of_nat m,
                  watch_path := (strncpy (replicate 128 NUL) p 128)[127 := NUL]\<rparr>)
      else Inl EXIT_FAILURE)"
proof -
  have wn: "word_of_int (int n) = (of_nat n :: u64)" "word_of_int (int m) = (of_nat m :: u64)"
    by simp_all
  have gn: "of_nat n = (0 :: u64) \<or> MAX_THREADS < of_nat n \<longleftrightarrow> \<not> (1 \<le> n \<and> n \<le> 20)"
    using assms(1) of_nat_less_64 [of 20 n] by (auto simp: MAX_THREADS_def of_nat_word_0_64)
  have gm: "of_nat m = (0 :: u64) \<or> MAX_CONCURRENCY < of_nat m \<longleftrightarrow> \<not> (1 \<le> m \<and> m \<le> 256)"
    using assms(2) of_nat_less_64 [of 256 m] by (auto simp: MAX_CONCURRENCY_def of_nat_word_0_64)
  have g1: "getopt optstring (getopt_init [prog, ''-t'', show_nat n, ''-c'', show_nat m, p]) =
      (Some (Opt CHR ''t'' (Some (show_nat n))),
       \<lparr>nextchar = [], args = [''-c'', show_nat m, p], operands = []\<rparr>)"
    by (simp add: getopt_def getopt_init_def optstring_def)
  have g2: "getopt optstring \<lparr>nextchar = [], args = [''-c'', show_nat m, p], operands = []\<rparr> =
      (Some (Opt CHR ''c'' (Some (show_nat m))), \<lparr>nextchar = [], args = [p], operands = []\<rparr>)"
    by (simp add: getopt_def optstring_def)
  have g3: "getopt optstring \<lparr>nextchar = [], args = [p], operands = []\<rparr> =
      (None, \<lparr>nextchar = [], args = [], operands = [p]\<rparr>)"
    using assms(3) by (simp add: getopt_def getopt_next_operand del: getopt_next.simps(2))
  let ?a = "cli_args_init nprocs"
  have p1: "parse_opt ?a (Opt CHR ''t'' (Some (show_nat n))) =
      (if 1 \<le> n \<and> n \<le> 20 then Some (?a\<lparr>threads := of_nat n\<rparr>) else None)"
    using gn assms(1) by (simp add: strtoll_show_nat wn Let_def)
  have p2: "parse_opt a (Opt CHR ''c'' (Some (show_nat m))) =
      (if 1 \<le> m \<and> m \<le> 256 then Some (a\<lparr>io_concurrency := of_nat m\<rparr>) else None)" for a
    using gm assms(2) by (simp add: strtoll_show_nat wn Let_def)
  have l3: "parse_opts \<lparr>nextchar = [], args = [p], operands = []\<rparr> a =
      Inr (a, \<lparr>nextchar = [], args = [], operands = [p]\<rparr>)" for a
    by (subst parse_opts.simps) (simp add: g3)
  have l2: "parse_opts \<lparr>nextchar = [], args = [''-c'', show_nat m, p], operands = []\<rparr> a =
      (if 1 \<le> m \<and> m \<le> 256
       then Inr (a\<lparr>io_concurrency := of_nat m\<rparr>, \<lparr>nextchar = [], args = [], operands = [p]\<rparr>)
       else Inl EXIT_FAILURE)" for a
    by (subst parse_opts.simps) (simp add: g2 p2 l3 del: parse_opt.simps)
  have "parse_opts (getopt_init [prog, ''-t'', show_nat n, ''-c'', show_nat m, p]) ?a =
      (if 1 \<le> n \<and> n \<le> 20 \<and> 1 \<le> m \<and> m \<le> 256
       then Inr (?a\<lparr>threads := of_nat n, io_concurrency := of_nat m\<rparr>,
                 \<lparr>nextchar = [], args = [], operands = [p]\<rparr>)
       else Inl EXIT_FAILURE)"
    by (subst parse_opts.simps) (simp add: g1 p1 l2 del: parse_opt.simps)
  then show ?thesis
    by (simp add: parse_env_def MAX_FILENAME_LEN_def cli_args_init_def)
qed

text \<open>
  C20.  \<open>ride -t N -c M PATH\<close>: the arguments are taken over exactly when \<open>N\<close> lies between 1 and 20 and
  \<open>M\<close> between 1 and 256, with the path terminated and cut to 127 characters; any other numbers make
  \<open>parse_env\<close> fail.
\<close>

theorem parse_env_threads_concurrency:
  assumes "n < 2 ^ 63" "m < 2 ^ 63" "is_operand p" "NUL \<notin> set p"
  shows "parse_env (cli_args_init nprocs) [prog, ''-t'', show_nat n, ''-c'', show_nat m, p] =
     (if 1 \<le> n \<and> n \<le> 20 \<and> 1 \<le> m \<and> m \<le> 256
      then Inr ((cli_args_init nprocs)\<lparr>threads := of_nat n, io_concurrency := of_nat m,
                  watch_path := (strncpy (replicate 128 NUL) p 128)[127 := NUL]\<rparr>)
      else Inl EXIT_FAILURE)"
  using parse_env_options [OF assms] .

theorem parse_env_threads_concurrency_witness:
  "parse_env (cli_args_init 8) [''ride'', ''-t'', show_nat 4, ''-c'', show_nat 64, ''/etc''] =
     Inr ((cli_args_init 8)\<lparr>threads := 4, io_concurrency := 64,
            watch_path := (strncpy (replicate 128 NUL) ''/etc'' 128)[127 := NUL]\<rparr>)"
  using parse_env_threads_concurrency [of 4 64 "''/etc''" 8 "''ride''"]
  by (simp add: is_operand_def)

text \<open>
  C21.  Whatever the command line, arguments that \<open>parse_env\<close> accepts have terminated strings in buffers
  of the declared size and between 1 and 256 tasks per processor thread, and the number of threads
  is the default or lies between 1 and 20.
\<close>

theorem parse_env_well_formed:
  assumes "parse_env (cli_args_init nprocs) argv = Inr a"
  shows "args_ok a \<and> (threads a = DEFAULT_THREADS nprocs \<or> threads_ok a)"
  using assms by (rule parse_env_ok)

theorem parse_env_well_formed_witness:
  "\<exists>a. parse_env (cli_args_init 8) [''ride'', ''-v'', ''/etc''] = Inr a \<and> args_ok a"
proof -
  let ?st1 = "\<lparr>nextchar = [], args = [''/etc''], operands = []\<rparr>"
  let ?st2 = "\<lparr>nextchar = [], args = [], operands = [''/etc'']\<rparr>"
  have "getopt optstring (getopt_init [''ride'', ''-v'', ''/etc'']) = (Some (Opt CHR ''v'' None), ?st1)"
    and "getopt optstring ?st1 = (None, ?st2)"
    by (simp_all add: getopt_def getopt_init_def optstring_def)
  moreover from this have "parse_opts ?st1 a = Inr (a, ?st2)" for a
    by (subst parse_opts.simps) simp
  ultimately have "\<exists>a. parse_opts (getopt_init [''ride'', ''-v'', ''/etc'']) (cli_args_init 8) = Inr (a, ?st2)"
    by (subst parse_opts.simps) simp
  then have "\<exists>a. parse_env (cli_args_init 8) [''ride'', ''-v'', ''/etc''] = Inr a"
    by (auto simp: parse_env_def)
  then show ?thesis using parse_env_well_formed by blast
qed

text \<open>
  On a machine with one processor and without \<open>-t\<close> the program runs with no processor thread
  at all: the default halves the number of processors, and nothing checks the default.
\<close>

theorem single_processor_no_threads:
  assumes "is_operand p"
  shows "\<exists>a. parse_env (cli_args_init 1) [prog, p] = Inr a \<and> threads a = 0"
proof -
  have "getopt optstring (getopt_init [prog, p]) = (None, \<lparr>nextchar = [], args = [], operands = [p]\<rparr>)"
    using assms by (simp add: getopt_def getopt_init_def getopt_next_operand del: getopt_next.simps(2))
  then have "parse_opts (getopt_init [prog, p]) (cli_args_init 1) =
      Inr (cli_args_init 1, \<lparr>nextchar = [], args = [], operands = [p]\<rparr>)"
    by (subst parse_opts.simps) simp
  then show ?thesis by (simp add: parse_env_def cli_args_init_def DEFAULT_THREADS_def)
qed

theorem single_processor_no_threads_witness:
  "\<exists>a. parse_env (cli_args_init 1) [''ride'', ''/etc''] = Inr a \<and> threads a = 0"
  using single_processor_no_threads [of "''/etc''" "''ride''"] by (simp add: is_operand_def)

end
