(* ===== verification/Event_Queue.thy ===== *)
theory Event_Queue
  imports Ride_Types
begin

text \<open>
  The queue between the thread that drains the BPF ring buffer and the processor threads,
  \<open>queue.c\<close>: a ring of \<open>QUEUE_SIZE\<close> events under one mutex.  Every operation holds the mutex from its
  first to its last access of the ring, so each is one atomic step here; the operations of several
  threads interleave as a sequence of such steps.  Logging is left out.
\<close>

section \<open>Definitions\<close>

definition QUEUE_SIZE :: int where "QUEUE_SIZE = 8192"

record queue =
  q_events :: "nat \<Rightarrow> event"
  q_head :: int
  q_tail :: int

definition queue_init :: "queue \<Rightarrow> queue" where
  "queue_init q = q\<lparr>q_head := 0, q_tail := 0\<rparr>"

text \<open>Returns 1 when the ring is full; \<open>memcpy\<close> copies the whole event into the head slot.\<close>

definition queue_add :: "event \<Rightarrow> queue \<Rightarrow> nat \<times> queue" where
  "queue_add e q =
     (if c_rem (q_head q + 1) QUEUE_SIZE = q_tail q then (1, q)
      else (0, q\<lparr>q_events := (q_events q)(nat (q_head q) := e),
                 q_head := c_rem (q_head q + 1) QUEUE_SIZE\<rparr>))"

text \<open>
  Takes one unit from the caller's eventfd first.  The results are the return value, the event
  buffer of the caller, the queue and the descriptor table.
\<close>

definition queue_consume_try ::
  "fdtable \<Rightarrow> i32 \<Rightarrow> event \<Rightarrow> queue \<Rightarrow> (nat \<times> event \<times> queue \<times> fdtable) res" where
  "queue_consume_try t efd event q =
     (case eventfd_read t efd of
        Inl errno \<Rightarrow> if errno \<noteq> EAGAIN then Inl (Exit 1) else Inr (EAGAIN, event, q, t)
      | Inr (_, t') \<Rightarrow>
          (if q_head q = q_tail q then Inr (1, event, q, t')
           else Inr (0, q_events q (nat (q_tail q)),
                     q\<lparr>q_tail := c_rem (q_tail q + 1) QUEUE_SIZE\<rparr>, t')))"

section \<open>The ring as a bounded FIFO\<close>

definition queue_ok :: "queue \<Rightarrow> bool" where
  "queue_ok q \<longleftrightarrow> 0 \<le> q_head q \<and> q_head q < QUEUE_SIZE \<and> 0 \<le> q_tail q \<and> q_tail q < QUEUE_SIZE"

definition queue_count :: "queue \<Rightarrow> nat" where
  "queue_count q = nat ((q_head q - q_tail q) mod QUEUE_SIZE)"

definition queue_slot :: "queue \<Rightarrow> nat \<Rightarrow> nat" where
  "queue_slot q i = nat ((q_tail q + int i) mod QUEUE_SIZE)"

text \<open>The abstraction: the events in the ring, oldest first.\<close>

definition queue_contents :: "queue \<Rightarrow> event list" where
  "queue_contents q = ring_list (q_events q) (queue_slot q) (queue_count q)"

lemmas queue_defs = QUEUE_SIZE_def queue_ok_def queue_count_def queue_slot_def

lemma queue_count_le: "queue_count q \<le> 8191"
proof -
  have "(q_head q - q_tail q) mod 8192 < 8192" by simp
  then show ?thesis by (simp add: queue_defs)
qed

lemma length_queue_contents [simp]: "length (queue_contents q) = queue_count q"
  by (simp add: queue_contents_def)

lemma queue_count_eq:
  "queue_ok q \<Longrightarrow> int (queue_count q) =
     (if q_tail q \<le> q_head q then q_head q - q_tail q else q_head q - q_tail q + 8192)"
  by (auto simp: queue_defs wrap_diff)

lemma c_rem_succ: "0 \<le> a \<Longrightarrow> a < 8192 \<Longrightarrow> c_rem (a + 1) QUEUE_SIZE = (if a = 8191 then 0 else a + 1)"
  by (simp add: QUEUE_SIZE_def)

lemma queue_slot_eq:
  "queue_ok q \<Longrightarrow> i \<le> 8192 \<Longrightarrow>
     int (queue_slot q i) = (if q_tail q + int i < 8192 then q_tail q + int i else q_tail q + int i - 8192)"
  by (auto simp: queue_defs wrap_add)

lemma queue_full_iff:
  "queue_ok q \<Longrightarrow> c_rem (q_head q + 1) QUEUE_SIZE = q_tail q \<longleftrightarrow> queue_count q = 8191"
  using queue_count_eq [of q] c_rem_succ [of "q_head q"]
  by (auto simp: queue_ok_def QUEUE_SIZE_def split: if_splits)

lemma queue_empty_iff: "queue_ok q \<Longrightarrow> q_head q = q_tail q \<longleftrightarrow> queue_count q = 0"
  using queue_count_eq [of q] by (auto simp: queue_ok_def QUEUE_SIZE_def split: if_splits)

lemma queue_head_slot: "queue_ok q \<Longrightarrow> queue_slot q (queue_count q) = nat (q_head q)"
  by (simp add: queue_defs mod_add_right_eq)

lemma queue_slot_distinct:
  assumes "queue_ok q" "i < queue_count q"
  shows "queue_slot q i \<noteq> queue_slot q (queue_count q)"
  using assms queue_slot_eq [OF assms(1), of i] queue_slot_eq [OF assms(1), of "queue_count q"]
    queue_count_le [of q]
  by (auto split: if_splits)

lemma queue_add_spec:
  assumes "queue_ok q"
  shows "queue_add e q = (if queue_count q = 8191 then (1, q) else (0, snd (queue_add e q)))"
    and "queue_ok (snd (queue_add e q))"
    and "queue_contents (snd (queue_add e q)) =
           (if queue_count q = 8191 then queue_contents q else queue_contents q @ [e])"
proof -
  let ?q' = "snd (queue_add e q)"
  note full = queue_full_iff [OF assms]
  show "queue_add e q = (if queue_count q = 8191 then (1, q) else (0, ?q'))"
    using full by (simp add: queue_add_def)
  show ok': "queue_ok ?q'"
    using assms by (auto simp: queue_add_def queue_ok_def QUEUE_SIZE_def)
  show "queue_contents ?q' = (if queue_count q = 8191 then queue_contents q else queue_contents q @ [e])"
  proof (cases "queue_count q = 8191")
    case True
    with full show ?thesis by (simp add: queue_add_def)
  next
    case False
    then have q': "?q' = q\<lparr>q_events := (q_events q)(nat (q_head q) := e),
                           q_head := (q_head q + 1) mod QUEUE_SIZE\<rparr>"
      using full assms by (simp add: queue_add_def queue_ok_def QUEUE_SIZE_def)
    have "queue_count ?q' = Suc (queue_count q)"
      using False queue_count_le [of q] ok' queue_count_eq [of ?q'] queue_count_eq [OF assms] assms
        c_rem_succ [of "q_head q"]
      by (auto simp: q' queue_ok_def QUEUE_SIZE_def split: if_splits)
    moreover have "queue_slot ?q' = queue_slot q" by (simp add: q' queue_slot_def fun_eq_iff)
    ultimately show ?thesis
      using ring_list_snoc [of "queue_count q" "queue_slot q" "q_events q" e] False
        queue_slot_distinct [OF assms] queue_head_slot [OF assms]
      by (simp add: queue_contents_def q')
  qed
qed

lemma queue_pop_spec:
  assumes "queue_ok q" "queue_count q \<noteq> 0"
  defines "q' \<equiv> q\<lparr>q_tail := c_rem (q_tail q + 1) QUEUE_SIZE\<rparr>"
  shows "queue_ok q'" and "queue_contents q = q_events q (nat (q_tail q)) # queue_contents q'"
proof -
  have q': "q' = q\<lparr>q_tail := (q_tail q + 1) mod QUEUE_SIZE\<rparr>"
    using assms(1) by (simp add: q'_def queue_ok_def QUEUE_SIZE_def)
  show ok': "queue_ok q'" using assms(1) by (simp add: q' queue_ok_def QUEUE_SIZE_def)
  have n: "queue_count q = Suc (queue_count q')"
    using assms(1,2) queue_count_eq [OF ok'] queue_count_eq [OF assms(1)] c_rem_succ [of "q_tail q"]
    by (auto simp: q' queue_ok_def QUEUE_SIZE_def split: if_splits)
  have "(q_tail q + (int i + 1)) mod 8192 = ((q_tail q + 1) mod 8192 + int i) mod 8192" for i
    by (simp add: mod_simps add.assoc add.commute [of 1])
  then have s: "queue_slot q (Suc i) = queue_slot q' i" for i
    by (simp add: q' queue_slot_def QUEUE_SIZE_def add.commute)
  have "queue_slot q 0 = nat (q_tail q)"
    using assms(1) by (simp add: queue_slot_def queue_ok_def)
  then show "queue_contents q = q_events q (nat (q_tail q)) # queue_contents q'"
    unfolding queue_contents_def n ring_list_Suc by (simp add: s q')
qed

text \<open>
  The two operations as a client of a channel sees them: \<open>queue_push\<close> is \<open>queue_add\<close>, and \<open>queue_pop\<close>
  is \<open>queue_consume_try\<close> on an eventfd that holds a unit.
\<close>

definition queue_push :: "event \<Rightarrow> queue \<Rightarrow> queue option" where
  "queue_push e q = (case queue_add e q of (r, q') \<Rightarrow> if r = 0 then Some q' else None)"

definition queue_pop :: "queue \<Rightarrow> (event \<times> queue) option" where
  "queue_pop q =
     (case queue_consume_try [0 \<mapsto> \<lparr>efd_count = 1, efd_semaphore = True\<rparr>] 0 event_zero q of
        Inl _ \<Rightarrow> None
      | Inr (r, e, q', _) \<Rightarrow> if r = 0 then Some (e, q') else None)"

lemma queue_push_eq:
  "queue_ok q \<Longrightarrow> queue_push e q = (if queue_count q = 8191 then None else Some (snd (queue_add e q)))"
  by (subst queue_push_def, subst queue_add_spec(1)) simp_all

lemma queue_pop_eq:
  "queue_ok q \<Longrightarrow> queue_pop q =
     (if queue_count q = 0 then None
      else Some (q_events q (nat (q_tail q)), q\<lparr>q_tail := c_rem (q_tail q + 1) QUEUE_SIZE\<rparr>))"
  by (simp add: queue_pop_def queue_consume_try_def eventfd_read_def queue_empty_iff)

interpretation event_fifo: bounded_fifo queue_ok queue_contents "\<lambda>_. 8191" queue_push queue_pop
proof unfold_locales
  fix q q' :: queue and e :: event
  assume ok: "queue_ok q"
  show "length (queue_contents q) \<le> 8191" by (simp add: queue_count_le)
  show "queue_push e q = None \<longleftrightarrow> length (queue_contents q) = 8191"
    using ok by (simp add: queue_push_eq)
  show "queue_push e q = Some q' \<Longrightarrow>
      queue_ok q' \<and> queue_contents q' = queue_contents q @ [e] \<and> (8191 :: nat) = 8191"
    using ok queue_add_spec [OF ok] by (auto simp: queue_push_eq split: if_splits)
  show "queue_pop q = None \<longleftrightarrow> queue_contents q = []"
    using ok by (simp add: queue_pop_eq queue_contents_def)
  show "queue_pop q = Some (e, q') \<Longrightarrow>
      queue_ok q' \<and> queue_contents q = e # queue_contents q' \<and> (8191 :: nat) = 8191"
    using ok queue_pop_spec [OF ok] by (auto simp: queue_pop_eq split: if_splits)
qed

lemma queue_init_ok [simp]: "queue_ok (queue_init q)" "queue_contents (queue_init q) = []"
  by (simp_all add: queue_init_def queue_defs queue_contents_def)

section \<open>Properties\<close>

text \<open>
  C6.  The queue neither loses, duplicates nor reorders an event it has accepted: for every
  interleaving of additions and removals by any number of threads, starting after \<open>queue_init\<close>, the
  events delivered are a prefix of the events accepted, in the same order, and at most 8191
  accepted events are still undelivered.
\<close>

theorem queue_fifo:
  assumes "fifo_run queue_push queue_pop ops (queue_init q) = (accepted, delivered, q')"
  shows "delivered = take (length delivered) accepted
    \<and> accepted = delivered @ queue_contents q' \<and> length accepted \<le> length delivered + 8191"
  using event_fifo.run_prefix [OF queue_init_ok assms] event_fifo.run_order [OF queue_init_ok(1) assms]
  by simp

definition sample_queue :: queue where
  "sample_queue = \<lparr>q_events = (\<lambda>_. event_zero), q_head = 5, q_tail = 7\<rparr>"

definition sample_event :: "i64 \<Rightarrow> event" where
  "sample_event n = event_zero\<lparr>ev_path_len := n\<rparr>"

theorem queue_fifo_witness:
  "\<exists>q'. fifo_run queue_push queue_pop [Enq (sample_event 1), Enq (sample_event 2), Deq] (queue_init sample_queue)
       = ([sample_event 1, sample_event 2], [sample_event 1], q')
     \<and> [sample_event 1, sample_event 2] = [sample_event 1] @ queue_contents q'"
proof -
  obtain q' where "fifo_run queue_push queue_pop [Enq (sample_event 1), Enq (sample_event 2), Deq]
      (queue_init sample_queue) = ([sample_event 1, sample_event 2], [sample_event 1], q')"
    by (simp add: queue_push_def queue_pop_def queue_add_def queue_consume_try_def eventfd_read_def
        queue_init_def sample_queue_def QUEUE_SIZE_def)
  then show ?thesis using queue_fifo by blast
qed

text \<open>
  \<open>queue_add\<close> implements insertion at the end of a list of at most 8191 events: a full queue is
  left as it is and 1 is returned, otherwise the event becomes the last one and 0 is returned; the
  indices stay in range.
\<close>

theorem queue_add_refines:
  assumes "queue_ok q"
  shows "\<exists>q'. queue_add e q = (if length (queue_contents q) = 8191 then 1 else 0, q') \<and> queue_ok q' \<and>
     (if length (queue_contents q) = 8191 then q' = q else queue_contents q' = queue_contents q @ [e])"
proof (intro exI conjI)
  let ?q' = "snd (queue_add e q)"
  note spec = queue_add_spec [OF assms, of e]
  show "queue_add e q = (if length (queue_contents q) = 8191 then 1 else 0, ?q')"
    using spec(1) by (cases "queue_count q = 8191") (auto simp: prod_eq_iff)
  show "queue_ok ?q'" by (rule spec(2))
  show "if length (queue_contents q) = 8191 then ?q' = q else queue_contents ?q' = queue_contents q @ [e]"
    using spec(1,3) by (cases "queue_count q = 8191") (auto simp: prod_eq_iff)
qed

theorem queue_add_refines_witness:
  "queue_ok (queue_init sample_queue) \<and>
   (\<exists>q'. queue_add (sample_event 1) (queue_init sample_queue) = (0, q') \<and> queue_ok q'
     \<and> queue_contents q' = [sample_event 1])"
  using queue_add_refines [OF queue_init_ok(1), of "sample_event 1" sample_queue] by auto

text \<open>
  \<open>queue_consume_try\<close>, on every branch: a failing read of the eventfd other than \<open>EAGAIN\<close> ends
  the program; \<open>EAGAIN\<close> leaves everything as it is; otherwise one unit is taken from the eventfd
  and the oldest event is removed and copied out, or, if there is none, 1 is returned and neither
  the queue nor the caller's buffer changes.
\<close>

theorem queue_consume_try_refines:
  assumes "queue_ok q"
  shows "\<exists>q'. queue_ok q' \<and> queue_contents q' = tl (queue_contents q) \<and>
    queue_consume_try t efd buf q =
      (case eventfd_read t efd of
         Inl errno \<Rightarrow> if errno = EAGAIN then Inr (EAGAIN, buf, q, t) else Inl (Exit 1)
       | Inr (v, t') \<Rightarrow>
           if queue_contents q = [] then Inr (1, buf, q, t')
           else Inr (0, hd (queue_contents q), q', t'))"
proof (cases "queue_count q = 0")
  case True
  with assms have "queue_contents q = []" by (simp add: queue_contents_def)
  with assms True queue_empty_iff [OF assms] show ?thesis
    by (auto simp: queue_consume_try_def split: sum.splits prod.splits intro!: exI [of _ q])
next
  case False
  note pop = queue_pop_spec [OF assms False]
  with assms False queue_empty_iff [OF assms] show ?thesis
    by (auto simp: queue_consume_try_def split: sum.splits prod.splits
        intro!: exI [of _ "q\<lparr>q_tail := c_rem (q_tail q + 1) QUEUE_SIZE\<rparr>"])
qed

theorem queue_consume_try_refines_witness:
  "\<exists>q'. queue_ok q' \<and> queue_contents q' = [] \<and>
     queue_consume_try [3 \<mapsto> \<lparr>efd_count = 2, efd_semaphore = True\<rparr>] 3 event_zero
        (snd (queue_add (sample_event 1) (queue_init sample_queue)))
      = Inr (0, sample_event 1, q', [3 \<mapsto> \<lparr>efd_count = 1, efd_semaphore = True\<rparr>])"
proof -
  let ?q = "snd (queue_add (sample_event 1) (queue_init sample_queue))"
  have c: "queue_count (queue_init sample_queue) = 0"
    using length_queue_contents [of "queue_init sample_queue"] by simp
  have q: "queue_ok ?q" "queue_contents ?q = [sample_event 1]"
    using queue_add_spec [OF queue_init_ok(1), of "sample_event 1" sample_queue] c by simp_all
  show ?thesis
    using queue_consume_try_refines [OF q(1), of "[3 \<mapsto> \<lparr>efd_count = 2, efd_semaphore = True\<rparr>]" 3 event_zero] q(2)
    by (simp add: eventfd_read_def)
qed

end
