(* ===== verification/Event_Feed.thy ===== *)
theory Event_Feed
  imports Event_Queue
begin

text \<open>
  How events reach the processors: the callback \<open>ride_ringbuf_handle\<close> of \<open>ride.c\<close> puts an event of the
  BPF ring buffer into the queue and notifies one processor through its eventfd, in turn; a notified
  processor takes the oldest event with \<open>queue_consume_try\<close>.  The two sides run in different threads.
\<close>

section \<open>Definitions\<close>

text \<open>
  \<open>fd_efds\<close> is the array \<open>queue_eventfd\<close>, \<open>fd_next\<close> the static variable \<open>efd_next\<close> of the callback, whose signed
  overflow is taken to wrap around.
\<close>

record feed =
  fd_queue :: queue
  fd_fds :: fdtable
  fd_efds :: "i32 list"
  fd_next :: i32

text \<open>The result of \<open>queue_add\<close> is dropped.  The remainder is taken on unsigned numbers.\<close>

definition ride_ringbuf_handle :: "event \<Rightarrow> feed \<Rightarrow> (nat \<times> feed) res" where
  "ride_ringbuf_handle e s =
     (let q = snd (queue_add e (fd_queue s)); n = of_nat (length (fd_efds s)) :: u32 in
      if n = 0 then Inl Div_Zero
      else case eventfd_write (fd_fds s) (fd_efds s ! unat (fd_next s mod n)) 1 of
             Inl _ \<Rightarrow> Inl (Exit 1)
           | Inr t \<Rightarrow> Inr (0, s\<lparr>fd_queue := q, fd_next := fd_next s + 1, fd_fds := t\<rparr>))"

text \<open>The events of one call of \<open>ring_buffer__poll\<close>.\<close>

fun handle_all :: "event list \<Rightarrow> feed \<Rightarrow> feed res" where
  "handle_all [] s = Inr s"
| "handle_all (e # es) s = bind_res (ride_ringbuf_handle e s) (\<lambda>(_, s'). handle_all es s')"

text \<open>The threads interleave: the callback runs, or a processor consumes from its own eventfd.\<close>

inductive feed_step :: "feed \<Rightarrow> feed \<Rightarrow> bool" where
  Handle: "ride_ringbuf_handle e s = Inr (r, s') \<Longrightarrow> feed_step s s'"
| Consume: "fd \<in> set (fd_efds s) \<Longrightarrow> queue_consume_try (fd_fds s) fd buf (fd_queue s) = Inr (r, e, q, t) \<Longrightarrow>
    feed_step s (s\<lparr>fd_queue := q, fd_fds := t\<rparr>)"

section \<open>Every queued event has a notification\<close>

definition units :: "fdtable \<Rightarrow> i32 \<Rightarrow> nat" where
  "units t fd = (case t fd of Some e \<Rightarrow> efd_count e | None \<Rightarrow> 0)"

definition tokens :: "feed \<Rightarrow> nat" where
  "tokens s = sum_list (map (units (fd_fds s)) (fd_efds s))"

definition feed_ok :: "feed \<Rightarrow> bool" where
  "feed_ok s \<longleftrightarrow> queue_ok (fd_queue s) \<and> distinct (fd_efds s)
     \<and> (\<forall>fd \<in> set (fd_efds s). \<exists>e. fd_fds s fd = Some e \<and> efd_semaphore e)
     \<and> length (queue_contents (fd_queue s)) \<le> tokens s"

text \<open>Changing one counter changes the sum by the same amount.\<close>

lemma sum_units_upd:
  assumes "distinct fds" "fd \<in> set fds"
  shows "sum_list (map (units (t(fd \<mapsto> e))) fds) + units t fd = sum_list (map (units t) fds) + efd_count e"
  using assms
proof (induction fds)
  case (Cons a fds)
  show ?case
  proof (cases "a = fd")
    case True
    then have "map (units (t(fd \<mapsto> e))) fds = map (units t) fds" using Cons.prems by (auto simp: units_def)
    then have "sum_list (map (units (t(fd \<mapsto> e))) fds) = sum_list (map (units t) fds)" by (simp only:)
    moreover have "units (t(fd \<mapsto> e)) a = efd_count e" using True by (simp add: units_def)
    ultimately show ?thesis using True by (simp del: fun_upd_apply)
  next
    case False
    then have "units (t(fd \<mapsto> e)) a = units t a" by (simp add: units_def)
    with False Cons show ?thesis by (simp del: fun_upd_apply)
  qed
qed simp

lemma write_units:
  assumes "eventfd_write t fd v = Inr t'"
  obtains e where "t fd = Some e" "t' = t(fd \<mapsto> e\<lparr>efd_count := efd_count e + v\<rparr>)"
  using assms by (auto simp: eventfd_write_def split: option.splits if_splits)

lemma read_units:
  assumes "eventfd_read t fd = Inr (v, t')" "t fd = Some e" "efd_semaphore e"
  shows "0 < efd_count e" "t' = t(fd \<mapsto> e\<lparr>efd_count := efd_count e - 1\<rparr>)"
  using assms by (auto simp: eventfd_read_def split: if_splits)

lemma handle_ok:
  assumes ok: "feed_ok s" and h: "ride_ringbuf_handle e s = Inr (r, s')" and n: "length (fd_efds s) < 2 ^ 32"
  shows "feed_ok s'" "fd_efds s' = fd_efds s"
proof -
  let ?n = "of_nat (length (fd_efds s)) :: u32"
  let ?fd = "fd_efds s ! unat (fd_next s mod ?n)"
  from h obtain t where nz: "?n \<noteq> 0" and w: "eventfd_write (fd_fds s) ?fd 1 = Inr t"
    and s': "s' = s\<lparr>fd_queue := snd (queue_add e (fd_queue s)), fd_next := fd_next s + 1, fd_fds := t\<rparr>"
    by (auto simp: ride_ringbuf_handle_def Let_def split: if_splits sum.splits)
  from w obtain x where x: "fd_fds s ?fd = Some x" and t: "t = (fd_fds s)(?fd \<mapsto> x\<lparr>efd_count := efd_count x + 1\<rparr>)"
    by (rule write_units)
  have "unat ?n = length (fd_efds s)" using n by (simp add: unat_of_nat)
  moreover from nz have "unat (fd_next s mod ?n) < unat ?n" by (simp add: unat_mod word_neq_0_conv word_less_nat_alt)
  ultimately have fd: "?fd \<in> set (fd_efds s)" by simp
  from ok have q: "queue_ok (fd_queue s)" by (simp add: feed_ok_def)
  from sum_units_upd [OF _ fd, of "fd_fds s" "x\<lparr>efd_count := efd_count x + 1\<rparr>"] ok x
  have "tokens s' = tokens s + 1" by (simp add: feed_ok_def tokens_def s' t units_def)
  moreover have "length (queue_contents (fd_queue s')) \<le> length (queue_contents (fd_queue s)) + 1"
    using queue_add_spec(3) [OF q, of e] by (simp add: s' del: length_queue_contents)
  ultimately show "feed_ok s'"
    using ok queue_add_spec(2) [OF q, of e] x by (auto simp: feed_ok_def s' t)
  show "fd_efds s' = fd_efds s" by (simp add: s')
qed

lemma consume_ok:
  assumes ok: "feed_ok s" and fd: "fd \<in> set (fd_efds s)"
    and c: "queue_consume_try (fd_fds s) fd buf (fd_queue s) = Inr (r, e, q, t)"
  shows "feed_ok (s\<lparr>fd_queue := q, fd_fds := t\<rparr>)"
proof -
  from ok fd obtain x where x: "fd_fds s fd = Some x" "efd_semaphore x" by (auto simp: feed_ok_def)
  from ok have qok: "queue_ok (fd_queue s)" by (simp add: feed_ok_def)
  show ?thesis
  proof (cases "eventfd_read (fd_fds s) fd")
    case (Inl err)
    with c have "q = fd_queue s" "t = fd_fds s" by (auto simp: queue_consume_try_def split: if_splits)
    with ok show ?thesis by simp
  next
    case (Inr vt)
    then obtain v t' where v: "eventfd_read (fd_fds s) fd = Inr (v, t')" by (cases vt) simp
    note t' = read_units [OF v x]
    from c v have t: "t = t'" and q: "q = (if q_head (fd_queue s) = q_tail (fd_queue s) then fd_queue s
        else (fd_queue s)\<lparr>q_tail := c_rem (q_tail (fd_queue s) + 1) QUEUE_SIZE\<rparr>)"
      by (auto simp: queue_consume_try_def split: if_splits)
    from sum_units_upd [OF _ fd, of "fd_fds s" "x\<lparr>efd_count := efd_count x - 1\<rparr>"] ok x t'
    have tok: "tokens (s\<lparr>fd_queue := q, fd_fds := t\<rparr>) + 1 = tokens s" by (simp add: feed_ok_def tokens_def t units_def)
    have "queue_ok q \<and> length (queue_contents q) + 1 \<le> tokens s"
    proof (cases "queue_count (fd_queue s) = 0")
      case True
      with q queue_empty_iff [OF qok] tok qok show ?thesis by simp
    next
      case False
      note pop = queue_pop_spec [OF qok False]
      have "length (queue_contents (fd_queue s)) = length (queue_contents q) + 1"
        using q queue_empty_iff [OF qok] False pop(2) by (simp del: length_queue_contents)
      moreover have "length (queue_contents (fd_queue s)) \<le> tokens s" using ok unfolding feed_ok_def by blast
      moreover have "queue_ok q" using pop(1) q queue_empty_iff [OF qok] False by simp
      ultimately show ?thesis by linarith
    qed
    moreover have "\<exists>y. t g = Some y \<and> efd_semaphore y" if "g \<in> set (fd_efds s)" for g
      using ok x t' t that by (auto simp: feed_ok_def)
    moreover have "distinct (fd_efds s)" using ok by (simp add: feed_ok_def)
    ultimately show ?thesis using tok by (simp add: feed_ok_def)
  qed
qed

lemma feed_steps_ok:
  "feed_step\<^sup>*\<^sup>* s s' \<Longrightarrow> feed_ok s \<Longrightarrow> length (fd_efds s) < 2 ^ 32 \<Longrightarrow> feed_ok s' \<and> fd_efds s' = fd_efds s"
proof (induction rule: rtranclp_induct)
  case (step s' s'')
  then have ok: "feed_ok s'" and efds: "fd_efds s' = fd_efds s" "length (fd_efds s') < 2 ^ 32" by simp_all
  from step(2) show ?case
  proof cases
    case (Handle e r)
    from handle_ok [OF ok this efds(2)] efds(1) show ?thesis by simp
  next
    case (Consume fd buf r e q t)
    from consume_ok [OF ok Consume(2,3)] Consume(1) efds(1) show ?thesis by simp
  qed
qed simp

text \<open>As long as the queue holds events, some eventfd is readable, and reading it delivers.\<close>

lemma feed_delivers:
  assumes "feed_step\<^sup>*\<^sup>* s s'" "feed_ok s" "length (fd_efds s) < 2 ^ 32" "queue_contents (fd_queue s') \<noteq> []"
  shows "\<exists>fd \<in> set (fd_efds s). \<exists>q t. queue_consume_try (fd_fds s') fd buf (fd_queue s') =
      Inr (0, hd (queue_contents (fd_queue s')), q, t) \<and> queue_contents q = tl (queue_contents (fd_queue s'))"
proof -
  from feed_steps_ok [OF assms(1-3)] have ok: "feed_ok s'" and efds: "fd_efds s' = fd_efds s" by simp_all
  then have qok: "queue_ok (fd_queue s')" by (simp add: feed_ok_def)
  from assms(4) have cnt: "queue_count (fd_queue s') \<noteq> 0"
    using length_queue_contents [of "fd_queue s'"] by (metis length_0_conv)
  with ok have "tokens s' \<noteq> 0" by (simp add: feed_ok_def)
  then obtain fd where fd: "fd \<in> set (fd_efds s')" "units (fd_fds s') fd \<noteq> 0"
    by (auto simp: tokens_def)
  with ok obtain x where x: "fd_fds s' fd = Some x" "efd_semaphore x" "efd_count x \<noteq> 0"
    by (auto simp: feed_ok_def units_def)
  let ?q = "(fd_queue s')\<lparr>q_tail := c_rem (q_tail (fd_queue s') + 1) QUEUE_SIZE\<rparr>"
  let ?t = "(fd_fds s')(fd \<mapsto> x\<lparr>efd_count := efd_count x - 1\<rparr>)"
  have hd: "hd (queue_contents (fd_queue s')) = q_events (fd_queue s') (nat (q_tail (fd_queue s')))"
    "queue_contents ?q = tl (queue_contents (fd_queue s'))"
    by (simp_all only: queue_pop_spec(2) [OF qok cnt] list.sel)
  have "q_head (fd_queue s') \<noteq> q_tail (fd_queue s')" using queue_empty_iff [OF qok] cnt by simp
  then have "queue_consume_try (fd_fds s') fd buf (fd_queue s') = Inr (0, hd (queue_contents (fd_queue s')), ?q, ?t)"
    unfolding hd(1) using x by (simp add: queue_consume_try_def eventfd_read_def)
  with fd(1) hd(2) show ?thesis unfolding efds by (intro bexI [of _ fd] exI [of _ ?q] exI [of _ ?t] conjI)
qed

section \<open>Clients of the feed\<close>

text \<open>The events that left the queue.\<close>

definition popped :: "queue \<Rightarrow> queue \<Rightarrow> event list" where
  "popped q q' = take (length (queue_contents q) - length (queue_contents q')) (queue_contents q)"

text \<open>What taking from the queue does to its contents.\<close>

lemma consume_contents:
  assumes "queue_consume_try t fd event_zero q = Inr (r, e, q', t')" "queue_ok q"
  shows "queue_contents q = popped q q' @ queue_contents q'" "e \<in> insert event_zero (set (popped q q'))"
    "q_events q' = q_events q"
proof -
  have "queue_contents q = popped q q' @ queue_contents q' \<and> e \<in> insert event_zero (set (popped q q'))
      \<and> q_events q' = q_events q"
  proof (cases "q' = q \<and> e = event_zero")
    case False
    with assms(1) have "q_head q \<noteq> q_tail q" "e = q_events q (nat (q_tail q))"
        and q': "q' = q\<lparr>q_tail := c_rem (q_tail q + 1) QUEUE_SIZE\<rparr>"
      by (auto simp: queue_consume_try_def split: sum.splits if_splits)
    with queue_pop_spec(2) [OF assms(2)] queue_empty_iff [OF assms(2)] have c: "queue_contents q = e # queue_contents q'" by simp
    then have "popped q q' = [e]" unfolding popped_def c by simp
    with c q' show ?thesis by simp
  qed (simp add: popped_def)
  then show "queue_contents q = popped q q' @ queue_contents q'" "e \<in> insert event_zero (set (popped q q'))"
    "q_events q' = q_events q" by simp_all
qed

text \<open>
  What the feed needs of a thread that uses it: a step leaves the queue and the eventfd objects alone,
  or it is one call of \<open>queue_consume_try\<close> on the eventfd of the thread.
\<close>

locale feed_client =
  fixes ok :: "'t \<Rightarrow> bool" and step :: "'t \<Rightarrow> 't \<Rightarrow> bool"
    and queue_of :: "'t \<Rightarrow> queue" and fds_of :: "'t \<Rightarrow> fdtable" and efd_of :: "'t \<Rightarrow> i32"
  assumes step_shared: "ok t \<Longrightarrow> step t t' \<Longrightarrow>
    queue_of t' = queue_of t \<and> fds_of t' = fds_of t \<or>
    (\<exists>r e. queue_consume_try (fds_of t) (efd_of t) event_zero (queue_of t) = Inr (r, e, queue_of t', fds_of t'))"
begin

lemma client_step:
  assumes "ok t" "step t t'" "queue_of t = fd_queue f" "fds_of t = fd_fds f" "efd_of t \<in> set (fd_efds f)" "feed_ok f"
  defines "f' \<equiv> f\<lparr>fd_queue := queue_of t', fd_fds := fds_of t'\<rparr>"
  shows "feed_step\<^sup>=\<^sup>= f f'" "feed_ok f'" "q_events (fd_queue f') = q_events (fd_queue f)"
    "queue_contents (fd_queue f) = popped (fd_queue f) (fd_queue f') @ queue_contents (fd_queue f')"
proof -
  from step_shared [OF assms(1,2)] assms(3,4) consider (same) "f' = f"
    | (consume) r e where "queue_consume_try (fd_fds f) (efd_of t) event_zero (fd_queue f) = Inr (r, e, fd_queue f', fd_fds f')"
    by (auto simp: f'_def)
  then have "feed_step\<^sup>=\<^sup>= f f' \<and> feed_ok f' \<and> q_events (fd_queue f') = q_events (fd_queue f)
      \<and> queue_contents (fd_queue f) = popped (fd_queue f) (fd_queue f') @ queue_contents (fd_queue f')"
  proof cases
    case same
    with assms(6) show ?thesis by (simp add: popped_def)
  next
    case consume
    from assms(6) have "queue_ok (fd_queue f)" by (simp add: feed_ok_def)
    note c = consume_contents [OF consume this]
    have "feed_step f f'" "feed_ok f'"
      using feed_step.Consume [OF assms(5) consume] consume_ok [OF assms(6,5) consume] by (simp_all add: f'_def)
    with c(1,3) show ?thesis by simp
  qed
  then show "feed_step\<^sup>=\<^sup>= f f'" "feed_ok f'" "q_events (fd_queue f') = q_events (fd_queue f)"
    "queue_contents (fd_queue f) = popped (fd_queue f) (fd_queue f') @ queue_contents (fd_queue f')" by simp_all
qed

end

text \<open>Two processors, nothing queued.\<close>

definition sample_feed :: feed where
  "sample_feed =
     \<lparr>fd_queue = queue_init sample_queue,
      fd_fds = [3 \<mapsto> \<lparr>efd_count = 0, efd_semaphore = True\<rparr>, 4 \<mapsto> \<lparr>efd_count = 0, efd_semaphore = True\<rparr>],
      fd_efds = [3, 4], fd_next = 0\<rparr>"

lemma sample_feed_ok: "feed_ok sample_feed"
  by (simp add: feed_ok_def sample_feed_def del: length_queue_contents)

lemma sample_feed_handle:
  "ride_ringbuf_handle e sample_feed = Inr (0, sample_feed\<lparr>fd_queue := snd (queue_add e (queue_init sample_queue)), fd_next := 1,
     fd_fds := [3 \<mapsto> \<lparr>efd_count = 1, efd_semaphore = True\<rparr>, 4 \<mapsto> \<lparr>efd_count = 0, efd_semaphore = True\<rparr>]\<rparr>)"
  by (auto simp: ride_ringbuf_handle_def sample_feed_def eventfd_write_def fun_eq_iff)

section \<open>Events are handed out in turn\<close>

lemma card_less_Suc_split: "card {k. k < Suc m \<and> P k} = (if P 0 then 1 else 0) + card {k. k < m \<and> P (Suc k)}"
proof -
  have "{k. k < Suc m \<and> P k} = (if P 0 then {0} else {}) \<union> Suc ` {k. k < m \<and> P (Suc k)}"
    by (auto simp: image_iff less_Suc_eq_0_disj)
  then show ?thesis by (simp add: card_image card_insert_if image_iff)
qed

lemma handle_units:
  assumes h: "ride_ringbuf_handle e s = Inr (r, s')" and n: "length (fd_efds s) < 2 ^ 32" and d: "distinct (fd_efds s)"
    and i: "i < length (fd_efds s)"
  shows "units (fd_fds s') (fd_efds s ! i) =
      (if unat (fd_next s) mod length (fd_efds s) = i then 1 else 0) + units (fd_fds s) (fd_efds s ! i)"
    and "fd_efds s' = fd_efds s" "fd_next s' = fd_next s + 1"
proof -
  let ?n = "of_nat (length (fd_efds s)) :: u32"
  have un: "unat ?n = length (fd_efds s)" using n by (simp add: unat_of_nat)
  from h obtain t where w: "eventfd_write (fd_fds s) (fd_efds s ! unat (fd_next s mod ?n)) 1 = Inr t"
    and s': "s' = s\<lparr>fd_queue := snd (queue_add e (fd_queue s)), fd_next := fd_next s + 1, fd_fds := t\<rparr>"
    by (auto simp: ride_ringbuf_handle_def Let_def split: if_splits sum.splits)
  have j: "unat (fd_next s mod ?n) = unat (fd_next s) mod length (fd_efds s)" by (simp add: unat_mod un)
  moreover have "unat (fd_next s) mod length (fd_efds s) < length (fd_efds s)" using i by (intro mod_less_divisor) linarith
  ultimately have "fd_efds s ! i = fd_efds s ! unat (fd_next s mod ?n) \<longleftrightarrow> i = unat (fd_next s) mod length (fd_efds s)"
    using d i by (simp add: nth_eq_iff_index_eq)
  with w show "units (fd_fds s') (fd_efds s ! i) =
      (if unat (fd_next s) mod length (fd_efds s) = i then 1 else 0) + units (fd_fds s) (fd_efds s ! i)"
    by (auto simp: s' units_def elim!: write_units split: if_splits)
  show "fd_efds s' = fd_efds s" "fd_next s' = fd_next s + 1" by (simp_all add: s')
qed

text \<open>
  C28.  Events are distributed in turn: of any number of events handled (before the counter wraps
  around), the \<open>k\<close>-th one notifies the processor with the number \<open>k\<close> modulo the number of
  processors, counting from the current value of the counter, and no other processor.
\<close>

theorem round_robin:
  assumes "handle_all es s = Inr s'" "distinct (fd_efds s)" "length (fd_efds s) < 2 ^ 32"
    "unat (fd_next s) + length es < 2 ^ 32" "i < length (fd_efds s)"
  shows "units (fd_fds s') (fd_efds s ! i) =
    card {k. k < length es \<and> (unat (fd_next s) + k) mod length (fd_efds s) = i} + units (fd_fds s) (fd_efds s ! i)"
  using assms
proof (induction es arbitrary: s)
  case (Cons e es)
  from Cons.prems(1) obtain r s1 where h: "ride_ringbuf_handle e s = Inr (r, s1)" and rest: "handle_all es s1 = Inr s'"
    by auto
  note u = handle_units [OF h Cons.prems(3,2,5)]
  have "unat (fd_next s + 1) = unat (fd_next s) + 1"
    using Cons.prems(4) by (simp add: unat_word_ariths)
  then have "unat (fd_next s1) + length es < 2 ^ 32" "unat (fd_next s1) = unat (fd_next s) + 1"
    using u(3) Cons.prems(4) by simp_all
  with Cons.IH [OF rest] Cons.prems u show ?case by (simp add: card_less_Suc_split add.assoc)
qed simp

theorem round_robin_witness:
  "\<exists>s'. handle_all [sample_event 1] sample_feed = Inr s' \<and> units (fd_fds s') 3 = 1 \<and> units (fd_fds s') 4 = 0"
proof -
  obtain s' where run: "handle_all [sample_event 1] sample_feed = Inr s'" using sample_feed_handle by simp
  have c: "{k :: nat. k = 0 \<and> k mod Suc (Suc 0) = 0} = {0}" "{k :: nat. k = 0 \<and> k mod Suc (Suc 0) = Suc 0} = {}"
    by auto
  have f: "fd_efds sample_feed = [3, 4]" "unat (fd_next sample_feed) = 0" "units (fd_fds sample_feed) 3 = 0"
      "units (fd_fds sample_feed) 4 = 0" by (simp_all add: sample_feed_def units_def)
  from round_robin [OF run, of 0, unfolded f] round_robin [OF run, of 1, unfolded f] c
  have "units (fd_fds s') 3 = 1 \<and> units (fd_fds s') 4 = 0" by (simp add: f(3,4))
  with run show ?thesis by blast
qed

end
