(* ===== verification/Hasher.thy ===== *)
theory Hasher
  imports Ride_Prelude
begin

text \<open>
  The wrapper \<open>hasher.c\<close> around the BLAKE3 library.  The library is a parameter: a record of its
  three operations on a hash state \<open>'h\<close>.
\<close>

section \<open>Definitions\<close>

record 'h blake3 =
  b3_init :: 'h
  b3_update :: "'h \<Rightarrow> u8 list \<Rightarrow> 'h"
  b3_finalize :: "'h \<Rightarrow> nat \<Rightarrow> u8 list"

text \<open>\<open>BLAKE3_OUT_LEN\<close>\<close>

definition HASH_LEN :: nat where "HASH_LEN = 32"

record 'h hasher =
  blake :: 'h

definition hasher_init :: "'h blake3 \<Rightarrow> 'h hasher \<Rightarrow> 'h hasher" where
  "hasher_init B hs = hs\<lparr>blake := b3_init B\<rparr>"

definition hasher_update :: "'h blake3 \<Rightarrow> 'h hasher \<Rightarrow> nat \<Rightarrow> u8 list \<Rightarrow> 'h hasher" where
  "hasher_update B hs sz buf = hs\<lparr>blake := b3_update B (blake hs) (take sz buf)\<rparr>"

text \<open>The size argument is ignored.\<close>

definition hasher_finalize :: "'h blake3 \<Rightarrow> 'h hasher \<Rightarrow> nat \<Rightarrow> u8 list" where
  "hasher_finalize B hs sz = b3_finalize B (blake hs) HASH_LEN"

section \<open>What BLAKE3 documents\<close>

text \<open>
  The digest depends only on the concatenation of the inputs, however they are cut into updates,
  and has the requested length.
\<close>

definition blake3_streaming :: "'h blake3 \<Rightarrow> bool" where
  "blake3_streaming B \<longleftrightarrow>
     (\<forall>cs n. b3_finalize B (foldl (b3_update B) (b3_init B) cs) n =
             b3_finalize B (b3_update B (b3_init B) (concat cs)) n) \<and>
     (\<forall>h n. length (b3_finalize B h n) = n)"

definition blake3_hash :: "'h blake3 \<Rightarrow> u8 list \<Rightarrow> u8 list" where
  "blake3_hash B bytes = b3_finalize B (b3_update B (b3_init B) bytes) HASH_LEN"

text \<open>A library of this kind: the state is the input so far, the digest repeats its checksum.\<close>

definition sum_hash :: "u8 list blake3" where
  "sum_hash = \<lparr>b3_init = [], b3_update = (@), b3_finalize = (\<lambda>h n. replicate n (sum_list h))\<rparr>"

lemma sum_hash_streaming: "blake3_streaming sum_hash"
proof -
  have "foldl (@) acc cs = acc @ concat cs" for acc :: "u8 list" and cs
    by (induction cs arbitrary: acc) simp_all
  then show ?thesis by (simp add: blake3_streaming_def sum_hash_def)
qed

end
