(* ===== verification/Ev_Loop.thy ===== *)
theory Ev_Loop
  imports C_Lib "HOL-Library.Sublist"
begin

text \<open>
  The event loop over io_uring, \<open>ev.h\<close> and \<open>ev.c\<close>.  The two rings are shared with the kernel: the
  program owns the tail of the submission ring and the head of the completion ring, the kernel the
  other two indices.  Indices are 32-bit words that wrap around; a position in a ring is an index
  masked with the ring mask.  The state holds the words the ring pointers point to.

  The results of the system call \<open>io_uring_enter\<close> are not code of the repository: \<open>enter_results\<close>
  gives the result of the \<open>k\<close>-th call, and \<open>enter_calls\<close> records the calls made.

  A request is identified by the object it is stored in (\<open>req_ptr\<close>): a slot of the processor's
  slab, or one of the embedded requests of a processor and its verifier.
\<close>

section \<open>Definitions\<close>

datatype req_ptr = Slab_Req nat | Queue_Poll_Req | Conn_Req | Recv_Req | Timer_Req

text \<open>The functions the program stores as callbacks.\<close>

datatype callback_t =
    CB_NULL
  | CB_on_queue_event | CB_on_file_open | CB_on_file_read
  | CB_on_socket_create | CB_on_socket_connect | CB_on_socket_read
  | CB_on_socket_timeout | CB_on_socket_timeout_update

text \<open>The objects whose addresses the program stores into requests, and the two kinds of 64-bit values.\<close>

datatype obj =
    Obj_Path nat | Obj_Buffer nat | Obj_Verifier | Obj_Expiry | Obj_Readbuf | Obj_Remote_Addr

datatype uval = Num u64 | Addr obj

datatype data_ptr = Data_Null | Data_Processor | Data_Verifier | Data_Slab nat

record ev_io_req =
  rq_opcode :: u8
  rq_off :: uval
  rq_addr :: uval
  rq_fd :: i32
  rq_len :: u32
  rq_flags :: u32
  rq_result :: i32
  rq_result_flags :: u32
  rq_data :: data_ptr
  rq_data2 :: data_ptr
  rq_callback :: callback_t

definition ev_io_req_zero :: ev_io_req where
  "ev_io_req_zero =
     \<lparr>rq_opcode = 0, rq_off = Num 0, rq_addr = Num 0, rq_fd = 0, rq_len = 0, rq_flags = 0,
      rq_result = 0, rq_result_flags = 0, rq_data = Data_Null, rq_data2 = Data_Null,
      rq_callback = CB_NULL\<rparr>"

definition EV_FULL :: i32 where "EV_FULL = 1"

text \<open>
  The kernel's queue entries, with the fields the program writes or reads; the other fields of a
  submission entry are zero after \<open>memset\<close>.
\<close>

record io_uring_sqe =
  sqe_opcode :: u8
  sqe_flags :: u8
  sqe_fd :: i32
  sqe_off :: uval
  sqe_addr :: uval
  sqe_len :: u32
  sqe_poll32_events :: u32
  sqe_user_data :: "req_ptr option"

definition sqe_zero :: io_uring_sqe where
  "sqe_zero = \<lparr>sqe_opcode = 0, sqe_flags = 0, sqe_fd = 0, sqe_off = Num 0, sqe_addr = Num 0,
               sqe_len = 0, sqe_poll32_events = 0, sqe_user_data = None\<rparr>"

record io_uring_cqe =
  cqe_user_data :: req_ptr
  cqe_res :: i32
  cqe_flags :: u32

record ev_loop =
  sq_head :: u32
  sq_tail :: u32
  sq_mask :: u32
  sq_flags :: u32
  sqes :: "nat \<Rightarrow> io_uring_sqe"
  cq_head :: u32
  cq_tail :: u32
  cq_mask :: u32
  cqes :: "nat \<Rightarrow> io_uring_cqe"
  ringfd :: i32
  enter_calls :: "(u32 \<times> u32 \<times> u32) list"
  enter_results :: "nat \<Rightarrow> i32"

text \<open>Opcodes and flags of the io_uring interface that the program uses.\<close>

definition IORING_OP_POLL_ADD :: u8 where "IORING_OP_POLL_ADD = 6"
definition IORING_OP_TIMEOUT :: u8 where "IORING_OP_TIMEOUT = 11"
definition IORING_OP_TIMEOUT_REMOVE :: u8 where "IORING_OP_TIMEOUT_REMOVE = 12"
definition IORING_OP_CONNECT :: u8 where "IORING_OP_CONNECT = 16"
definition IORING_OP_OPENAT :: u8 where "IORING_OP_OPENAT = 18"
definition IORING_OP_READ :: u8 where "IORING_OP_READ = 22"
definition IORING_OP_SOCKET :: u8 where "IORING_OP_SOCKET = 45"

lemmas opcode_defs = IORING_OP_POLL_ADD_def IORING_OP_TIMEOUT_def IORING_OP_TIMEOUT_REMOVE_def
  IORING_OP_CONNECT_def IORING_OP_OPENAT_def IORING_OP_READ_def IORING_OP_SOCKET_def

definition IORING_SQ_NEED_WAKEUP :: u32 where "IORING_SQ_NEED_WAKEUP = 1"
definition IORING_ENTER_GETEVENTS :: u32 where "IORING_ENTER_GETEVENTS = 1"
definition IORING_ENTER_SQ_WAKEUP :: u32 where "IORING_ENTER_SQ_WAKEUP = 2"
definition IORING_CQE_F_MORE :: u32 where "IORING_CQE_F_MORE = 2"
definition IORING_POLL_ADD_MULTI :: u32 where "IORING_POLL_ADD_MULTI = 1"
definition IORING_TIMEOUT_UPDATE :: u32 where "IORING_TIMEOUT_UPDATE = 2"

text \<open>
  \<open>ev__setup_io_uring\<close>: the result of \<open>io_uring_setup\<close> is the descriptor and the offsets of the
  ring words; a mapped ring is a function from offsets to words, \<open>None\<close> is \<open>MAP_FAILED\<close>.
\<close>

record ring_offsets =
  ro_head :: u32
  ro_tail :: u32
  ro_ring_mask :: u32
  ro_flags :: u32

record io_uring_params =
  sq_off :: ring_offsets
  cq_off :: ring_offsets

definition ev__setup_io_uring ::
  "i32 \<Rightarrow> io_uring_params \<Rightarrow> (u32 \<Rightarrow> u32) option \<Rightarrow> ((u32 \<Rightarrow> u32) \<times> (nat \<Rightarrow> io_uring_cqe)) option
     \<Rightarrow> (nat \<Rightarrow> io_uring_sqe) option \<Rightarrow> (nat \<Rightarrow> i32) \<Rightarrow> ev_loop res" where
  "ev__setup_io_uring fd params sq cq sqe_map results =
     (if sint fd < 1 then Inl (Exit 1)
      else case (sq, cq, sqe_map) of
             (Some s, Some (c, ces), Some ses) \<Rightarrow>
               Inr \<lparr>sq_head = s (ro_head (sq_off params)), sq_tail = s (ro_tail (sq_off params)),
                    sq_mask = s (ro_ring_mask (sq_off params)), sq_flags = s (ro_flags (sq_off params)),
                    sqes = ses,
                    cq_head = c (ro_head (cq_off params)), cq_tail = c (ro_tail (cq_off params)),
                    cq_mask = c (ro_ring_mask (cq_off params)), cqes = ces,
                    ringfd = fd, enter_calls = [], enter_results = results\<rparr>
           | _ \<Rightarrow> Inl (Exit 1))"

text \<open>What the kernel gives \<open>ev__setup_io_uring\<close>, collected in one record for its callers.\<close>

record iou_setup =
  is_fd :: i32
  is_params :: io_uring_params
  is_sq :: "(u32 \<Rightarrow> u32) option"
  is_cq :: "((u32 \<Rightarrow> u32) \<times> (nat \<Rightarrow> io_uring_cqe)) option"
  is_sqes :: "(nat \<Rightarrow> io_uring_sqe) option"
  is_results :: "nat \<Rightarrow> i32"

definition ev_loop_init :: "iou_setup \<Rightarrow> ev_loop res" where
  "ev_loop_init k = ev__setup_io_uring (is_fd k) (is_params k) (is_sq k) (is_cq k) (is_sqes k) (is_results k)"

definition io_uring_enter :: "u32 \<Rightarrow> u32 \<Rightarrow> u32 \<Rightarrow> ev_loop \<Rightarrow> i32 \<times> ev_loop" where
  "io_uring_enter to_submit min_complete fl l =
     (enter_results l (length (enter_calls l)),
      l\<lparr>enter_calls := enter_calls l @ [(to_submit, min_complete, fl)]\<rparr>)"

text \<open>
  \<open>ev__iou_submit\<close>.  \<open>ret\<close> is declared \<open>uint32_t\<close>, so the comparison with 0 is unsigned, as here.
\<close>

definition ev__iou_submit :: "ev_loop \<Rightarrow> (i32 \<times> ev_loop) res" where
  "ev__iou_submit l =
     (let l1 = l\<lparr>sq_tail := sq_tail l + 1\<rparr> in
      if sq_flags l1 AND IORING_SQ_NEED_WAKEUP \<noteq> 0 then
        (case io_uring_enter 1 0 IORING_ENTER_SQ_WAKEUP l1 of
           (ret, l2) \<Rightarrow> if (ret :: u32) < 0 then Inl (Exit 1) else Inr (0, l2))
      else Inr (0, l1))"

text \<open>
  \<open>ev_iou_req\<close>: \<open>fill_sqe\<close> is what is written into the entry after \<open>memset\<close>, and \<open>ev__iou_put\<close> the
  handling of the ring around it.
\<close>

definition fill_sqe :: "req_ptr \<Rightarrow> ev_io_req \<Rightarrow> io_uring_sqe" where
  "fill_sqe p req =
     sqe_zero\<lparr>sqe_fd := rq_fd req, sqe_opcode := rq_opcode req, sqe_off := rq_off req,
              sqe_len := rq_len req, sqe_addr := rq_addr req, sqe_poll32_events := rq_flags req,
              sqe_user_data := Some p, sqe_flags := 0\<rparr>"

definition ev__iou_put :: "io_uring_sqe \<Rightarrow> ev_loop \<Rightarrow> (i32 \<times> ev_loop) res" where
  "ev__iou_put e l =
     (let head = sq_head l; tail = sq_tail l; index = tail AND sq_mask l in
      if sq_mask l < tail - head then Inr (EV_FULL, l)
      else ev__iou_submit (l\<lparr>sqes := (sqes l)(unat index := e)\<rparr>))"

definition ev_iou_req :: "req_ptr \<Rightarrow> ev_io_req \<Rightarrow> ev_loop \<Rightarrow> (i32 \<times> ev_loop) res" where
  "ev_iou_req p req l = ev__iou_put (fill_sqe p req) l"

definition ev__io_poll :: "ev_loop \<Rightarrow> i32 \<times> ev_loop" where
  "ev__io_poll l = io_uring_enter 0 1 IORING_ENTER_GETEVENTS l"

text \<open>
  \<open>ev_loop_run\<close>.  The loop works on a larger state \<open>'s\<close>, the processor, that holds the event loop:
  \<open>lp\<close> reads it there and \<open>upd\<close> updates it.  \<open>dispatch\<close> stands for storing a completion into its
  request and calling the callback.  \<open>reap_from\<close> is the \<open>for\<close> loop, \<open>ev_loop_iter\<close> one round of the
  endless \<open>while\<close>.  The kernel and the other threads act while a round runs: \<open>env None\<close> is what they do to the
  state up to the load of the tail, \<open>env (Some i)\<close> what they do until the loop tests the index \<open>i\<close>.
\<close>

function reap_from ::
  "('s \<Rightarrow> ev_loop) \<Rightarrow> (u32 option \<Rightarrow> 's \<Rightarrow> 's) \<Rightarrow> (io_uring_cqe \<Rightarrow> 's \<Rightarrow> 's res) \<Rightarrow> u32 \<Rightarrow> u32 \<Rightarrow> u32 \<Rightarrow> 's
     \<Rightarrow> 's res" where
  "reap_from lp env dispatch msk tail i s =
     (let s1 = env (Some i) s in
      if i = tail then Inr s1
      else bind_res (dispatch (cqes (lp s1) (unat (i AND msk))) s1)
             (reap_from lp env dispatch msk tail (i + 1)))"
  by pat_completeness auto
termination
proof (relation "measure (\<lambda>(lp, env, dispatch, msk, tail, i, s). unat (tail - i))")
  fix lp :: "'s \<Rightarrow> ev_loop" and env :: "u32 option \<Rightarrow> 's \<Rightarrow> 's" and dispatch :: "io_uring_cqe \<Rightarrow> 's \<Rightarrow> 's res"
    and msk tail i :: u32 and s s1 x :: 's
  assume "i \<noteq> tail"
  then have "tail - i \<noteq> 0" by simp
  then have "unat (tail - i - 1) < unat (tail - i)"
    by (metis measure_unat)
  then show "((lp, env, dispatch, msk, tail, i + 1, x), lp, env, dispatch, msk, tail, i, s)
      \<in> measure (\<lambda>(lp, env, dispatch, msk, tail, i, s). unat (tail - i))"
    by (simp add: diff_diff_eq)
qed simp

declare reap_from.simps [simp del]

definition ev_loop_iter ::
  "('s \<Rightarrow> ev_loop) \<Rightarrow> ((ev_loop \<Rightarrow> ev_loop) \<Rightarrow> 's \<Rightarrow> 's) \<Rightarrow> (u32 option \<Rightarrow> 's \<Rightarrow> 's)
     \<Rightarrow> (io_uring_cqe \<Rightarrow> 's \<Rightarrow> 's res) \<Rightarrow> 's \<Rightarrow> 's res"
  where
  "ev_loop_iter lp upd env dispatch s =
     (case ev__io_poll (lp s) of
        (ret, l1) \<Rightarrow>
          (if (ret :: u32) < 0 then Inl (Exit 1)
           else
             let s1 = env None (upd (\<lambda>_. l1) s);
                 tail = cq_tail (lp s1); head = cq_head (lp s1); msk = cq_mask (lp s1) in
             bind_res (reap_from lp env dispatch msk tail head s1)
               (\<lambda>s2. Inr (upd (\<lambda>l. l\<lparr>cq_head := tail\<rparr>) s2))))"

text \<open>The kernel's side of the ring protocol, as the io_uring documentation gives it.\<close>

definition sq_consume :: "ev_loop \<Rightarrow> (io_uring_sqe \<times> ev_loop) option" where
  "sq_consume l =
     (if sq_head l = sq_tail l then None
      else Some (sqes l (unat (sq_head l AND sq_mask l)), l\<lparr>sq_head := sq_head l + 1\<rparr>))"

definition cq_post :: "io_uring_cqe \<Rightarrow> ev_loop \<Rightarrow> ev_loop option" where
  "cq_post c l =
     (if cq_mask l < cq_tail l - cq_head l then None
      else Some (l\<lparr>cqes := (cqes l)(unat (cq_tail l AND cq_mask l) := c), cq_tail := cq_tail l + 1\<rparr>))"

section \<open>Masked 32-bit ring indices\<close>

definition mask_ok :: "u32 \<Rightarrow> bool" where
  "mask_ok m \<longleftrightarrow> (\<exists>k<32. m = mask k)"

lemma mask_okE:
  assumes "mask_ok m"
  obtains k where "k < 32" "m = mask k" "unat m + 1 = 2 ^ k"
proof -
  from assms obtain k where k: "k < 32" "m = mask k" by (auto simp: mask_ok_def)
  have "(2 :: nat) ^ k < 2 ^ 32" using k(1) by (intro power_strict_increasing) simp_all
  then have "unat (2 ^ k :: u32) = 2 ^ k" using unat_of_nat_32 [of "2 ^ k"] by simp
  moreover from this have "(2 ^ k :: u32) \<noteq> 0" by (metis unat_0 power_not_zero zero_neq_numeral)
  ultimately have "unat m = 2 ^ k - 1"
    using unat_minus_one [of "2 ^ k :: u32"] k(2) by (simp add: mask_eq_exp_minus_1)
  then have "unat m + 1 = 2 ^ k" by simp
  with k show ?thesis by (rule that)
qed

text \<open>Masking a wrapping index is reduction modulo the ring size, across the wrap-around.\<close>

lemma masked_index:
  assumes "mask_ok m"
  shows "unat ((h + of_nat i) AND m) = (unat h + i) mod (unat m + 1)"
proof -
  from assms obtain k where k: "k < 32" "m = mask k" and um: "unat m + 1 = 2 ^ k" by (rule mask_okE)
  have "(2 :: nat) ^ k dvd 2 ^ 32" using k(1) by (intro le_imp_power_dvd) simp
  moreover have "unat (h + of_nat i) = (unat h + i) mod 2 ^ 32"
    by (simp add: unat_word_ariths unat_of_nat mod_simps)
  moreover have "unat ((h + of_nat i) AND m) = take_bit k (unat (h + of_nat i))"
    unfolding k(2) take_bit_eq_mask [symmetric] by (rule unsigned_take_bit_eq)
  ultimately show ?thesis unfolding um by (simp add: mod_mod_cancel take_bit_eq_mod)
qed

lemma masked_index_0: "mask_ok m \<Longrightarrow> unat (h AND m) = unat h mod (unat m + 1)"
  using masked_index [of m h 0] by simp

lemma mod_ring_distinct:
  assumes "i < n" "n < N"
  shows "(a + i) mod N \<noteq> (a + n) mod (N :: nat)"
proof
  assume "(a + i) mod N = (a + n) mod N"
  then have "N dvd (a + n) - (a + i)" using assms(1) by (intro mod_eq_dvd_iff_nat [THEN iffD1]) auto
  with assms show False by (auto dest: dvd_imp_le)
qed

text \<open>A masked ring: the storage, head, tail and mask words.\<close>

definition mring_count :: "u32 \<Rightarrow> u32 \<Rightarrow> nat" where
  "mring_count h t = unat (t - h)"

definition mring_ok :: "u32 \<Rightarrow> u32 \<Rightarrow> u32 \<Rightarrow> bool" where
  "mring_ok h t m \<longleftrightarrow> mask_ok m \<and> mring_count h t \<le> unat m + 1"

definition mring_list :: "(nat \<Rightarrow> 'a) \<Rightarrow> u32 \<Rightarrow> u32 \<Rightarrow> u32 \<Rightarrow> 'a list" where
  "mring_list buf h t m = ring_list buf (\<lambda>i. unat ((h + of_nat i) AND m)) (mring_count h t)"

lemma length_mring_list [simp]: "length (mring_list buf h t m) = mring_count h t"
  by (simp add: mring_list_def)

lemma mring_empty: "mring_list buf h t m = [] \<longleftrightarrow> h = t"
  by (auto simp: mring_list_def mring_count_def unat_eq_0)

lemma mring_full: "mring_ok h t m \<Longrightarrow> m < t - h \<longleftrightarrow> mring_count h t = unat m + 1"
  by (auto simp: mring_ok_def mring_count_def word_less_nat_alt)

lemma mask_lt: "mask_ok m \<Longrightarrow> unat m + 1 < 2 ^ 32"
proof -
  assume "mask_ok m"
  then obtain k where k: "k < 32" and "unat m + 1 = 2 ^ k" by (rule mask_okE)
  moreover have "(2 :: nat) ^ k < 2 ^ 32" using k(1) by (intro power_strict_increasing) simp_all
  ultimately show ?thesis by simp
qed

lemma mring_push:
  assumes ok: "mring_ok h t m" and free: "\<not> m < t - h"
  shows "mring_ok h (t + 1) m"
    and "mring_list (buf(unat (t AND m) := x)) h (t + 1) m = mring_list buf h t m @ [x]"
proof -
  let ?n = "mring_count h t"
  have m: "mask_ok m" using ok by (simp add: mring_ok_def)
  have n: "?n < unat m + 1" using ok free mring_full [OF ok] by (simp add: mring_ok_def)
  have t: "t = h + of_nat ?n" by (simp add: mring_count_def)
  have n': "mring_count h (t + 1) = Suc ?n"
  proof -
    have "t + 1 - h = of_nat (Suc ?n)" by (subst t) simp
    then show ?thesis
      using n mask_lt [OF m] by (simp add: mring_count_def [of h "t + 1"] unat_of_nat_32 del: of_nat_Suc)
  qed
  with n m show "mring_ok h (t + 1) m" by (simp add: mring_ok_def)
  let ?slot = "\<lambda>i. unat ((h + of_nat i) AND m)"
  have "?slot i \<noteq> ?slot ?n" if "i < ?n" for i
    using mod_ring_distinct [OF that n, of "unat h"] unfolding masked_index [OF m] .
  then have "ring_list (buf(?slot ?n := x)) ?slot (Suc ?n) = ring_list buf ?slot ?n @ [x]"
    by (rule ring_list_snoc)
  then show "mring_list (buf(unat (t AND m) := x)) h (t + 1) m = mring_list buf h t m @ [x]"
    unfolding mring_list_def n' t [symmetric] .
qed

lemma mring_count_Suc: "h \<noteq> t \<Longrightarrow> mring_count h t = Suc (mring_count (h + 1) t)"
proof -
  assume "h \<noteq> t"
  then have "t - h \<noteq> 0" by auto
  then have "unat (t - h) = Suc (unat (t - h - 1))"
    using unat_gt_0 [of "t - h"] unat_minus_one [of "t - h"] by simp
  then show ?thesis by (simp add: mring_count_def diff_diff_eq)
qed

lemma mring_Cons:
  "h \<noteq> t \<Longrightarrow> mring_list buf h t m = buf (unat (h AND m)) # mring_list buf (h + 1) t m"
  by (simp add: mring_list_def mring_count_Suc ring_list_Suc add.assoc)

lemma mring_pop:
  assumes ok: "mring_ok h t m" and ne: "h \<noteq> t"
  shows "mring_ok (h + 1) t m"
    and "mring_list buf h t m = buf (unat (h AND m)) # mring_list buf (h + 1) t m"
  using ok ne by (simp_all add: mring_Cons mring_ok_def mring_count_Suc)

lemma mring_drop:
  "mring_ok h t m \<Longrightarrow> k \<le> mring_count h t \<Longrightarrow>
     mring_ok (h + of_nat k) t m \<and> mring_list buf (h + of_nat k) t m = drop k (mring_list buf h t m)"
proof (induction k arbitrary: h)
  case (Suc k)
  then have ne: "h \<noteq> t" by (auto simp: mring_count_def)
  note pop = mring_pop [OF Suc.prems(1) ne]
  have "k \<le> mring_count (h + 1) t" using Suc.prems(2) mring_count_Suc [OF ne] by simp
  from Suc.IH [OF pop(1) this] pop(2) [of buf] show ?case by (simp add: add.assoc)
qed simp

section \<open>The submission ring\<close>

definition sq_ok :: "ev_loop \<Rightarrow> bool" where
  "sq_ok l \<longleftrightarrow> mring_ok (sq_head l) (sq_tail l) (sq_mask l)"

text \<open>The requests the kernel has not taken yet, oldest first.\<close>

definition sq_pending :: "ev_loop \<Rightarrow> io_uring_sqe list" where
  "sq_pending l = mring_list (sqes l) (sq_head l) (sq_tail l) (sq_mask l)"

definition sq_entries :: "ev_loop \<Rightarrow> nat" where
  "sq_entries l = unat (sq_mask l) + 1"

text \<open>\<open>ev__iou_submit\<close> always succeeds, whatever \<open>io_uring_enter\<close> returns.\<close>

lemma ev__iou_submit_ok:
  "\<exists>calls. ev__iou_submit l = Inr (0, l\<lparr>sq_tail := sq_tail l + 1, enter_calls := calls\<rparr>)"
proof (cases "sq_flags l AND IORING_SQ_NEED_WAKEUP \<noteq> 0")
  case True
  then show ?thesis by (auto simp: ev__iou_submit_def io_uring_enter_def)
next
  case False
  then show ?thesis by (auto simp: ev__iou_submit_def intro!: exI [of _ "enter_calls l"])
qed

lemma ev__iou_put_eq:
  assumes "sq_ok l"
  shows "length (sq_pending l) = sq_entries l \<Longrightarrow> ev__iou_put e l = Inr (EV_FULL, l)"
    and "length (sq_pending l) \<noteq> sq_entries l \<Longrightarrow>
      \<exists>calls. ev__iou_put e l =
        Inr (0, l\<lparr>sqes := (sqes l)(unat (sq_tail l AND sq_mask l) := e), sq_tail := sq_tail l + 1,
                  enter_calls := calls\<rparr>)"
proof -
  have full: "sq_mask l < sq_tail l - sq_head l \<longleftrightarrow> length (sq_pending l) = sq_entries l"
    using assms by (simp add: sq_ok_def sq_pending_def sq_entries_def mring_full)
  show "length (sq_pending l) = sq_entries l \<Longrightarrow> ev__iou_put e l = Inr (EV_FULL, l)"
    using full by (simp add: ev__iou_put_def)
  show "length (sq_pending l) \<noteq> sq_entries l \<Longrightarrow>
      \<exists>calls. ev__iou_put e l =
        Inr (0, l\<lparr>sqes := (sqes l)(unat (sq_tail l AND sq_mask l) := e), sq_tail := sq_tail l + 1,
                  enter_calls := calls\<rparr>)"
    using full ev__iou_submit_ok [of "l\<lparr>sqes := (sqes l)(unat (sq_tail l AND sq_mask l) := e)\<rparr>"]
    by (simp add: ev__iou_put_def Let_def)
qed

lemma sq_push_list:
  assumes "sq_ok l" "length (sq_pending l) \<noteq> sq_entries l"
    and "l' = l\<lparr>sqes := (sqes l)(unat (sq_tail l AND sq_mask l) := e), sq_tail := sq_tail l + 1,
                enter_calls := calls\<rparr>"
  shows "sq_ok l'" "sq_pending l' = sq_pending l @ [e]" "sq_entries l' = sq_entries l"
proof -
  have "\<not> sq_mask l < sq_tail l - sq_head l"
    using assms(1,2) by (simp add: sq_ok_def sq_pending_def sq_entries_def mring_full)
  from mring_push [OF assms(1) [unfolded sq_ok_def] this] assms(3)
  show "sq_ok l'" "sq_pending l' = sq_pending l @ [e]" "sq_entries l' = sq_entries l"
    by (simp_all add: sq_ok_def sq_pending_def sq_entries_def)
qed

definition sq_push :: "io_uring_sqe \<Rightarrow> ev_loop \<Rightarrow> ev_loop option" where
  "sq_push e l =
     (case ev__iou_put e l of Inl _ \<Rightarrow> None | Inr (r, l') \<Rightarrow> if r = 0 then Some l' else None)"

lemma sq_push_eq:
  assumes "sq_ok l"
  shows "length (sq_pending l) = sq_entries l \<Longrightarrow> sq_push e l = None"
    and "length (sq_pending l) \<noteq> sq_entries l \<Longrightarrow>
      \<exists>calls. sq_push e l =
        Some (l\<lparr>sqes := (sqes l)(unat (sq_tail l AND sq_mask l) := e), sq_tail := sq_tail l + 1,
                enter_calls := calls\<rparr>)"
proof -
  assume "length (sq_pending l) = sq_entries l"
  from ev__iou_put_eq(1) [OF assms this] show "sq_push e l = None"
    by (simp add: sq_push_def EV_FULL_def)
next
  assume "length (sq_pending l) \<noteq> sq_entries l"
  from ev__iou_put_eq(2) [OF assms this, of e] show "\<exists>calls. sq_push e l =
        Some (l\<lparr>sqes := (sqes l)(unat (sq_tail l AND sq_mask l) := e), sq_tail := sq_tail l + 1,
                enter_calls := calls\<rparr>)"
    by (auto simp: sq_push_def)
qed

interpretation sq_fifo: bounded_fifo sq_ok sq_pending sq_entries sq_push sq_consume
proof unfold_locales
  fix l l' :: ev_loop and e :: io_uring_sqe
  assume ok: "sq_ok l"
  show "length (sq_pending l) \<le> sq_entries l"
    using ok by (simp add: sq_ok_def sq_pending_def sq_entries_def mring_ok_def)
  show "sq_push e l = None \<longleftrightarrow> length (sq_pending l) = sq_entries l"
    using sq_push_eq [OF ok, of e] by (metis option.distinct(1))
  show "sq_push e l = Some l' \<Longrightarrow>
      sq_ok l' \<and> sq_pending l' = sq_pending l @ [e] \<and> sq_entries l' = sq_entries l"
    using sq_push_eq [OF ok, of e] sq_push_list [OF ok]
    by (metis option.distinct(1) option.inject)
  show "sq_consume l = None \<longleftrightarrow> sq_pending l = []"
    by (simp add: sq_consume_def sq_pending_def mring_empty)
  show "sq_consume l = Some (e, l') \<Longrightarrow>
      sq_ok l' \<and> sq_pending l = e # sq_pending l' \<and> sq_entries l' = sq_entries l"
    using ok mring_pop [of "sq_head l" "sq_tail l" "sq_mask l"]
    by (auto simp: sq_consume_def sq_ok_def sq_pending_def sq_entries_def split: if_splits)
qed

section \<open>The completion ring\<close>

definition cq_ok :: "ev_loop \<Rightarrow> bool" where
  "cq_ok l \<longleftrightarrow> mring_ok (cq_head l) (cq_tail l) (cq_mask l)"

definition cq_pending :: "ev_loop \<Rightarrow> io_uring_cqe list" where
  "cq_pending l = mring_list (cqes l) (cq_head l) (cq_tail l) (cq_mask l)"

definition cq_entries :: "ev_loop \<Rightarrow> nat" where
  "cq_entries l = unat (cq_mask l) + 1"

text \<open>One round of the reaping loop, seen from the ring.\<close>

definition cq_take :: "ev_loop \<Rightarrow> (io_uring_cqe \<times> ev_loop) option" where
  "cq_take l =
     (if cq_head l = cq_tail l then None
      else Some (cqes l (unat (cq_head l AND cq_mask l)), l\<lparr>cq_head := cq_head l + 1\<rparr>))"

interpretation cq_fifo: bounded_fifo cq_ok cq_pending cq_entries cq_post cq_take
proof unfold_locales
  fix l l' :: ev_loop and c :: io_uring_cqe
  assume ok: "cq_ok l"
  show "length (cq_pending l) \<le> cq_entries l"
    using ok by (simp add: cq_ok_def cq_pending_def cq_entries_def mring_ok_def)
  show "cq_post c l = None \<longleftrightarrow> length (cq_pending l) = cq_entries l"
    using ok mring_full by (simp add: cq_post_def cq_ok_def cq_pending_def cq_entries_def)
  show "cq_post c l = Some l' \<Longrightarrow>
      cq_ok l' \<and> cq_pending l' = cq_pending l @ [c] \<and> cq_entries l' = cq_entries l"
    using ok mring_push [of "cq_head l" "cq_tail l" "cq_mask l"]
    by (auto simp: cq_post_def cq_ok_def cq_pending_def cq_entries_def split: if_splits)
  show "cq_take l = None \<longleftrightarrow> cq_pending l = []"
    by (simp add: cq_take_def cq_pending_def mring_empty)
  show "cq_take l = Some (c, l') \<Longrightarrow>
      cq_ok l' \<and> cq_pending l = c # cq_pending l' \<and> cq_entries l' = cq_entries l"
    using ok mring_pop [of "cq_head l" "cq_tail l" "cq_mask l"]
    by (auto simp: cq_take_def cq_ok_def cq_pending_def cq_entries_def split: if_splits)
qed

text \<open>Handing \<open>k\<close> completions back, and polling.\<close>

lemma cq_advance:
  assumes "cq_ok l" "k \<le> length (cq_pending l)"
  shows "cq_ok (l\<lparr>cq_head := cq_head l + of_nat k\<rparr>)"
    "cq_pending (l\<lparr>cq_head := cq_head l + of_nat k\<rparr>) = drop k (cq_pending l)"
  using mring_drop [of "cq_head l" "cq_tail l" "cq_mask l" k "cqes l"] assms
  by (simp_all add: cq_ok_def cq_pending_def)

lemma sq_same:
  assumes "sq_head l' = sq_head l" "sq_tail l' = sq_tail l" "sq_mask l' = sq_mask l" "sqes l' = sqes l"
  shows "sq_ok l' = sq_ok l" "sq_pending l' = sq_pending l"
  using assms by (simp_all add: sq_ok_def sq_pending_def)

lemma cq_post_sq: "cq_post c l = Some l' \<Longrightarrow> sq_ok l' = sq_ok l \<and> sq_pending l' = sq_pending l"
  by (auto simp: cq_post_def sq_ok_def sq_pending_def split: if_splits)

lemma sq_consume_cq: "sq_consume l = Some (e, l') \<Longrightarrow> cq_ok l' = cq_ok l \<and> cq_pending l' = cq_pending l"
  by (auto simp: sq_consume_def cq_ok_def cq_pending_def split: if_splits)

lemma io_poll_rings:
  "sq_ok (snd (ev__io_poll l)) = sq_ok l" "sq_pending (snd (ev__io_poll l)) = sq_pending l"
  "cq_ok (snd (ev__io_poll l)) = cq_ok l" "cq_pending (snd (ev__io_poll l)) = cq_pending l"
  by (simp_all add: ev__io_poll_def io_uring_enter_def sq_ok_def sq_pending_def cq_ok_def cq_pending_def)

section \<open>The loop\<close>

text \<open>
  What the kernel and the other threads may do to the completion ring while the thread reaps it:
  the kernel appends completions.  It neither moves the head, which is the thread's, nor touches an
  entry that has not been handed back.
\<close>

definition cq_extends :: "ev_loop \<Rightarrow> ev_loop \<Rightarrow> bool" where
  "cq_extends l l' \<longleftrightarrow>
     cq_ok l' \<and> cq_head l' = cq_head l \<and> cq_mask l' = cq_mask l \<and> prefix (cq_pending l) (cq_pending l')"

definition posts_only :: "('s \<Rightarrow> ev_loop) \<Rightarrow> ('s \<Rightarrow> 's) \<Rightarrow> bool" where
  "posts_only lp f \<longleftrightarrow> (\<forall>s. cq_ok (lp s) \<longrightarrow> cq_extends (lp s) (lp (f s)))"

lemma cq_extends_refl: "cq_ok l \<Longrightarrow> cq_extends l l"
  by (simp add: cq_extends_def)

lemma cq_extends_trans: "cq_extends l l1 \<Longrightarrow> cq_extends l1 l2 \<Longrightarrow> cq_extends l l2"
  by (auto simp: cq_extends_def)

lemma cq_extends_ok: "cq_extends l l' \<Longrightarrow> cq_ok l'"
  by (simp add: cq_extends_def)

lemma cq_post_extends: "cq_ok l \<Longrightarrow> cq_post c l = Some l' \<Longrightarrow> cq_extends l l'"
  using cq_fifo.enq_appends [of l c l'] by (auto simp: cq_extends_def cq_post_def split: if_splits)

text \<open>An entry of the ring, by its index.\<close>

lemma cq_entry:
  assumes "cq_extends l l'" "d < length (cq_pending l)"
  shows "cqes l' (unat ((cq_head l + of_nat d) AND cq_mask l)) = cq_pending l ! d"
proof -
  from assms obtain more where more: "cq_pending l' = cq_pending l @ more"
    by (auto simp: cq_extends_def prefix_def)
  with assms(2) have "cq_pending l ! d = cq_pending l' ! d" "d < length (cq_pending l')"
    by (simp_all add: nth_append)
  then show ?thesis using assms(1)
    by (simp add: cq_extends_def cq_pending_def mring_list_def ring_list_def)
qed

lemma cq_tail_index: "cq_head l + of_nat (length (cq_pending l)) = cq_tail l"
  by (simp add: cq_pending_def mring_count_def)

lemma cq_index_inj:
  assumes "cq_ok l" "d < length (cq_pending l)"
  shows "cq_head l + of_nat d \<noteq> cq_tail l"
proof
  assume "cq_head l + of_nat d = cq_tail l"
  then have "of_nat d = (of_nat (length (cq_pending l)) :: u32)"
    unfolding cq_tail_index [symmetric] by simp
  moreover have "length (cq_pending l) < 2 ^ 32"
    by (simp add: cq_pending_def mring_count_def unsigned_less [where 'a = nat and 'b = 32, simplified])
  ultimately show False using assms(2) by (metis less_trans nat_neq_iff unat_of_nat_32)
qed

text \<open>
  What \<open>ev_loop_iter\<close> needs of the state it works on and of the callbacks: \<open>lp\<close> and \<open>upd\<close> read and
  write one component, and a callback leaves the unreaped completions alone.
\<close>

locale ev_client =
  fixes lp :: "'s \<Rightarrow> ev_loop"
    and upd :: "(ev_loop \<Rightarrow> ev_loop) \<Rightarrow> 's \<Rightarrow> 's"
    and dispatch :: "io_uring_cqe \<Rightarrow> 's \<Rightarrow> 's res"
  assumes lp_upd: "lp (upd f s) = f (lp s)"
    and dispatch_cq: "dispatch c s = Inr s' \<Longrightarrow>
          cqes (lp s') = cqes (lp s) \<and> cq_head (lp s') = cq_head (lp s)
          \<and> cq_tail (lp s') = cq_tail (lp s) \<and> cq_mask (lp s') = cq_mask (lp s)"
begin

lemma dispatch_extends: "cq_ok (lp s) \<Longrightarrow> dispatch c s = Inr s' \<Longrightarrow> cq_extends (lp s) (lp s')"
  using dispatch_cq [of c s s'] by (simp add: cq_extends_def cq_ok_def cq_pending_def)

text \<open>
  The loop ends and handles the completions between head and tail once each, in ring order; \<open>l0\<close> is
  the event loop as it was when the tail was read, \<open>d\<close> the number of completions handled so far.
\<close>

lemma reap_from_fold:
  assumes env: "\<And>i. posts_only lp (env i)" and ok: "cq_ok l0"
    and "cq_extends l0 (lp s)" "d \<le> length (cq_pending l0)"
  shows "reap_from lp env dispatch (cq_mask l0) (cq_tail l0) (cq_head l0 + of_nat d) s =
     bind_res (fold_res (\<lambda>(k, c) s. dispatch c (env (Some (cq_head l0 + of_nat k)) s))
                 (enumerate d (drop d (cq_pending l0))) s)
       (\<lambda>s'. Inr (env (Some (cq_tail l0)) s'))
   \<and> wp (\<lambda>_. True) (\<lambda>s'. cq_extends l0 (lp (env (Some (cq_tail l0)) s')))
     (fold_res (\<lambda>(k, c) s. dispatch c (env (Some (cq_head l0 + of_nat k)) s))
                 (enumerate d (drop d (cq_pending l0))) s)"
  using assms(3,4)
proof (induction "length (cq_pending l0) - d" arbitrary: d s)
  case 0
  then have "d = length (cq_pending l0)" by simp
  moreover have "cq_extends l0 (lp (env i s))" for i
    using env [of i] 0(2) by (blast intro: cq_extends_trans cq_extends_ok posts_only_def [THEN iffD1, rule_format])
  ultimately show ?case
    by (simp add: cq_tail_index reap_from.simps)
next
  case (Suc n)
  then have d: "d < length (cq_pending l0)" and n: "n = length (cq_pending l0) - Suc d" by simp_all
  let ?i = "cq_head l0 + of_nat d" let ?s = "env (Some ?i) s" let ?c = "cq_pending l0 ! d"
  have ext: "cq_extends l0 (lp ?s)"
    using env [of "Some ?i"] Suc.prems(1) by (blast intro: cq_extends_trans cq_extends_ok posts_only_def [THEN iffD1, rule_format])
  have entry: "cqes (lp ?s) (unat (?i AND cq_mask l0)) = ?c" by (rule cq_entry [OF ext d])
  have i: "?i \<noteq> cq_tail l0" by (rule cq_index_inj [OF ok d])
  have rest: "drop d (cq_pending l0) = ?c # drop (Suc d) (cq_pending l0)" using d by (simp add: Cons_nth_drop_Suc)
  have suc: "?i + 1 = cq_head l0 + of_nat (Suc d)" by simp
  have next_ext: "cq_extends l0 (lp s')" if "dispatch ?c ?s = Inr s'" for s'
    using ext dispatch_extends [OF cq_extends_ok [OF ext] that] by (rule cq_extends_trans)
  note IH = Suc.hyps(1) [OF n next_ext Suc_leI [OF d]]
  show ?case
    by (subst reap_from.simps) (cases "dispatch ?c ?s"; simp add: Let_def i entry rest suc IH del: of_nat_Suc)
qed

text \<open>
  One round polls, runs the callbacks of the completions that were there when the tail was read, and
  then hands exactly those entries back to the kernel.
\<close>

lemma iter_fold:
  assumes env: "\<And>i. posts_only lp (env i)" and ok: "cq_ok (lp s)"
    and s1: "s1 = env None (upd (\<lambda>_. snd (ev__io_poll (lp s))) s)" and cs: "cs = cq_pending (lp s1)"
    and handled: "handled = fold_res (\<lambda>(k, c) q. dispatch c (env (Some (cq_head (lp s1) + of_nat k)) q)) (enumerate 0 cs) s1"
  shows "ev_loop_iter lp upd env dispatch s =
       bind_res handled (\<lambda>q. Inr (upd (\<lambda>l. l\<lparr>cq_head := cq_tail (lp s1)\<rparr>) (env (Some (cq_tail (lp s1))) q)))"
    and "wp (\<lambda>_. True) (\<lambda>q. cq_pending (lp (env (Some (cq_tail (lp s1))) q)) =
           cs @ cq_pending (lp (upd (\<lambda>l. l\<lparr>cq_head := cq_tail (lp s1)\<rparr>) (env (Some (cq_tail (lp s1))) q)))) handled"
proof -
  have "cq_ok (lp (upd (\<lambda>_. snd (ev__io_poll (lp s))) s))" using ok by (simp add: lp_upd io_poll_rings)
  then have ok1: "cq_ok (lp s1)" using env [of None] unfolding s1 by (blast intro: cq_extends_ok posts_only_def [THEN iffD1, rule_format])
  note loop = reap_from_fold [where env = env, OF env ok1 cq_extends_refl [OF ok1], of 0, simplified]
  from loop show "ev_loop_iter lp upd env dispatch s =
       bind_res handled (\<lambda>q. Inr (upd (\<lambda>l. l\<lparr>cq_head := cq_tail (lp s1)\<rparr>) (env (Some (cq_tail (lp s1))) q)))"
    unfolding handled cs s1
    by (cases "ev__io_poll (lp s)") (auto simp: ev_loop_iter_def Let_def bind_res_assoc)
  have "cq_pending l = cs @ cq_pending (l\<lparr>cq_head := cq_tail (lp s1)\<rparr>)" if "cq_extends (lp s1) l" for l
    using that cq_advance(2) [of l "length cs"] cq_tail_index [of "lp s1"]
    by (auto simp: cq_extends_def cs prefix_def)
  with loop show "wp (\<lambda>_. True) (\<lambda>q. cq_pending (lp (env (Some (cq_tail (lp s1))) q)) =
           cs @ cq_pending (lp (upd (\<lambda>l. l\<lparr>cq_head := cq_tail (lp s1)\<rparr>) (env (Some (cq_tail (lp s1))) q)))) handled"
    unfolding handled cs by (auto simp: wp_def lp_upd split: sum.splits)
qed

end

section \<open>Submitting a request\<close>

lemma ev_iou_req_full:
  assumes "sq_ok l" "length (sq_pending l) = sq_entries l"
  shows "ev_iou_req p req l = Inr (EV_FULL, l)"
  using ev__iou_put_eq(1) [OF assms] by (simp add: ev_iou_req_def)

lemma ev_iou_req_room:
  assumes "sq_ok l" "length (sq_pending l) \<noteq> sq_entries l"
  shows "\<exists>l'. ev_iou_req p req l = Inr (0, l') \<and> sq_ok l' \<and> sq_pending l' = sq_pending l @ [fill_sqe p req]
     \<and> cqes l' = cqes l \<and> cq_head l' = cq_head l \<and> cq_tail l' = cq_tail l \<and> cq_mask l' = cq_mask l"
proof -
  let ?e = "fill_sqe p req"
  obtain calls where put: "ev__iou_put ?e l =
      Inr (0, l\<lparr>sqes := (sqes l)(unat (sq_tail l AND sq_mask l) := ?e), sq_tail := sq_tail l + 1,
                enter_calls := calls\<rparr>)" (is "_ = Inr (0, ?l')")
    using ev__iou_put_eq(2) [OF assms] by blast
  have "sq_ok ?l'" "sq_pending ?l' = sq_pending l @ [?e]"
    using sq_push_list [OF assms refl, where e = ?e and calls = calls] by simp_all
  with put show ?thesis by (simp add: ev_iou_req_def)
qed

section \<open>Properties\<close>

text \<open>
  C7.  \<open>ev_iou_req\<close> appends the request to the submission ring, in every state the ring can be in,
  wrapped 32-bit indices included: if the ring is full it returns \<open>EV_FULL\<close> and changes nothing;
  otherwise it returns 0, the pending requests are the old ones, unchanged, followed by the new one,
  and the completion ring is untouched.  It never fails, whatever \<open>io_uring_enter\<close> returns.
\<close>

theorem ev_iou_req_refines:
  assumes "sq_ok l"
  shows "\<exists>l'. sq_ok l' \<and> cq_pending l' = cq_pending l \<and>
     (if length (sq_pending l) = sq_entries l
      then ev_iou_req p req l = Inr (EV_FULL, l) \<and> l' = l
      else ev_iou_req p req l = Inr (0, l') \<and> sq_pending l' = sq_pending l @ [fill_sqe p req])"
proof (cases "length (sq_pending l) = sq_entries l")
  case True
  then show ?thesis using assms ev_iou_req_full [OF assms] by auto
next
  case False
  from ev_iou_req_room [OF assms False, of p req] obtain l' where
    "ev_iou_req p req l = Inr (0, l')" "sq_ok l'" "sq_pending l' = sq_pending l @ [fill_sqe p req]"
    "cq_pending l' = cq_pending l" by (auto simp: cq_pending_def)
  with False show ?thesis by auto
qed

text \<open>A ring of four entries whose indices are about to wrap around.\<close>

definition sample_loop :: ev_loop where
  "sample_loop =
     \<lparr>sq_head = 0xFFFFFFFE, sq_tail = 0xFFFFFFFF, sq_mask = 3, sq_flags = 1, sqes = (\<lambda>_. sqe_zero),
      cq_head = 0xFFFFFFFF, cq_tail = 1, cq_mask = 7,
      cqes = (\<lambda>i. \<lparr>cqe_user_data = Slab_Req i, cqe_res = 0, cqe_flags = 0\<rparr>),
      ringfd = 5, enter_calls = [], enter_results = (\<lambda>_. - 9)\<rparr>"

lemma mask_ok_sample [simp]: "mask_ok 3" "mask_ok 7" "mask_ok 127"
  by (auto simp: mask_ok_def mask_eq_exp_minus_1 intro: exI [of _ 2] exI [of _ 3] exI [of _ 7])

lemma sample_loop_ok: "sq_ok sample_loop" "sq_pending sample_loop = [sqe_zero]" "sq_entries sample_loop = 4"
  by (simp_all add: sq_ok_def sample_loop_def mring_ok_def mring_count_def sq_pending_def mring_list_def
      ring_list_def sq_entries_def)

theorem ev_iou_req_refines_witness:
  "\<exists>l'. ev_iou_req Recv_Req ev_io_req_zero sample_loop = Inr (0, l')
     \<and> sq_pending l' = [sqe_zero, fill_sqe Recv_Req ev_io_req_zero]"
  using ev_iou_req_refines [OF sample_loop_ok(1), of Recv_Req ev_io_req_zero]
  by (auto simp: sample_loop_ok(2,3))

text \<open>
  C19.  The kernel receives the requests in the order in which the program submitted them, none
  lost, repeated or overwritten before it was taken: for every interleaving of submissions with the
  kernel's consumption, what was pending followed by what the ring accepted is what the kernel
  took followed by what is pending now.
\<close>

theorem sq_ring_order:
  assumes "sq_ok l" and "fifo_run sq_push sq_consume ops l = (accepted, taken, l')"
  shows "sq_pending l @ accepted = taken @ sq_pending l' \<and> length (sq_pending l') \<le> sq_entries l"
  using sq_fifo.run_order [OF assms] sq_fifo.contents_bounded [of l'] by simp

theorem sq_ring_order_witness:
  "\<exists>l'. fifo_run sq_push sq_consume [Enq (fill_sqe Timer_Req ev_io_req_zero), Deq, Deq] sample_loop
         = ([fill_sqe Timer_Req ev_io_req_zero], [sqe_zero, fill_sqe Timer_Req ev_io_req_zero], l')
     \<and> sq_pending l' = []"
proof -
  let ?e = "fill_sqe Timer_Req ev_io_req_zero"
  obtain calls where "sq_push ?e sample_loop =
      Some (sample_loop\<lparr>sqes := (sqes sample_loop)(unat (sq_tail sample_loop AND sq_mask sample_loop) := ?e),
             sq_tail := sq_tail sample_loop + 1, enter_calls := calls\<rparr>)" (is "_ = Some ?l1")
    using sq_push_eq(2) [OF sample_loop_ok(1), of ?e] by (auto simp: sample_loop_ok)
  moreover have "sq_consume ?l1 = Some (sqe_zero, ?l1\<lparr>sq_head := 0xFFFFFFFF\<rparr>)"
    and "sq_consume (?l1\<lparr>sq_head := 0xFFFFFFFF\<rparr>) = Some (?e, ?l1\<lparr>sq_head := 0\<rparr>)"
    by (simp_all add: sq_consume_def sample_loop_def)
  ultimately have run: "fifo_run sq_push sq_consume [Enq ?e, Deq, Deq] sample_loop
      = ([?e], [sqe_zero, ?e], ?l1\<lparr>sq_head := 0\<rparr>)"
    by (simp only: fifo_run.simps option.case prod.case)
  show ?thesis using sq_ring_order [OF sample_loop_ok(1) run] run by (auto simp: sample_loop_ok(2))
qed

text \<open>
  C24.  A failing \<open>io_uring_enter\<close> goes unnoticed: its result is stored in a \<open>uint32_t\<close> and compared
  with \<open>< 0\<close>.  So submitting reports success even when waking the kernel's submission thread
  failed, and a round of the loop whose poll failed continues as if it had succeeded.
\<close>

theorem io_uring_enter_errors_ignored:
  "(\<exists>l'. ev__iou_submit l = Inr (0, l')) \<and>
   ev_loop_iter lp upd env dispatch s =
     (let s1 = env None (upd (\<lambda>_. snd (ev__io_poll (lp s))) s); l1 = lp s1 in
      bind_res (reap_from lp env dispatch (cq_mask l1) (cq_tail l1) (cq_head l1) s1)
        (\<lambda>s2. Inr (upd (\<lambda>l. l\<lparr>cq_head := cq_tail l1\<rparr>) s2)))"
  using ev__iou_submit_ok [of l]
  by (auto simp: ev_loop_iter_def Let_def split: prod.splits)

end
