(* ===== verification/Verifier_Quic.thy ===== *)
theory Verifier_Quic
  imports Ev_Loop
begin

text \<open>
  The QUIC side of the verifier client, \<open>verifier.h\<close> and \<open>verifier_quic.h\<close>.  ngtcp2, the TLS
  library, the clock, the random source and the socket calls are not code of the repository: they
  are the fields of the parameter record \<open>quic\<close>, functions on an external world \<open>'w\<close> that the
  verifier state carries along.  Error codes of ngtcp2 are fields too.  Logging is left out.
\<close>

section \<open>External code\<close>

record transport_params =
  initial_max_streams_uni :: u64
  initial_max_stream_data_bidi_local :: u64
  initial_max_data :: u64
  max_idle_timeout :: u64

record 'w quic =
  ngtcp2_conn_open_bidi_stream :: "'w \<Rightarrow> (i32 \<times> i64) \<times> 'w"
    \<comment> \<open>result, stream id\<close>
  ngtcp2_conn_writev_stream :: "i64 \<Rightarrow> bool \<Rightarrow> u8 list \<Rightarrow> u64 \<Rightarrow> 'w \<Rightarrow> (i64 \<times> i64 \<times> u8 list) \<times> 'w"
    \<comment> \<open>stream id, FIN flag, data, time; \<open>nwrite\<close>, \<open>wdatalen\<close>, packet\<close>
  ngtcp2_conn_get_expiry2 :: "'w \<Rightarrow> u64"
  ngtcp2_conn_handle_expiry :: "u64 \<Rightarrow> 'w \<Rightarrow> i32 \<times> 'w"
  ngtcp2_conn_read_pkt :: "u8 list \<Rightarrow> u64 \<Rightarrow> 'w \<Rightarrow> i32 \<times> 'w"
  ngtcp2_conn_client_new :: "u8 list \<Rightarrow> u8 list \<Rightarrow> u64 \<Rightarrow> transport_params \<Rightarrow> 'w \<Rightarrow> i32 \<times> 'w"
    \<comment> \<open>dcid, scid, initial time, parameters\<close>
  liberr_code :: "i64 \<Rightarrow> u64"
  tls_alert_code :: "'w \<Rightarrow> u64"
  NGTCP2_ERR_WRITE_MORE :: i64
  NGTCP2_ERR_CRYPTO :: i32
  NGTCP2_ERR_CALLBACK_FAILURE :: i32
  clock_gettime :: "'w \<Rightarrow> (u64 \<times> u64) option \<times> 'w"
    \<comment> \<open>seconds and nanoseconds\<close>
  RAND_bytes :: "nat \<Rightarrow> 'w \<Rightarrow> u8 list option \<times> 'w"
  sendmsg :: "i32 \<Rightarrow> u8 list \<Rightarrow> 'w \<Rightarrow> (nat + nat) \<times> 'w"
    \<comment> \<open>\<open>Inl\<close> the error number, or \<open>Inr\<close> the bytes sent\<close>
  getsockname :: "i32 \<Rightarrow> 'w \<Rightarrow> i32 \<times> 'w"
  getaddrinfo :: "'w \<Rightarrow> (i32 + u32) \<times> 'w"
    \<comment> \<open>\<open>Inl\<close> the error code, or \<open>Inr\<close> \<open>ai_addrlen\<close> of the address found\<close>
  ssl_setup :: "'w \<Rightarrow> (bool \<times> bool \<times> bool) \<times> 'w"
    \<comment> \<open>\<open>SSL_CTX_new\<close>, client context configuration and \<open>SSL_new\<close> succeed\<close>

definition NGTCP2_SECONDS :: u64 where "NGTCP2_SECONDS = 1000000000"
definition NGTCP2_MIN_INITIAL_DCIDLEN :: nat where "NGTCP2_MIN_INITIAL_DCIDLEN = 8"

section \<open>State\<close>

definition MAX_CONCURRENT_WRITES :: nat where "MAX_CONCURRENT_WRITES = 4"
definition STREAM_DATA_SIZE :: nat where "STREAM_DATA_SIZE = 256"
definition MAX_TIMEOUT :: u64 where "MAX_TIMEOUT = 2000"

text \<open>
  \<open>qs_data\<close> is the part of the 256-byte array that has been written so far, \<open>datalen\<close> bytes of it
  being application data; bytes behind it are indeterminate.
\<close>

record quic_stream =
  qs_stream_id :: i64
  qs_data :: "u8 list"
  qs_datalen :: u64
  qs_nwrite :: u64

record 'w verifier =
  v_conn_req :: ev_io_req
  v_recv_req :: ev_io_req
  v_timer_req :: ev_io_req
  v_expiry :: "i64 \<times> i64"
  v_readbuf :: "u8 list"
  v_slots :: "quic_stream list"
  v_conn :: bool  \<comment> \<open>\<open>conn\<close> is not a null pointer\<close>
  v_last_error :: u64
  v_remote_addr_len :: u32
  v_sock_fd :: i32
  v_world :: 'w

section \<open>Operations\<close>

definition timestamp :: "'w quic \<Rightarrow> 'w \<Rightarrow> (u64 \<times> 'w) res" where
  "timestamp X w =
     (case clock_gettime X w of
        (None, w') \<Rightarrow> Inl (Exit 1)
      | (Some (sec, nsec), w') \<Rightarrow> Inr (sec * NGTCP2_SECONDS + nsec, w'))"

text \<open>The retry loop of \<open>verifier_send_packet\<close>; \<open>None\<close> is a loop that never ends.\<close>

partial_function (option) sendmsg_retry ::
  "'w quic \<Rightarrow> i32 \<Rightarrow> u8 list \<Rightarrow> 'w \<Rightarrow> ((nat + nat) \<times> 'w) option" where
  "sendmsg_retry X fd pkt w =
     (case sendmsg X fd pkt w of
        (Inl errno, w') \<Rightarrow> if errno = EINTR then sendmsg_retry X fd pkt w' else Some (Inl errno, w')
      | (Inr n, w') \<Rightarrow> Some (Inr n, w'))"

definition verifier_send_packet :: "'w quic \<Rightarrow> u8 list \<Rightarrow> 'w verifier \<Rightarrow> (int \<times> 'w verifier) res" where
  "verifier_send_packet X pkt v =
     (case sendmsg_retry X (v_sock_fd v) pkt (v_world v) of
        None \<Rightarrow> Inl Diverges
      | Some (Inl _, w') \<Rightarrow> Inr (- 1, v\<lparr>v_world := w'\<rparr>)
      | Some (Inr _, w') \<Rightarrow> Inr (0, v\<lparr>v_world := w'\<rparr>))"

text \<open>
  \<open>verifier_prep_vec\<close> looks at slot 0 only.  Its results are whether a stream is returned, the
  \<open>fin\<close> flag and the bytes left to send; a stream that has been sent completely is reset.
\<close>

definition verifier_prep_vec ::
  "nat \<Rightarrow> 'w verifier \<Rightarrow> (nat \<times> bool \<times> bool \<times> u8 list) \<times> 'w verifier" where
  "verifier_prep_vec datavcnt v =
     (let s = v_slots v ! 0 in
      if datavcnt = 0 then ((0, False, False, []), v)
      else if qs_stream_id s \<noteq> - 1 \<and> qs_nwrite s < qs_datalen s then
        ((1, True, True, take (unat (qs_datalen s - qs_nwrite s)) (drop (unat (qs_nwrite s)) (qs_data s))), v)
      else if qs_stream_id s \<noteq> - 1 then
        ((0, False, False, []),
         v\<lparr>v_slots := (v_slots v)[0 := s\<lparr>qs_stream_id := - 1, qs_datalen := 0, qs_nwrite := 0\<rparr>]\<rparr>)
      else ((0, False, False, []), v))"

definition slot_advance :: "i64 \<Rightarrow> 'w verifier \<Rightarrow> 'w verifier" where
  "slot_advance n v =
     v\<lparr>v_slots := (v_slots v)[0 := (v_slots v ! 0)\<lparr>qs_nwrite := qs_nwrite (v_slots v ! 0) + n\<rparr>]\<rparr>"

text \<open>
  One round of the loop of \<open>verifier_flush_out\<close>: \<open>None\<close> continues, \<open>Some r\<close> returns \<open>r\<close>.  Both
  additions to \<open>stream->nwrite\<close> go through a pointer that is null when no stream was prepared.
\<close>

definition flush_step :: "'w quic \<Rightarrow> u64 \<Rightarrow> 'w verifier \<Rightarrow> (int option \<times> 'w verifier) res" where
  "flush_step X ts v =
     (case verifier_prep_vec 1 v of
        ((cnt, stream, fin, datav), v1) \<Rightarrow>
     (let stream_id = (if stream then qs_stream_id (v_slots v1 ! 0) else - 1) in
     (case ngtcp2_conn_writev_stream X stream_id fin datav ts (v_world v1) of
        ((nwrite, wdatalen, pkt), w') \<Rightarrow>
          (let v2 = v1\<lparr>v_world := w'\<rparr> in
           if sint nwrite < 0 then
             (if nwrite = NGTCP2_ERR_WRITE_MORE X then
                (if stream then Inr (None, slot_advance wdatalen v2) else Inl Null_Deref)
              else Inr (Some (- 1), v2\<lparr>v_last_error := liberr_code X nwrite\<rparr>))
           else if nwrite = 0 then Inr (Some 0, v2)
           else if 0 < sint wdatalen \<and> \<not> stream then Inl Null_Deref
           else
             let v3 = (if 0 < sint wdatalen then slot_advance wdatalen v2 else v2) in
             bind_res (verifier_send_packet X pkt v3)
               (\<lambda>(r, v4). if r \<noteq> 0 then Inr (Some 0, v4) else Inr (None, v4))))))"

partial_function (option) flush_loop ::
  "'w quic \<Rightarrow> u64 \<Rightarrow> 'w verifier \<Rightarrow> (int \<times> 'w verifier) res option" where
  "flush_loop X ts v =
     (case flush_step X ts v of
        Inl e \<Rightarrow> Some (Inl e)
      | Inr (Some r, v') \<Rightarrow> Some (Inr (r, v'))
      | Inr (None, v') \<Rightarrow> flush_loop X ts v')"

text \<open>A call into ngtcp2 needs a connection.\<close>

definition verifier_flush_out :: "'w quic \<Rightarrow> 'w verifier \<Rightarrow> (int \<times> 'w verifier) res" where
  "verifier_flush_out X v =
     (if \<not> v_conn v then Inl Null_Deref
      else bind_res (timestamp X (v_world v))
        (\<lambda>(ts, w'). case flush_loop X ts (v\<lparr>v_world := w'\<rparr>) of None \<Rightarrow> Inl Diverges | Some r \<Rightarrow> r))"

definition verifier_quic_flush :: "'w quic \<Rightarrow> 'w verifier \<Rightarrow> (u64 \<times> 'w verifier) res" where
  "verifier_quic_flush X v =
     bind_res (verifier_flush_out X v)
       (\<lambda>(r, v1).
          if r \<noteq> 0 then Inr (- 1, v1)
          else
            let expiry = ngtcp2_conn_get_expiry2 X (v_world v1) in
            bind_res (timestamp X (v_world v1))
              (\<lambda>(now, w'). Inr (if expiry < now then MAX_TIMEOUT else expiry - now, v1\<lparr>v_world := w'\<rparr>)))"

definition verifier_quic_get_slot :: "'w quic \<Rightarrow> 'w verifier \<Rightarrow> (i32 \<times> 'w verifier) res" where
  "verifier_quic_get_slot X v =
     (if \<not> v_conn v then Inl Null_Deref
      else case ngtcp2_conn_open_bidi_stream X (v_world v) of
             ((rv, stream_id), w') \<Rightarrow>
               (let v1 = v\<lparr>v_world := w'\<rparr> in
                if rv \<noteq> 0 then Inr (rv, v1)
                else Inr (0, v1\<lparr>v_slots := (v_slots v1)[0 := (v_slots v1 ! 0)\<lparr>qs_stream_id := stream_id\<rparr>]\<rparr>)))"

text \<open>
  \<open>memcpy\<close> into the 256-byte array of the slot: it must stay inside the array, inside the array of
  slots, and inside the source.
\<close>

definition verifier_quic_slot_writev ::
  "u64 \<Rightarrow> u8 list \<Rightarrow> u64 \<Rightarrow> 'w verifier \<Rightarrow> 'w verifier res" where
  "verifier_quic_slot_writev slot_id src data_len v =
     (let i = unat slot_id; n = unat data_len in
      if MAX_CONCURRENT_WRITES \<le> i then Inl Out_Of_Bounds
      else
        let s = v_slots v ! i in
        if length src < n \<or> STREAM_DATA_SIZE < unat (qs_datalen s) + n then Inl Out_Of_Bounds
        else Inr (v\<lparr>v_slots := (v_slots v)[i :=
               s\<lparr>qs_data := take (unat (qs_datalen s)) (qs_data s) @ take n src,
                 qs_datalen := qs_datalen s + data_len\<rparr>]\<rparr>))"

text \<open>\<open>verifier_verify_hash\<close> of \<open>verifier.c\<close>; the result of the final flush is dropped.\<close>

definition verifier_verify_hash ::
  "'w quic \<Rightarrow> u64 \<Rightarrow> u8 list \<Rightarrow> u64 \<Rightarrow> u8 list \<Rightarrow> 'w verifier \<Rightarrow> 'w verifier res" where
  "verifier_verify_hash X pathlen pathname hashlen hash v =
     bind_res (verifier_quic_get_slot X v) (\<lambda>(rv, v1).
     let slot_id = scast rv :: u64 in
     bind_res (verifier_quic_slot_writev slot_id hash hashlen v1) (\<lambda>v2.
     bind_res (verifier_quic_slot_writev slot_id pathname pathlen v2) (\<lambda>v3.
     bind_res (verifier_quic_flush X v3) (\<lambda>(_, v4). Inr v4))))"

text \<open>The callbacks handed to ngtcp2.  A failing random source aborts, or is reported.\<close>

definition rand_cb :: "'w quic \<Rightarrow> nat \<Rightarrow> 'w \<Rightarrow> (u8 list \<times> 'w) res" where
  "rand_cb X destlen w =
     (case RAND_bytes X destlen w of
        (Some bs, w') \<Rightarrow> Inr (bs, w')
      | (None, w') \<Rightarrow> Inl Assert_Fail)"

definition get_new_connection_id_cb ::
  "'w quic \<Rightarrow> nat \<Rightarrow> 'w \<Rightarrow> (i32 \<times> (u8 list \<times> u8 list) option) \<times> 'w" where
  "get_new_connection_id_cb X cidlen w =
     (case RAND_bytes X cidlen w of
        (None, w1) \<Rightarrow> ((NGTCP2_ERR_CALLBACK_FAILURE X, None), w1)
      | (Some cid, w1) \<Rightarrow>
          (case RAND_bytes X 16 w1 of
             (None, w2) \<Rightarrow> ((NGTCP2_ERR_CALLBACK_FAILURE X, None), w2)
           | (Some token, w2) \<Rightarrow> ((0, Some (cid, token)), w2)))"

definition quic_params :: transport_params where
  "quic_params = \<lparr>initial_max_streams_uni = 3, initial_max_stream_data_bidi_local = 128 * 1024,
                  initial_max_data = 1024 * 1024, max_idle_timeout = 30 * NGTCP2_SECONDS\<rparr>"

text \<open>\<open>verifier_quic_init\<close>: two random connection ids, the clock, and the new connection.\<close>

definition verifier_quic_init :: "'w quic \<Rightarrow> 'w verifier \<Rightarrow> (int \<times> 'w verifier) res" where
  "verifier_quic_init X v =
     (case RAND_bytes X NGTCP2_MIN_INITIAL_DCIDLEN (v_world v) of
        (None, w1) \<Rightarrow> Inr (- 1, v\<lparr>v_world := w1\<rparr>)
      | (Some dcid, w1) \<Rightarrow>
     (case RAND_bytes X 8 w1 of
        (None, w2) \<Rightarrow> Inr (- 1, v\<lparr>v_world := w2\<rparr>)
      | (Some scid, w2) \<Rightarrow>
          bind_res (timestamp X w2) (\<lambda>(ts, w3).
            case ngtcp2_conn_client_new X dcid scid ts quic_params w3 of
              (rv, w4) \<Rightarrow>
                if rv \<noteq> 0 then Inr (- 1, v\<lparr>v_world := w4\<rparr>)
                else Inr (0, v\<lparr>v_world := w4, v_conn := True\<rparr>))))"

definition verifier_quic_handle_expiry :: "'w quic \<Rightarrow> 'w verifier \<Rightarrow> (int \<times> 'w verifier) res" where
  "verifier_quic_handle_expiry X v =
     (if \<not> v_conn v then Inl Null_Deref
      else bind_res (timestamp X (v_world v)) (\<lambda>(ts, w1).
        case ngtcp2_conn_handle_expiry X ts w1 of
          (rv, w2) \<Rightarrow> Inr (if rv \<noteq> 0 then - 1 else 0, v\<lparr>v_world := w2\<rparr>)))"

definition verifier_quic_read :: "'w quic \<Rightarrow> u64 \<Rightarrow> 'w verifier \<Rightarrow> (int \<times> 'w verifier) res" where
  "verifier_quic_read X n v =
     (if \<not> v_conn v then Inl Null_Deref
      else bind_res (timestamp X (v_world v)) (\<lambda>(ts, w1).
        case ngtcp2_conn_read_pkt X (take (unat n) (v_readbuf v)) ts w1 of
          (rv, w2) \<Rightarrow>
            let v2 = v\<lparr>v_world := w2\<rparr> in
            if rv = 0 then Inr (0, v2)
            else if v_last_error v2 \<noteq> 0 then Inr (- 1, v2)
            else if rv = NGTCP2_ERR_CRYPTO X then Inr (- 1, v2\<lparr>v_last_error := tls_alert_code X w2\<rparr>)
            else Inr (- 1, v2\<lparr>v_last_error := liberr_code X (scast rv)\<rparr>)))"

definition verifier_ssl_init :: "'w quic \<Rightarrow> 'w verifier \<Rightarrow> (int \<times> 'w verifier) res" where
  "verifier_ssl_init X v =
     (case ssl_setup X (v_world v) of
        ((ctx, conf, ssl), w') \<Rightarrow>
          if \<not> ctx then Inl (Exit 1)
          else if \<not> conf then Inl (Exit 1)
          else if \<not> ssl then Inl (Exit 1)
          else Inr (0, v\<lparr>v_world := w'\<rparr>))"

section \<open>Stream slots\<close>

text \<open>Slot 0 is the only one used.  An idle slot has nothing buffered.\<close>

definition slot0 :: "'w verifier \<Rightarrow> quic_stream" where
  "slot0 v = v_slots v ! 0"

definition slots_ok :: "'w verifier \<Rightarrow> bool" where
  "slots_ok v \<longleftrightarrow> length (v_slots v) = MAX_CONCURRENT_WRITES
     \<and> unat (qs_datalen (slot0 v)) \<le> length (qs_data (slot0 v))
     \<and> unat (qs_datalen (slot0 v)) \<le> STREAM_DATA_SIZE
     \<and> qs_nwrite (slot0 v) \<le> qs_datalen (slot0 v)"

definition slot_idle :: "'w verifier \<Rightarrow> bool" where
  "slot_idle v \<longleftrightarrow> qs_datalen (slot0 v) = 0 \<and> qs_nwrite (slot0 v) = 0"

text \<open>The bytes of the slot that are still to be handed to ngtcp2.\<close>

definition unsent :: "'w verifier \<Rightarrow> u8 list" where
  "unsent v = drop (unat (qs_nwrite (slot0 v))) (take (unat (qs_datalen (slot0 v))) (qs_data (slot0 v)))"

lemma slot_writev_eq:
  assumes ok: "slots_ok v" and src: "unat n \<le> length src"
    and fit: "unat (qs_datalen (slot0 v)) + unat n \<le> STREAM_DATA_SIZE"
  shows "\<exists>v'. verifier_quic_slot_writev 0 src n v = Inr v' \<and> slots_ok v'
     \<and> take (unat (qs_datalen (slot0 v'))) (qs_data (slot0 v'))
         = take (unat (qs_datalen (slot0 v))) (qs_data (slot0 v)) @ take (unat n) src
     \<and> unat (qs_datalen (slot0 v')) = unat (qs_datalen (slot0 v)) + unat n
     \<and> qs_nwrite (slot0 v') = qs_nwrite (slot0 v) \<and> qs_stream_id (slot0 v') = qs_stream_id (slot0 v)
     \<and> v_conn v' = v_conn v \<and> v_world v' = v_world v \<and> v_sock_fd v' = v_sock_fd v"
proof -
  let ?s = "slot0 v"
  let ?s' = "?s\<lparr>qs_data := take (unat (qs_datalen ?s)) (qs_data ?s) @ take (unat n) src,
                qs_datalen := qs_datalen ?s + n\<rparr>"
  let ?v' = "v\<lparr>v_slots := (v_slots v)[0 := ?s']\<rparr>"
  have "verifier_quic_slot_writev 0 src n v = Inr ?v'"
    using src fit by (simp add: verifier_quic_slot_writev_def slot0_def MAX_CONCURRENT_WRITES_def Let_def)
  moreover have dl: "unat (qs_datalen ?s + n) = unat (qs_datalen ?s) + unat n"
    using fit by (subst unat_add_lem [symmetric]) (simp add: STREAM_DATA_SIZE_def)
  moreover have s': "slot0 ?v' = ?s'"
    using ok by (simp add: slot0_def slots_ok_def MAX_CONCURRENT_WRITES_def)
  moreover have "qs_nwrite ?s \<le> qs_datalen ?s + n"
    using ok dl by (simp add: slots_ok_def word_le_nat_alt)
  moreover have "length (take (unat (qs_datalen ?s)) (qs_data ?s)) = unat (qs_datalen ?s)"
    using ok by (simp add: slots_ok_def)
  ultimately show ?thesis
    using ok src fit by (intro exI [of _ ?v']) (simp add: slots_ok_def)
qed

section \<open>What sending does not change\<close>

text \<open>The operations that send leave everything but the slots, the last error and the world alone.\<close>

definition verifier_frame ::
  "'w verifier \<Rightarrow> (ev_io_req \<times> ev_io_req \<times> ev_io_req) \<times> (i64 \<times> i64) \<times> u8 list \<times> bool \<times> i32 \<times> nat" where
  "verifier_frame v = ((v_conn_req v, v_recv_req v, v_timer_req v), v_expiry v, v_readbuf v, v_conn v, v_sock_fd v,
     length (v_slots v))"

lemma verifier_frame_simps [simp]:
  "verifier_frame (v\<lparr>v_world := w\<rparr>) = verifier_frame v"
  "verifier_frame (v\<lparr>v_last_error := e\<rparr>) = verifier_frame v"
  "verifier_frame (v\<lparr>v_slots := (v_slots v)[i := s]\<rparr>) = verifier_frame v"
  "verifier_frame (slot_advance n v) = verifier_frame v"
  by (simp_all add: verifier_frame_def slot_advance_def)

lemma prep_vec_frame [simp]: "verifier_prep_vec n v = (r, v') \<Longrightarrow> verifier_frame v' = verifier_frame v"
  by (auto simp: verifier_prep_vec_def Let_def split: if_splits)

lemma send_packet_frame: "verifier_send_packet X pkt v = Inr (r, v') \<Longrightarrow> verifier_frame v' = verifier_frame v"
  by (auto simp: verifier_send_packet_def split: option.splits sum.splits)

lemma flush_step_frame: "flush_step X ts v = Inr (r, v') \<Longrightarrow> verifier_frame v' = verifier_frame v"
  by (auto simp: flush_step_def Let_def dest!: send_packet_frame split: prod.splits if_splits)

lemma flush_loop_frame:
  assumes "flush_loop X ts v = Some (Inr (r, v'))"
  shows "verifier_frame v' = verifier_frame v"
proof -
  have "\<forall>r v'. y = Inr (r, v') \<longrightarrow> verifier_frame v' = verifier_frame v"
    if "flush_loop X ts v = Some y" for y
  proof (rule flush_loop.raw_induct [OF _ that], intro allI impI)
    fix loop and X :: "'a quic" and ts v y r v'
    assume IH: "\<And>X ts v y. loop X ts v = Some y \<Longrightarrow>
        \<forall>r v'. y = Inr (r, v') \<longrightarrow> verifier_frame v' = verifier_frame v"
      and step: "(case flush_step X ts v of Inl e \<Rightarrow> Some (Inl e) | Inr (Some r, v') \<Rightarrow> Some (Inr (r, v'))
          | Inr (None, v') \<Rightarrow> loop X ts v') = Some y"
      and y: "y = Inr (r, v')"
    show "verifier_frame v' = verifier_frame v"
      using step y by (auto dest!: flush_step_frame IH split: sum.splits prod.splits option.splits)
  qed
  with assms show ?thesis by blast
qed

lemma flush_frame: "verifier_quic_flush X v = Inr (t, v') \<Longrightarrow> verifier_frame v' = verifier_frame v"
  by (auto simp: verifier_quic_flush_def verifier_flush_out_def Let_def dest!: flush_loop_frame
      split: option.splits if_splits prod.splits)

lemma slot_writev_frame:
  "verifier_quic_slot_writev i src n v = Inr v' \<Longrightarrow> verifier_frame v' = verifier_frame v"
  by (auto simp: verifier_quic_slot_writev_def Let_def split: if_splits)

lemma get_slot_frame: "verifier_quic_get_slot X v = Inr (r, v') \<Longrightarrow> verifier_frame v' = verifier_frame v"
  by (auto simp: verifier_quic_get_slot_def Let_def verifier_frame_def split: if_splits prod.splits)

lemma verify_hash_frame:
  "verifier_verify_hash X pl path hl h v = Inr v' \<Longrightarrow> verifier_frame v' = verifier_frame v"
  by (auto simp: verifier_verify_hash_def Let_def
      dest!: flush_frame slot_writev_frame get_slot_frame)

section \<open>A sample library\<close>

text \<open>The world is the list of packets sent; a packet is the data it carries.\<close>

definition sample_quic :: "u8 list list quic" where
  "sample_quic =
     \<lparr>ngtcp2_conn_open_bidi_stream = (\<lambda>w. ((0, 0), w)),
      ngtcp2_conn_writev_stream = (\<lambda>_ _ datav _ w. ((of_nat (length datav), of_nat (length datav), datav), w)),
      ngtcp2_conn_get_expiry2 = (\<lambda>_. 30000000000),
      ngtcp2_conn_handle_expiry = (\<lambda>_ w. (0, w)),
      ngtcp2_conn_read_pkt = (\<lambda>_ _ w. (0, w)),
      ngtcp2_conn_client_new = (\<lambda>_ _ _ _ w. (0, w)),
      liberr_code = (\<lambda>_. 1), tls_alert_code = (\<lambda>_. 2),
      NGTCP2_ERR_WRITE_MORE = - 240, NGTCP2_ERR_CRYPTO = - 227, NGTCP2_ERR_CALLBACK_FAILURE = - 502,
      clock_gettime = (\<lambda>w. (Some (10, 0), w)),
      RAND_bytes = (\<lambda>n w. (Some (replicate n 7), w)),
      sendmsg = (\<lambda>_ pkt w. (Inr (length pkt), w @ [pkt])),
      getsockname = (\<lambda>_ w. (0, w)), getaddrinfo = (\<lambda>w. (Inr 16, w)),
      ssl_setup = (\<lambda>w. ((True, True, True), w))\<rparr>"

end
