(* ===== verification/Processor_Slab.thy ===== *)
theory Processor_Slab
  imports Event_Queue Hasher Verifier_Quic
begin

text \<open>
  The state of a processor thread, \<open>processor.h\<close>, and its slab of requests: \<open>processor_get_req\<close> and
  \<open>processor_free_req\<close> of \<open>processor.c\<close>.  Free slots form a linked list through \<open>next\<close>.  The contract
  of the slab is the locale \<open>req_pool\<close>; the verifier and the file handlers are its clients.
\<close>

section \<open>State\<close>

definition READ_BUF_SIZE :: nat where "READ_BUF_SIZE = 65536"
definition OUTPUT_MAX_SIZE :: nat where "OUTPUT_MAX_SIZE = 512"

text \<open>
  Pointers into the slab are indices.  \<open>pr_data\<close> points to the path, a block of the heap; \<open>pr_buffer\<close>
  is the index of the buffer.
\<close>

record 'h processor_iou_req =
  pr_req :: ev_io_req
  pr_hasher :: "'h hasher"
  pr_next :: "nat option"
  pr_buffer :: nat
  pr_data :: "nat option"
  pr_data2 :: u64
  pr_in_flight :: u16
  pr_id :: u32

record processor_args =
  wa_id :: u64
  wa_io_concurrency :: u64
  wa_queue_eventfd :: i32
  wa_quit_eventfd :: i32
  wa_verify :: bool

text \<open>
  The fields from \<open>p_heap\<close> on are the surroundings of the thread: the blocks \<open>strdup\<close> allocated and
  whether its \<open>k\<close>-th call succeeds, the shared event queue with the eventfd objects, the buffers
  passed to \<open>write\<close> on standard output, the descriptors closed so far, and \<open>ai_addrlen\<close> of the
  address that the static variable \<open>remote_addr\<close> of \<open>verifier.c\<close> points to (\<open>None\<close>: null).
\<close>

record ('h, 'w) processor =
  p_queue_efd :: i32
  p_verifier :: "'w verifier"
  p_buffers :: "nat \<Rightarrow> u8 list"
  p_reqs :: "'h processor_iou_req list"
  p_reqs_list :: "nat option"
  p_nr_free_reqs :: i64
  p_queue_poll_req :: ev_io_req
  p_loop :: ev_loop
  p_nr_tasks :: u64
  p_id :: i32
  p_heap :: "nat \<rightharpoonup> string"
  p_strdups :: nat
  p_strdup_ok :: "nat \<Rightarrow> bool"
  p_queue :: queue
  p_fds :: fdtable
  p_stdout :: "string list"
  p_closed :: "i32 list"
  p_remote_addr :: "u32 option"

text \<open>Reading and writing a request through a pointer to it.\<close>

fun req_at :: "req_ptr \<Rightarrow> ('h, 'w) processor \<Rightarrow> ev_io_req" where
  "req_at (Slab_Req i) p = pr_req (p_reqs p ! i)"
| "req_at Queue_Poll_Req p = p_queue_poll_req p"
| "req_at Conn_Req p = v_conn_req (p_verifier p)"
| "req_at Recv_Req p = v_recv_req (p_verifier p)"
| "req_at Timer_Req p = v_timer_req (p_verifier p)"

definition slot_upd ::
  "nat \<Rightarrow> ('h processor_iou_req \<Rightarrow> 'h processor_iou_req) \<Rightarrow> ('h, 'w) processor \<Rightarrow> ('h, 'w) processor" where
  "slot_upd i f p = p\<lparr>p_reqs := (p_reqs p)[i := f (p_reqs p ! i)]\<rparr>"

fun req_upd :: "req_ptr \<Rightarrow> (ev_io_req \<Rightarrow> ev_io_req) \<Rightarrow> ('h, 'w) processor \<Rightarrow> ('h, 'w) processor" where
  "req_upd (Slab_Req i) f p = slot_upd i (\<lambda>r. r\<lparr>pr_req := f (pr_req r)\<rparr>) p"
| "req_upd Queue_Poll_Req f p = p\<lparr>p_queue_poll_req := f (p_queue_poll_req p)\<rparr>"
| "req_upd Conn_Req f p = p\<lparr>p_verifier := (p_verifier p)\<lparr>v_conn_req := f (v_conn_req (p_verifier p))\<rparr>\<rparr>"
| "req_upd Recv_Req f p = p\<lparr>p_verifier := (p_verifier p)\<lparr>v_recv_req := f (v_recv_req (p_verifier p))\<rparr>\<rparr>"
| "req_upd Timer_Req f p = p\<lparr>p_verifier := (p_verifier p)\<lparr>v_timer_req := f (v_timer_req (p_verifier p))\<rparr>\<rparr>"

text \<open>
  Following \<open>data\<close> and \<open>data2\<close> of a request, which are untyped pointers: null is a null dereference,
  and a pointer to another kind of object an access outside of it.
\<close>

definition as_processor :: "data_ptr \<Rightarrow> unit res" where
  "as_processor d =
     (case d of Data_Processor \<Rightarrow> Inr () | Data_Null \<Rightarrow> Inl Null_Deref | _ \<Rightarrow> Inl Out_Of_Bounds)"

definition as_verifier :: "data_ptr \<Rightarrow> unit res" where
  "as_verifier d =
     (case d of Data_Verifier \<Rightarrow> Inr () | Data_Null \<Rightarrow> Inl Null_Deref | _ \<Rightarrow> Inl Out_Of_Bounds)"

definition as_slab :: "('h, 'w) processor \<Rightarrow> data_ptr \<Rightarrow> nat res" where
  "as_slab p d =
     (case d of
        Data_Slab i \<Rightarrow> if i < length (p_reqs p) then Inr i else Inl Out_Of_Bounds
      | Data_Null \<Rightarrow> Inl Null_Deref | _ \<Rightarrow> Inl Out_Of_Bounds)"

text \<open>\<open>ev_iou_req(&processor->loop, req)\<close>; no caller looks at the result.\<close>

definition iou_submit :: "req_ptr \<Rightarrow> ('h, 'w) processor \<Rightarrow> ('h, 'w) processor res" where
  "iou_submit ptr p =
     bind_res (ev_iou_req ptr (req_at ptr p) (p_loop p)) (\<lambda>(_, l). Inr (p\<lparr>p_loop := l\<rparr>))"

section \<open>Operations\<close>

text \<open>
  The loop of \<open>processor_setup\<close> over the zeroed slab; \<open>h0\<close> is what the zeroed memory of a hasher
  holds.  The last slot's \<open>next\<close> is reset after the loop.
\<close>

definition slab_entry :: "'h hasher \<Rightarrow> nat \<Rightarrow> 'h processor_iou_req" where
  "slab_entry h0 i =
     \<lparr>pr_req = ev_io_req_zero\<lparr>rq_data2 := Data_Slab i\<rparr>, pr_hasher = h0, pr_next = Some (i + 1),
      pr_buffer = i, pr_data = None, pr_data2 = 0, pr_in_flight = 0, pr_id = of_nat i\<rparr>"

definition slab_init :: "'h hasher \<Rightarrow> nat \<Rightarrow> 'h processor_iou_req list res" where
  "slab_init h0 n =
     (if n = 0 then Inl Out_Of_Bounds
      else Inr ((map (slab_entry h0) [0..<n])[n - 1 := (slab_entry h0 (n - 1))\<lparr>pr_next := None\<rparr>]))"

definition processor_get_req :: "('h, 'w) processor \<Rightarrow> (nat \<times> ('h, 'w) processor) res" where
  "processor_get_req p =
     (case p_reqs_list p of
        None \<Rightarrow> Inl (Exit 1)
      | Some i \<Rightarrow>
          if length (p_reqs p) \<le> i then Inl Out_Of_Bounds
          else
            let preq = p_reqs p ! i; p1 = p\<lparr>p_reqs_list := pr_next preq\<rparr> in
            if pr_in_flight preq \<noteq> 0 then Inl Assert_Fail
            else
              let p2 = slot_upd i (\<lambda>r. r\<lparr>pr_in_flight := 1,
                         pr_req := (pr_req r)\<lparr>rq_flags := 0, rq_result := 0, rq_data := Data_Processor,
                           rq_data2 := Data_Slab i, rq_off := Num 0, rq_callback := CB_NULL,
                           rq_opcode := 0, rq_addr := Num 0, rq_len := 0\<rparr>\<rparr>) p1
              in Inr (i, p2\<lparr>p_nr_free_reqs := p_nr_free_reqs p2 - 1\<rparr>))"

definition processor_free_req :: "req_ptr \<Rightarrow> ('h, 'w) processor \<Rightarrow> ('h, 'w) processor res" where
  "processor_free_req ptr p =
     bind_res (as_processor (rq_data (req_at ptr p))) (\<lambda>_.
     bind_res (as_slab p (rq_data2 (req_at ptr p))) (\<lambda>i.
       let p1 = slot_upd i (\<lambda>r. r\<lparr>pr_data := None, pr_in_flight := 0, pr_next := p_reqs_list p\<rparr>) p
       in Inr (p1\<lparr>p_reqs_list := Some i, p_nr_free_reqs := p_nr_free_reqs p1 + 1\<rparr>)))"

section \<open>The slab invariant\<close>

text \<open>The list that starts at a pointer and follows \<open>next\<close>.\<close>

primrec chain :: "(nat \<Rightarrow> nat option) \<Rightarrow> nat option \<Rightarrow> nat list \<Rightarrow> bool" where
  "chain nx q [] \<longleftrightarrow> q = None"
| "chain nx q (i # is) \<longleftrightarrow> q = Some i \<and> chain nx (nx i) is"

lemma chain_cong: "(\<And>i. i \<in> set is \<Longrightarrow> nx i = nx' i) \<Longrightarrow> chain nx q is = chain nx' q is"
  by (induction "is" arbitrary: q) auto

definition slab_next :: "('h, 'w) processor \<Rightarrow> nat \<Rightarrow> nat option" where
  "slab_next p i = pr_next (p_reqs p ! i)"

text \<open>The slots that are not handed out.\<close>

definition slab_free :: "('h, 'w) processor \<Rightarrow> nat set" where
  "slab_free p = {i. i < length (p_reqs p) \<and> pr_in_flight (p_reqs p ! i) = 0}"

definition slab_slot_ok :: "'h processor_iou_req \<Rightarrow> nat \<Rightarrow> bool" where
  "slab_slot_ok r i \<longleftrightarrow> rq_data2 (pr_req r) = Data_Slab i \<and> pr_buffer r = i \<and> pr_id r = of_nat i
     \<and> (pr_in_flight r \<noteq> 0 \<longrightarrow> rq_data (pr_req r) = Data_Processor)"

definition free_list :: "('h, 'w) processor \<Rightarrow> nat list \<Rightarrow> bool" where
  "free_list p is \<longleftrightarrow> chain (slab_next p) (p_reqs_list p) is \<and> distinct is \<and> set is = slab_free p
     \<and> p_nr_free_reqs p = of_nat (length is)"

definition slab_ok :: "('h, 'w) processor \<Rightarrow> bool" where
  "slab_ok p \<longleftrightarrow> (\<exists>is. free_list p is) \<and> (\<forall>i < length (p_reqs p). slab_slot_ok (p_reqs p ! i) i)"

lemma length_slot_upd [simp]: "length (p_reqs (slot_upd i f p)) = length (p_reqs p)"
  by (simp add: slot_upd_def)

lemma nth_slot_upd [simp]:
  "j < length (p_reqs p) \<Longrightarrow> p_reqs (slot_upd i f p) ! j = (if i = j then f (p_reqs p ! j) else p_reqs p ! j)"
  by (simp add: slot_upd_def nth_list_update)

lemma slot_upd_simps [simp]:
  "p_reqs_list (slot_upd i f p) = p_reqs_list p" "p_nr_free_reqs (slot_upd i f p) = p_nr_free_reqs p"
  "p_loop (slot_upd i f p) = p_loop p" "p_verifier (slot_upd i f p) = p_verifier p"
  "p_heap (slot_upd i f p) = p_heap p" "p_queue_poll_req (slot_upd i f p) = p_queue_poll_req p"
  "p_buffers (slot_upd i f p) = p_buffers p" "p_stdout (slot_upd i f p) = p_stdout p"
  "p_id (slot_upd i f p) = p_id p" "p_strdups (slot_upd i f p) = p_strdups p"
  "p_strdup_ok (slot_upd i f p) = p_strdup_ok p" "p_queue (slot_upd i f p) = p_queue p"
  "p_fds (slot_upd i f p) = p_fds p" "p_closed (slot_upd i f p) = p_closed p"
  "p_nr_tasks (slot_upd i f p) = p_nr_tasks p" "p_queue_efd (slot_upd i f p) = p_queue_efd p"
  "p_remote_addr (slot_upd i f p) = p_remote_addr p"
  by (simp_all add: slot_upd_def)

text \<open>The slab invariant looks at a few fields only; everything else may change under it.\<close>

definition slab_view :: "('h, 'w) processor \<Rightarrow> nat option \<times> i64 \<times> (nat option \<times> u16 \<times> u32 \<times> nat \<times> data_ptr \<times> data_ptr) list" where
  "slab_view p = (p_reqs_list p, p_nr_free_reqs p,
     map (\<lambda>r. (pr_next r, pr_in_flight r, pr_id r, pr_buffer r, rq_data (pr_req r), rq_data2 (pr_req r))) (p_reqs p))"

lemma slab_viewD:
  assumes "slab_view p = slab_view p'"
  shows "length (p_reqs p) = length (p_reqs p')" "p_reqs_list p = p_reqs_list p'"
    "p_nr_free_reqs p = p_nr_free_reqs p'"
    "i < length (p_reqs p) \<Longrightarrow> pr_next (p_reqs p ! i) = pr_next (p_reqs p' ! i)
       \<and> pr_in_flight (p_reqs p ! i) = pr_in_flight (p_reqs p' ! i)
       \<and> slab_slot_ok (p_reqs p ! i) j = slab_slot_ok (p_reqs p' ! i) j"
  using assms map_eq_imp_length_eq
  by (auto simp: slab_view_def slab_slot_ok_def list_eq_iff_nth_eq)

lemma slab_view_free:
  assumes "slab_view p = slab_view p'"
  shows "slab_free p = slab_free p'"
  using slab_viewD(1) [OF assms] slab_viewD(4) [OF assms] by (auto simp: slab_free_def)

lemma slab_view_ok:
  assumes v: "slab_view p = slab_view p'"
  shows "slab_ok p = slab_ok p'"
proof -
  have "free_list p is = free_list p' is" for "is"
  proof (cases "set is = slab_free p")
    case True
    then have "chain (slab_next p) (p_reqs_list p) is = chain (slab_next p') (p_reqs_list p) is"
      using slab_viewD(4) [OF v] by (intro chain_cong) (auto simp: slab_next_def slab_free_def)
    then show ?thesis
      by (simp add: free_list_def slab_viewD(2,3) [OF v] slab_view_free [OF v])
  qed (simp add: free_list_def slab_view_free [OF v])
  then show ?thesis
    using slab_viewD(1,4) [OF v] by (auto simp: slab_ok_def)
qed

section \<open>Getting and freeing\<close>

lemma get_req_exhausted:
  assumes "slab_ok p" "slab_free p = {}"
  shows "processor_get_req p = Inl (Exit 1)"
proof -
  from assms obtain "is" where "free_list p is" by (auto simp: slab_ok_def)
  with assms(2) have "p_reqs_list p = None" by (auto simp: free_list_def)
  then show ?thesis by (simp add: processor_get_req_def)
qed

text \<open>What \<open>processor_get_req\<close> leaves in the slot it hands out.\<close>

definition fresh_slot :: "nat \<Rightarrow> 'h processor_iou_req \<Rightarrow> 'h processor_iou_req" where
  "fresh_slot i r = r\<lparr>pr_in_flight := 1,
     pr_req := (pr_req r)\<lparr>rq_flags := 0, rq_result := 0, rq_data := Data_Processor,
       rq_data2 := Data_Slab i, rq_off := Num 0, rq_callback := CB_NULL,
       rq_opcode := 0, rq_addr := Num 0, rq_len := 0\<rparr>\<rparr>"

lemma get_req_ok:
  assumes ok: "slab_ok p" and ne: "slab_free p \<noteq> {}"
  shows "\<exists>i q. i \<in> slab_free p \<and> processor_get_req p =
     Inr (i, (slot_upd i (fresh_slot i) p)\<lparr>p_reqs_list := q, p_nr_free_reqs := p_nr_free_reqs p - 1\<rparr>)
     \<and> slab_ok ((slot_upd i (fresh_slot i) p)\<lparr>p_reqs_list := q, p_nr_free_reqs := p_nr_free_reqs p - 1\<rparr>)
     \<and> slab_free ((slot_upd i (fresh_slot i) p)\<lparr>p_reqs_list := q, p_nr_free_reqs := p_nr_free_reqs p - 1\<rparr>)
         = slab_free p - {i}"
proof -
  from ok obtain "is" where fl: "free_list p is" by (auto simp: slab_ok_def)
  with ne obtain i js where js: "is = i # js" by (cases "is") (auto simp: free_list_def)
  let ?p = "(slot_upd i (fresh_slot i) p)\<lparr>p_reqs_list := slab_next p i, p_nr_free_reqs := p_nr_free_reqs p - 1\<rparr>"
  from fl js have i: "i \<in> slab_free p" "i < length (p_reqs p)" "i \<notin> set js"
    and h: "p_reqs_list p = Some i" and c: "chain (slab_next p) (slab_next p i) js"
    by (auto simp: free_list_def slab_free_def)
  have get: "processor_get_req p = Inr (i, ?p)"
    using i h by (simp add: processor_get_req_def slab_free_def slab_next_def Let_def fresh_slot_def slot_upd_def)
  have free: "slab_free ?p = slab_free p - {i}"
    by (auto simp: slab_free_def fresh_slot_def split: if_splits)
  have "slab_next ?p j = slab_next p j" if "j < length (p_reqs p)" for j
    using that by (simp add: slab_next_def fresh_slot_def)
  moreover have "set js \<subseteq> {..<length (p_reqs p)}"
    using fl js by (auto simp: free_list_def slab_free_def)
  ultimately have "chain (slab_next ?p) (slab_next p i) js"
    using c by (subst chain_cong [where nx' = "slab_next p"]) auto
  then have "free_list ?p js"
    using fl js i free by (auto simp: free_list_def)
  moreover have "slab_slot_ok (p_reqs ?p ! j) j" if "j < length (p_reqs ?p)" for j
    using ok that by (auto simp: slab_ok_def slab_slot_ok_def fresh_slot_def)
  ultimately have "slab_ok ?p" by (auto simp: slab_ok_def)
  with get free i show ?thesis by blast
qed

text \<open>Freeing a slot that is handed out puts it at the front of the list.\<close>

definition freed :: "nat \<Rightarrow> ('h, 'w) processor \<Rightarrow> ('h, 'w) processor" where
  "freed i p = (slot_upd i (\<lambda>r. r\<lparr>pr_data := None, pr_in_flight := 0, pr_next := p_reqs_list p\<rparr>) p)
     \<lparr>p_reqs_list := Some i, p_nr_free_reqs := p_nr_free_reqs p + 1\<rparr>"

lemma free_req_ok:
  assumes ok: "slab_ok p" and i: "i < length (p_reqs p)" "i \<notin> slab_free p"
  shows "processor_free_req (Slab_Req i) p = Inr (freed i p)" "slab_ok (freed i p)"
    "slab_free (freed i p) = insert i (slab_free p)"
proof -
  from ok i have s: "slab_slot_ok (p_reqs p ! i) i" "pr_in_flight (p_reqs p ! i) \<noteq> 0"
    by (auto simp: slab_ok_def slab_free_def)
  then show "processor_free_req (Slab_Req i) p = Inr (freed i p)"
    using i by (simp add: processor_free_req_def slab_slot_ok_def as_processor_def as_slab_def freed_def Let_def)
  show free: "slab_free (freed i p) = insert i (slab_free p)"
    using i by (auto simp: slab_free_def freed_def)
  from ok obtain "is" where fl: "free_list p is" by (auto simp: slab_ok_def)
  have "slab_next (freed i p) j = slab_next p j" if "j \<in> set is" for j
    using that fl i by (auto simp: free_list_def slab_free_def slab_next_def freed_def)
  then have "chain (slab_next (freed i p)) (p_reqs_list p) is"
    using fl by (subst chain_cong [where nx' = "slab_next p"]) (simp_all add: free_list_def)
  then have "free_list (freed i p) (i # is)"
    using fl i free by (auto simp: free_list_def freed_def slab_next_def)
  moreover have "slab_slot_ok (p_reqs (freed i p) ! j) j" if "j < length (p_reqs (freed i p))" for j
    using ok that by (auto simp: slab_ok_def slab_slot_ok_def freed_def)
  ultimately show "slab_ok (freed i p)" by (auto simp: slab_ok_def)
qed

lemma slab_free_bound: "finite (slab_free p)" "card (slab_free p) \<le> length (p_reqs p)"
proof -
  have "slab_free p \<subseteq> {..<length (p_reqs p)}" by (auto simp: slab_free_def)
  then show "finite (slab_free p)" "card (slab_free p) \<le> length (p_reqs p)"
    using finite_subset [of _ "{..<length (p_reqs p)}"] card_mono [of "{..<length (p_reqs p)}"] by auto
qed

section \<open>The contract of the slab\<close>

text \<open>Taking \<open>n\<close> requests in a row.\<close>

primrec get_many :: "('s \<Rightarrow> (nat \<times> 's) res) \<Rightarrow> nat \<Rightarrow> 's \<Rightarrow> (nat list \<times> 's) res" where
  "get_many get 0 s = Inr ([], s)"
| "get_many get (Suc n) s =
     bind_res (get s) (\<lambda>(i, s'). bind_res (get_many get n s') (\<lambda>(is, s''). Inr (i # is, s'')))"

locale req_pool =
  fixes invar :: "'s \<Rightarrow> bool"
    and slots :: "'s \<Rightarrow> nat set"
    and free :: "'s \<Rightarrow> nat set"
    and get :: "'s \<Rightarrow> (nat \<times> 's) res"
    and put :: "nat \<Rightarrow> 's \<Rightarrow> 's res"
  assumes free_slots: "free s \<subseteq> slots s" and slots_finite: "finite (slots s)"
    and get_exhausted: "invar s \<Longrightarrow> free s = {} \<Longrightarrow> get s = Inl (Exit 1)"
    and get_free: "invar s \<Longrightarrow> free s \<noteq> {} \<Longrightarrow>
      \<exists>i s'. get s = Inr (i, s') \<and> i \<in> free s \<and> invar s' \<and> free s' = free s - {i} \<and> slots s' = slots s"
    and put_back: "invar s \<Longrightarrow> i \<in> slots s \<Longrightarrow> i \<notin> free s \<Longrightarrow>
      \<exists>s'. put i s = Inr s' \<and> invar s' \<and> free s' = insert i (free s) \<and> slots s' = slots s"
begin

lemma free_finite: "finite (free s)"
  using free_slots slots_finite finite_subset by blast

text \<open>As many requests as there are free slots are handed out, no slot twice; one more ends the program.\<close>

lemma get_many_ok:
  "invar s \<Longrightarrow> n \<le> card (free s) \<Longrightarrow>
     \<exists>is s'. get_many get n s = Inr (is, s') \<and> distinct is \<and> length is = n \<and> set is \<subseteq> free s
       \<and> invar s' \<and> free s' = free s - set is"
proof (induction n arbitrary: s)
  case (Suc n)
  then have "free s \<noteq> {}" by auto
  from get_free [OF Suc.prems(1) this] obtain i s1
    where g: "get s = Inr (i, s1)" "i \<in> free s" "invar s1" "free s1 = free s - {i}" by blast
  then have "n \<le> card (free s1)" using Suc.prems(2) free_finite by simp
  from Suc.IH [OF g(3) this] obtain "is" s' where "get_many get n s1 = Inr (is, s')" "distinct is"
    "length is = n" "set is \<subseteq> free s1" "invar s'" "free s' = free s1 - set is" by blast
  with g show ?case by (intro exI [of _ "i # is"] exI [of _ s']) auto
qed simp

lemma get_many_exhausted: "invar s \<Longrightarrow> card (free s) < n \<Longrightarrow> get_many get n s = Inl (Exit 1)"
proof (induction n arbitrary: s)
  case (Suc n)
  show ?case
  proof (cases "free s = {}")
    case False
    from get_free [OF Suc.prems(1) this] obtain i s1
      where g: "get s = Inr (i, s1)" "i \<in> free s" "invar s1" "free s1 = free s - {i}" by blast
    then have "card (free s) = Suc (card (free s1))"
      using card.remove [OF free_finite [of s]] by simp
    then have "card (free s1) < n" using Suc.prems(2) by simp
    from Suc.IH [OF g(3) this] g(1) show ?thesis by simp
  qed (simp add: get_exhausted Suc.prems(1))
qed simp

lemma get_put:
  assumes "invar s" "free s \<noteq> {}"
  shows "\<exists>i s' s''. get s = Inr (i, s') \<and> i \<in> free s \<and> put i s' = Inr s'' \<and> invar s'' \<and> free s'' = free s"
proof -
  from get_free [OF assms] obtain i s'
    where g: "get s = Inr (i, s')" "i \<in> free s" "invar s'" "free s' = free s - {i}" "slots s' = slots s"
    by blast
  moreover from g free_slots have "i \<in> slots s'" by blast
  ultimately show ?thesis using put_back [of s' i] by (auto simp: insert_absorb)
qed

end

interpretation slab: req_pool slab_ok "\<lambda>p. {..<length (p_reqs p)}" slab_free processor_get_req
  "\<lambda>i. processor_free_req (Slab_Req i)"
proof unfold_locales
  fix p :: "('h, 'w) processor" and i :: nat
  show "slab_free p \<subseteq> {..<length (p_reqs p)}" by (auto simp: slab_free_def)
  show "slab_ok p \<Longrightarrow> slab_free p = {} \<Longrightarrow> processor_get_req p = Inl (Exit 1)"
    by (rule get_req_exhausted)
  show "slab_ok p \<Longrightarrow> slab_free p \<noteq> {} \<Longrightarrow> \<exists>i p'. processor_get_req p = Inr (i, p') \<and> i \<in> slab_free p
      \<and> slab_ok p' \<and> slab_free p' = slab_free p - {i} \<and> {..<length (p_reqs p')} = {..<length (p_reqs p)}"
    using get_req_ok [of p] by fastforce
  show "slab_ok p \<Longrightarrow> i \<in> {..<length (p_reqs p)} \<Longrightarrow> i \<notin> slab_free p \<Longrightarrow>
      \<exists>p'. processor_free_req (Slab_Req i) p = Inr p' \<and> slab_ok p' \<and> slab_free p' = insert i (slab_free p)
        \<and> {..<length (p_reqs p')} = {..<length (p_reqs p)}"
    using free_req_ok [of p i] by (simp add: freed_def)
qed simp

text \<open>The slab as \<open>processor_setup\<close> builds it.\<close>

lemma chain_upt: "(\<And>i. i < n \<Longrightarrow> nx i = (if Suc i < n then Some (Suc i) else None)) \<Longrightarrow>
    k < n \<Longrightarrow> chain nx (Some k) [k..<n]"
proof (induction "n - k" arbitrary: k)
  case (Suc m)
  show ?case
  proof (cases "Suc k < n")
    case True
    have "chain nx (Some (Suc k)) [Suc k..<n]"
      using Suc.hyps(2) True by (intro Suc.hyps(1) Suc.prems(1)) auto
    with True Suc.prems show ?thesis by (simp add: upt_conv_Cons)
  next
    case False
    with Suc.prems show ?thesis by (simp add: upt_conv_Cons)
  qed
qed simp

definition slab_fresh :: "'h hasher \<Rightarrow> nat \<Rightarrow> ('h, 'w) processor \<Rightarrow> bool" where
  "slab_fresh h0 n p \<longleftrightarrow> slab_init h0 n = Inr (p_reqs p) \<and> p_reqs_list p = Some 0
     \<and> p_nr_free_reqs p = of_nat n"

lemma slab_fresh_ok:
  assumes "slab_fresh h0 n p"
  shows "slab_ok p" "slab_free p = {..<n}" "length (p_reqs p) = n"
proof -
  have n: "0 < n" and rs: "p_reqs p =
      (map (slab_entry h0) [0..<n])[n - 1 := (slab_entry h0 (n - 1))\<lparr>pr_next := None\<rparr>]"
    using assms by (auto simp: slab_fresh_def slab_init_def split: if_splits)
  then show len: "length (p_reqs p) = n" by simp
  have nth: "p_reqs p ! i = (slab_entry h0 i)\<lparr>pr_next := if Suc i < n then Some (Suc i) else None\<rparr>"
    if "i < n" for i
    using that by (auto simp: rs nth_list_update slab_entry_def)
  then show free: "slab_free p = {..<n}"
    by (auto simp: slab_free_def len slab_entry_def)
  have "slab_next p i = (if Suc i < n then Some (Suc i) else None)" if "i < n" for i
    unfolding slab_next_def nth [OF that] by simp
  then have "chain (slab_next p) (Some 0) [0..<n]"
    using n by (rule chain_upt)
  then have "free_list p [0..<n]"
    using assms unfolding free_list_def free slab_fresh_def by (simp add: atLeast0LessThan)
  moreover have "slab_slot_ok (p_reqs p ! i) i" if "i < length (p_reqs p)" for i
    using that unfolding len by (simp only: nth) (simp add: slab_slot_ok_def slab_entry_def)
  ultimately show "slab_ok p" unfolding slab_ok_def by blast
qed

section \<open>Properties\<close>

text \<open>
  C8.  The slab of \<open>n\<close> requests that \<open>processor_setup\<close> builds hands out \<open>n\<close> requests, every slot
  exactly once, and the assertion that a slot is not in flight never fails; asking for one more
  ends the whole program.
\<close>

theorem slab_capacity:
  assumes "slab_fresh h0 n p"
  shows "\<exists>is p'. get_many processor_get_req n p = Inr (is, p') \<and> distinct is \<and> set is = {..<n}
    \<and> get_many processor_get_req (n + 1) p = Inl (Exit 1)"
proof -
  note ok = slab_fresh_ok [OF assms]
  from slab.get_many_ok [of p n] ok obtain "is" p' where
    g: "get_many processor_get_req n p = Inr (is, p')" "distinct is" "length is = n" "set is \<subseteq> {..<n}"
    by auto
  then have "card (set is) = card {..<n}" by (simp add: distinct_card)
  with g(4) have "set is = {..<n}" by (intro card_subset_eq) auto
  with g slab.get_many_exhausted [of p "n + 1"] ok show ?thesis by auto
qed

text \<open>
  C13.  Getting and freeing keep the slab well formed: the free list is a finite, duplicate-free
  chain through exactly the slots not in flight, with their number in \<open>nr_free_reqs\<close>.  With a free
  slot, \<open>processor_get_req\<close> hands out one of them, marked in flight, reset and pointing back to its
  container; freeing it makes the same slots free again.  Without one the program exits.
\<close>

theorem slab_get_free:
  assumes "slab_ok p"
  shows "if slab_free p = {} then processor_get_req p = Inl (Exit 1)
    else \<exists>i p' p''. processor_get_req p = Inr (i, p') \<and> i \<in> slab_free p
      \<and> slab_ok p' \<and> slab_free p' = slab_free p - {i}
      \<and> rq_callback (req_at (Slab_Req i) p') = CB_NULL \<and> rq_data2 (req_at (Slab_Req i) p') = Data_Slab i
      \<and> processor_free_req (Slab_Req i) p' = Inr p'' \<and> slab_ok p'' \<and> slab_free p'' = slab_free p"
proof (cases "slab_free p = {}")
  case False
  from get_req_ok [OF assms False] obtain i p' where
    g: "i \<in> slab_free p" "processor_get_req p = Inr (i, p')" "slab_ok p'" "slab_free p' = slab_free p - {i}"
      and p': "p_reqs p' = p_reqs (slot_upd i (fresh_slot i) p)"
    by (elim exE conjE) (rule that, assumption+, simp)
  from g p' have i: "i < length (p_reqs p)" "i < length (p_reqs p')" "i \<notin> slab_free p'"
    by (simp_all add: slab_free_def)
  from p' i have "rq_callback (req_at (Slab_Req i) p') = CB_NULL \<and> rq_data2 (req_at (Slab_Req i) p') = Data_Slab i"
    by (simp add: fresh_slot_def)
  moreover have "insert i (slab_free p') = slab_free p" using g by blast
  ultimately show ?thesis
    using False g free_req_ok [OF g(3) i(2,3)] by auto
qed (simp add: get_req_exhausted [OF assms])

definition sample_quic_stream :: quic_stream where
  "sample_quic_stream = \<lparr>qs_stream_id = - 1, qs_data = [], qs_datalen = 0, qs_nwrite = 0\<rparr>"

definition sample_verifier :: "'w \<Rightarrow> 'w verifier" where
  "sample_verifier w =
     \<lparr>v_conn_req = ev_io_req_zero, v_recv_req = ev_io_req_zero, v_timer_req = ev_io_req_zero,
      v_expiry = (0, 0), v_readbuf = replicate 65535 0, v_slots = replicate 4 sample_quic_stream,
      v_conn = False, v_last_error = 0, v_remote_addr_len = 0, v_sock_fd = 0, v_world = w\<rparr>"

definition sample_processor :: "'h \<Rightarrow> 'w \<Rightarrow> nat \<Rightarrow> ('h, 'w) processor" where
  "sample_processor h w n =
     \<lparr>p_queue_efd = 5, p_verifier = sample_verifier w, p_buffers = (\<lambda>_. replicate READ_BUF_SIZE 0),
      p_reqs = (case slab_init \<lparr>blake = h\<rparr> n of Inl _ \<Rightarrow> [] | Inr rs \<Rightarrow> rs), p_reqs_list = Some 0,
      p_nr_free_reqs = of_nat n, p_queue_poll_req = ev_io_req_zero, p_loop = sample_loop,
      p_nr_tasks = of_nat n, p_id = 0, p_heap = Map.empty, p_strdups = 0, p_strdup_ok = (\<lambda>_. True),
      p_queue = sample_queue, p_fds = Map.empty, p_stdout = [], p_closed = [],
      p_remote_addr = None\<rparr>"

lemma sample_processor_fresh: "0 < n \<Longrightarrow> slab_fresh \<lparr>blake = h\<rparr> n (sample_processor h w n)"
  by (simp add: slab_fresh_def sample_processor_def slab_init_def)

theorem slab_capacity_witness:
  "\<exists>is p'. get_many processor_get_req 32 (sample_processor () () 32) = Inr (is, p') \<and> distinct is
     \<and> set is = {..<32} \<and> get_many processor_get_req 33 (sample_processor () () 32) = Inl (Exit 1)"
  using slab_capacity [OF sample_processor_fresh [of 32 "()" "()"]] by simp

theorem slab_get_free_witness:
  "slab_ok (sample_processor () () 1) \<and>
   (\<exists>p' p''. processor_get_req (sample_processor () () 1) = Inr (0, p') \<and> slab_free p' = {}
      \<and> processor_free_req (Slab_Req 0) p' = Inr p'' \<and> slab_ok p'' \<and> slab_free p'' = {0})"
proof -
  have ok: "slab_ok (sample_processor () () 1)" "slab_free (sample_processor () () 1) = {0}"
    using slab_fresh_ok [OF sample_processor_fresh [of 1 "()" "()"]] by auto
  from slab_get_free [OF ok(1)] ok show ?thesis by auto
qed

end
