(* ===== verification/Verifier.thy ===== *)
theory Verifier
  imports Processor_Slab
begin

text \<open>
  The verifier client of a processor thread, \<open>verifier.c\<close>: the callbacks that create and connect
  the UDP socket, read from it, and keep the QUIC timer.  The handlers run on the processor that
  holds the verifier, since they submit to its event loop and take requests from its slab.  A
  handler gets the pointer to the request that completed.  Logging is left out, as are the socket
  addresses, of which only the lengths matter here.
\<close>

section \<open>Definitions\<close>

definition AF_INET :: i32 where "AF_INET = 2"
definition SOCK_DGRAM :: u64 where "SOCK_DGRAM = 2"
definition IPPROTO_UDP :: u32 where "IPPROTO_UDP = 17"

text \<open>\<open>sizeof(struct sockaddr_in)\<close> and \<open>sizeof(verifier->readbuf)\<close>\<close>

definition SOCKADDR_IN_SIZE :: u32 where "SOCKADDR_IN_SIZE = 16"
definition READBUF_SIZE :: u32 where "READBUF_SIZE = 65535"

abbreviation verifier_upd ::
  "('w verifier \<Rightarrow> 'w verifier) \<Rightarrow> ('h, 'w) processor \<Rightarrow> ('h, 'w) processor" where
  "verifier_upd f p \<equiv> p\<lparr>p_verifier := f (p_verifier p)\<rparr>"

definition init_addr :: "'w quic \<Rightarrow> ('h, 'w) processor \<Rightarrow> ('h, 'w) processor res" where
  "init_addr X p =
     (case p_remote_addr p of
        Some _ \<Rightarrow> Inr p
      | None \<Rightarrow>
          (case getaddrinfo X (v_world (p_verifier p)) of
             (Inl _, _) \<Rightarrow> Inl (Exit 1)
           | (Inr len, w') \<Rightarrow>
               Inr (p\<lparr>p_remote_addr := Some len, p_verifier := (p_verifier p)\<lparr>v_world := w'\<rparr>\<rparr>)))"

text \<open>The result of \<open>verifier_quic_handle_expiry\<close> is dropped.\<close>

definition on_socket_timeout :: "'w quic \<Rightarrow> req_ptr \<Rightarrow> ('h, 'w) processor \<Rightarrow> ('h, 'w) processor res" where
  "on_socket_timeout X ptr p =
     bind_res (as_verifier (rq_data (req_at ptr p))) (\<lambda>_.
     bind_res (verifier_quic_handle_expiry X (p_verifier p)) (\<lambda>(_, v). Inr (p\<lparr>p_verifier := v\<rparr>)))"

definition on_socket_timeout_update :: "req_ptr \<Rightarrow> ('h, 'w) processor \<Rightarrow> ('h, 'w) processor res" where
  "on_socket_timeout_update ptr p = processor_free_req ptr p"

text \<open>
  \<open>verifier_flush_egress\<close>: \<open>timeout_nsec\<close> is a \<open>ssize_t\<close>, the divisor \<open>NGTCP2_SECONDS\<close> a 64-bit unsigned
  number.  The first call arms the verifier's own timer request, every later one takes a request
  from the slab to update it.
\<close>

definition arm_timer :: "('h, 'w) processor \<Rightarrow> (req_ptr \<times> ('h, 'w) processor) res" where
  "arm_timer p =
     (if rq_opcode (req_at Timer_Req p) = IORING_OP_TIMEOUT then
        bind_res (processor_get_req p) (\<lambda>(i, p1).
          Inr (Slab_Req i, req_upd (Slab_Req i) (\<lambda>r. r\<lparr>rq_opcode := IORING_OP_TIMEOUT_REMOVE,
             rq_flags := IORING_TIMEOUT_UPDATE, rq_addr := Addr Obj_Verifier, rq_off := Addr Obj_Expiry,
             rq_callback := CB_on_socket_timeout_update\<rparr>) p1))
      else
        Inr (Timer_Req, req_upd Timer_Req (\<lambda>r. r\<lparr>rq_opcode := IORING_OP_TIMEOUT, rq_addr := Addr Obj_Expiry,
             rq_off := Num 0, rq_flags := 0, rq_callback := CB_on_socket_timeout,
             rq_data := Data_Verifier\<rparr>) p))"

definition verifier_flush_egress :: "'w quic \<Rightarrow> ('h, 'w) processor \<Rightarrow> ('h, 'w) processor res" where
  "verifier_flush_egress X p =
     bind_res (verifier_quic_flush X (p_verifier p)) (\<lambda>(timeout, v).
       if sint timeout < 0 then Inl (Exit 1)
       else
         let timeout_sec = timeout div NGTCP2_SECONDS;
             timeout_nsec = timeout - timeout_sec * NGTCP2_SECONDS;
             p1 = p\<lparr>p_verifier := v\<lparr>v_expiry := (timeout_sec, timeout_nsec)\<rparr>\<rparr>
         in bind_res (arm_timer p1) (\<lambda>(ptr, p2).
              iou_submit ptr (req_upd ptr (\<lambda>r. r\<lparr>rq_fd := 0, rq_len := 1\<rparr>) p2)))"

definition on_socket_read :: "'w quic \<Rightarrow> req_ptr \<Rightarrow> ('h, 'w) processor \<Rightarrow> ('h, 'w) processor res" where
  "on_socket_read X ptr p =
     (let req = req_at ptr p in
      bind_res (as_verifier (rq_data req)) (\<lambda>_.
      if sint (rq_result req) < 0 then Inl (Exit 1)
      else bind_res (verifier_quic_read X (scast (rq_result req)) (p_verifier p)) (\<lambda>(_, v).
           bind_res (iou_submit Recv_Req (p\<lparr>p_verifier := v\<rparr>)) (verifier_flush_egress X))))"

definition on_socket_connect :: "'w quic \<Rightarrow> req_ptr \<Rightarrow> ('h, 'w) processor \<Rightarrow> ('h, 'w) processor res" where
  "on_socket_connect X ptr p =
     (let req = req_at ptr p in
      if sint (rq_result req) < 0 then Inl (Exit 1)
      else bind_res (as_verifier (rq_data req)) (\<lambda>_.
           bind_res (verifier_quic_init X (p_verifier p)) (\<lambda>(rv, v).
             if rv \<noteq> 0 then Inl (Exit 1)
             else
               let p1 = req_upd Recv_Req (\<lambda>r. r\<lparr>rq_opcode := IORING_OP_READ, rq_fd := v_sock_fd v,
                          rq_addr := Addr Obj_Readbuf, rq_off := Num 0, rq_len := READBUF_SIZE,
                          rq_flags := 0, rq_callback := CB_on_socket_read, rq_data := Data_Verifier\<rparr>)
                          (p\<lparr>p_verifier := v\<rparr>)
               in bind_res (iou_submit Recv_Req p1) (verifier_flush_egress X))))"

text \<open>The address is copied into a \<open>struct sockaddr_in\<close>.\<close>

definition on_socket_create :: "'w quic \<Rightarrow> req_ptr \<Rightarrow> ('h, 'w) processor \<Rightarrow> ('h, 'w) processor res" where
  "on_socket_create X ptr p =
     (let req = req_at ptr p in
      bind_res (as_verifier (rq_data req)) (\<lambda>_.
      if sint (rq_result req) < 0 then Inl (Exit 1)
      else
        let fd = rq_result req in
        (case getsockname X fd (v_world (p_verifier p)) of
           (r, w') \<Rightarrow>
             if r \<noteq> 0 then Inl (Exit 1)
             else
               (case p_remote_addr p of
                  None \<Rightarrow> Inl Null_Deref
                | Some len \<Rightarrow>
                    if SOCKADDR_IN_SIZE < len then Inl Out_Of_Bounds
                    else iou_submit Conn_Req
                      (req_upd Conn_Req (\<lambda>r. r\<lparr>rq_opcode := IORING_OP_CONNECT, rq_fd := fd,
                         rq_addr := Addr Obj_Remote_Addr, rq_off := Num (ucast len), rq_len := 0,
                         rq_flags := 0, rq_callback := CB_on_socket_connect, rq_data := Data_Verifier\<rparr>)
                      (verifier_upd (\<lambda>v. v\<lparr>v_sock_fd := fd, v_world := w', v_remote_addr_len := len\<rparr>) p))))))"

definition verifier_connect :: "('h, 'w) processor \<Rightarrow> ('h, 'w) processor res" where
  "verifier_connect p =
     iou_submit Conn_Req
       (req_upd Conn_Req (\<lambda>r. r\<lparr>rq_opcode := IORING_OP_SOCKET, rq_fd := AF_INET, rq_off := Num SOCK_DGRAM,
          rq_len := IPPROTO_UDP, rq_flags := 0, rq_callback := CB_on_socket_create,
          rq_data := Data_Verifier\<rparr>) p)"

text \<open>\<open>memset(&processor.verifier, 0, sizeof(struct verifier))\<close>; the external world is not part of it.\<close>

definition verifier_zero :: "'w \<Rightarrow> 'w verifier" where
  "verifier_zero w =
     \<lparr>v_conn_req = ev_io_req_zero, v_recv_req = ev_io_req_zero, v_timer_req = ev_io_req_zero,
      v_expiry = (0, 0), v_readbuf = replicate 65535 0,
      v_slots = replicate MAX_CONCURRENT_WRITES
        \<lparr>qs_stream_id = 0, qs_data = replicate STREAM_DATA_SIZE 0, qs_datalen = 0, qs_nwrite = 0\<rparr>,
      v_conn = False, v_last_error = 0, v_remote_addr_len = 0, v_sock_fd = 0, v_world = w\<rparr>"

definition verifier_init :: "'w quic \<Rightarrow> ('h, 'w) processor \<Rightarrow> ('h, 'w) processor res" where
  "verifier_init X p =
     (let p1 = verifier_upd (\<lambda>v. v\<lparr>v_timer_req := (v_timer_req v)\<lparr>rq_opcode := 0\<rparr>,
                 v_slots := map (\<lambda>s. s\<lparr>qs_stream_id := - 1\<rparr>) (v_slots v)\<rparr>) p in
      bind_res (init_addr X p1) (\<lambda>p2.
      bind_res (verifier_ssl_init X (p_verifier p2)) (\<lambda>(_, v).
        verifier_connect (p2\<lparr>p_verifier := v\<lparr>v_conn_req := ev_io_req_zero\<rparr>\<rparr>))))"

end
