(* ===== verification/Processor.thy ===== *)
theory Processor
  imports Verifier
begin

text \<open>
  A processor thread, \<open>processor.c\<close>: it waits for the event queue with a poll request, opens the
  file of each event, reads it in blocks into the hash, and prints and sends the digest at the end
  of the file.  Every callback of the program is a handler on the processor state; \<open>dispatch\<close> calls
  them for a completion as \<open>ev_loop_run\<close> does.  Logging is left out.
\<close>

section \<open>Printing\<close>

definition hexdigits :: string where "hexdigits = ''0123456789abcdef''"

definition hex_byte :: "u8 \<Rightarrow> string" where
  "hex_byte b = [hexdigits ! unat (drop_bit 4 b), hexdigits ! unat (b AND 0x0F)]"

definition hex :: "u8 list \<Rightarrow> string" where
  "hex bs = concat (map hex_byte bs)"

text \<open>\<open>printf("%s")\<close> of a pointer; the C library prints a null pointer as here.\<close>

definition show_str :: "(nat \<rightharpoonup> string) \<Rightarrow> nat option \<Rightarrow> string res" where
  "show_str heap a =
     (case a of
        None \<Rightarrow> Inr ''(null)''
      | Some k \<Rightarrow> (case heap k of None \<Rightarrow> Inl Out_Of_Bounds | Some s \<Rightarrow> Inr s))"

text \<open>The two formats of \<open>processor_print_hash\<close>.\<close>

definition line_head :: "i32 \<Rightarrow> u32 \<Rightarrow> string \<Rightarrow> string" where
  \<open>line_head pid rid path =
     ''{ "processor": '' @ show_int (sint pid) @ '', "req_id": '' @ show_int (sint rid)
     @ '', "file": "'' @ path @ ''", "hash": "''\<close>

definition line_tail :: string where
  \<open>line_tail = ''" }'' @ [CHR 0x0A]\<close>

text \<open>
  \<open>processor_print_hash\<close> with its buffer of \<open>OUTPUT_MAX_SIZE\<close> bytes.  \<open>snprintf\<close> returns the length of
  the whole text even if it was cut, so the digits and the tail go to the indices behind it; they
  must lie inside the buffer, the tail with its terminator.
\<close>

definition processor_print_hash ::
  "nat \<Rightarrow> u8 list \<Rightarrow> ('h, 'w) processor \<Rightarrow> ('h, 'w) processor res" where
  "processor_print_hash i hash p =
     (let wreq = p_reqs p ! i in
      bind_res (show_str (p_heap p) (pr_data wreq)) (\<lambda>path.
        let hd = line_head (p_id p) (pr_id wreq) path; mlen = length hd in
        if OUTPUT_MAX_SIZE < mlen + 2 * HASH_LEN then Inl Out_Of_Bounds
        else
          let mlen2 = mlen + 2 * HASH_LEN in
          if OUTPUT_MAX_SIZE < mlen2 + length line_tail + 1 then Inl Out_Of_Bounds
          else Inr (p\<lparr>p_stdout := p_stdout p @ [hd @ hex (take HASH_LEN hash) @ line_tail]\<rparr>)))"

section \<open>Handlers\<close>

definition AT_FDCWD :: i32 where "AT_FDCWD = - 100"
definition O_RDONLY :: u32 where "O_RDONLY = 0"
definition EPOLLIN :: u32 where "EPOLLIN = 1"
definition EPOLLEXCLUSIVE :: u32 where "EPOLLEXCLUSIVE = 0x10000000"

text \<open>
  \<open>strdup\<close> reads the array up to its terminator and allocates a block; \<open>None\<close> is a null pointer.
  \<open>free\<close> of a null pointer does nothing, of a block that is not allocated it is a fault.
\<close>

definition strdup :: "string \<Rightarrow> ('h, 'w) processor \<Rightarrow> (nat option \<times> ('h, 'w) processor) res" where
  "strdup s p =
     (if NUL \<notin> set s then Inl Out_Of_Bounds
      else
        let k = p_strdups p in
        if p_strdup_ok p k
        then Inr (Some k, p\<lparr>p_strdups := k + 1, p_heap := (p_heap p)(k \<mapsto> cstr s)\<rparr>)
        else Inr (None, p\<lparr>p_strdups := k + 1\<rparr>))"

definition free_path :: "nat option \<Rightarrow> ('h, 'w) processor \<Rightarrow> ('h, 'w) processor res" where
  "free_path a p =
     (case a of
        None \<Rightarrow> Inr p
      | Some k \<Rightarrow> if p_heap p k = None then Inl Out_Of_Bounds else Inr (p\<lparr>p_heap := (p_heap p)(k := None)\<rparr>))"

definition processor_submit_poll_reqs :: "('h, 'w) processor \<Rightarrow> ('h, 'w) processor res" where
  "processor_submit_poll_reqs p = iou_submit Queue_Poll_Req p"

text \<open>
  The common end of the file handlers: \<open>free\<close> the path, reset \<open>data\<close> and \<open>data2\<close> of the slot, and
  give the request back.
\<close>

definition release :: "req_ptr \<Rightarrow> nat \<Rightarrow> ('h, 'w) processor \<Rightarrow> ('h, 'w) processor res" where
  "release ptr i p =
     bind_res (free_path (pr_data (p_reqs p ! i)) p) (\<lambda>p1.
       processor_free_req ptr (slot_upd i (\<lambda>r. r\<lparr>pr_data := None, pr_data2 := 0\<rparr>) p1))"

text \<open>The bytes a request's \<open>addr\<close> points to when it is a read buffer.\<close>

definition buffer_at :: "('h, 'w) processor \<Rightarrow> uval \<Rightarrow> u8 list res" where
  "buffer_at p a = (case a of Addr (Obj_Buffer k) \<Rightarrow> Inr (p_buffers p k) | _ \<Rightarrow> Inl Out_Of_Bounds)"

definition path_bytes :: "(nat \<rightharpoonup> string) \<Rightarrow> nat option \<Rightarrow> u8 list res" where
  "path_bytes heap a =
     (case a of
        None \<Rightarrow> Inl Null_Deref
      | Some k \<Rightarrow> (case heap k of None \<Rightarrow> Inl Out_Of_Bounds | Some s \<Rightarrow> Inr (map of_char (s @ [NUL]))))"

text \<open>\<open>off += result\<close>; \<open>off\<close> of a file request holds a number.\<close>

definition add_off :: "uval \<Rightarrow> i32 \<Rightarrow> uval res" where
  "add_off u n = (case u of Num k \<Rightarrow> Inr (Num (k + scast n)) | Addr _ \<Rightarrow> Inl Out_Of_Bounds)"

definition on_file_read ::
  "'h blake3 \<Rightarrow> 'w quic \<Rightarrow> req_ptr \<Rightarrow> ('h, 'w) processor \<Rightarrow> ('h, 'w) processor res" where
  "on_file_read B X ptr p =
     (let req = req_at ptr p in
      bind_res (as_processor (rq_data req)) (\<lambda>_.
      bind_res (as_slab p (rq_data2 req)) (\<lambda>i.
      let cleanup = (\<lambda>p. bind_res (release ptr i p) (\<lambda>p'. Inr (p'\<lparr>p_closed := p_closed p' @ [rq_fd req]\<rparr>))) in
      if sint (rq_result req) < 0 then cleanup p
      else
        bind_res (buffer_at p (rq_addr req)) (\<lambda>buf.
        if length buf < unat (rq_result req) then Inl Out_Of_Bounds
        else
          let h = hasher_update B (pr_hasher (p_reqs p ! i)) (unat (rq_result req)) buf;
              p1 = slot_upd i (\<lambda>r. r\<lparr>pr_hasher := h\<rparr>) p
          in
          if rq_result req = 0 then
            let hash = hasher_finalize B h HASH_LEN in
            bind_res (processor_print_hash i hash p1) (\<lambda>p2.
            bind_res (path_bytes (p_heap p2) (pr_data (p_reqs p2 ! i))) (\<lambda>path.
            bind_res (verifier_verify_hash X (pr_data2 (p_reqs p2 ! i)) path (of_nat HASH_LEN) hash (p_verifier p2))
              (\<lambda>v. cleanup (p2\<lparr>p_verifier := v\<rparr>))))
          else
            bind_res (add_off (rq_off req) (rq_result req)) (\<lambda>off.
              iou_submit ptr (req_upd ptr (\<lambda>r. r\<lparr>rq_off := off\<rparr>) p1))))))"

definition on_file_open ::
  "'h blake3 \<Rightarrow> req_ptr \<Rightarrow> ('h, 'w) processor \<Rightarrow> ('h, 'w) processor res" where
  "on_file_open B ptr p =
     (let req = req_at ptr p in
      bind_res (as_processor (rq_data req)) (\<lambda>_.
      bind_res (as_slab p (rq_data2 req)) (\<lambda>i.
      if sint (rq_result req) < 0 then release ptr i p
      else
        let p1 = req_upd ptr (\<lambda>r. r\<lparr>rq_opcode := IORING_OP_READ, rq_fd := rq_result r,
                   rq_addr := Addr (Obj_Buffer (pr_buffer (p_reqs p ! i))), rq_len := of_nat READ_BUF_SIZE,
                   rq_off := Num 0, rq_callback := CB_on_file_read\<rparr>) p;
            p2 = slot_upd i (\<lambda>r. r\<lparr>pr_hasher := hasher_init B (pr_hasher r)\<rparr>) p1
        in iou_submit ptr p2)))"

text \<open>
  The part of \<open>on_queue_event\<close> that opens the file of an event.  The path pointer is stored in the
  request and in the slot before it is tested.
\<close>

definition open_slot :: "event \<Rightarrow> nat \<Rightarrow> ('h, 'w) processor \<Rightarrow> ('h, 'w) processor res" where
  "open_slot event i p =
     bind_res (strdup (ev_path event) p) (\<lambda>(a, p1).
       let addr = (case a of None \<Rightarrow> Num 0 | Some k \<Rightarrow> Addr (Obj_Path k));
           p2 = req_upd (Slab_Req i) (\<lambda>r. r\<lparr>rq_opcode := IORING_OP_OPENAT, rq_fd := AT_FDCWD, rq_addr := addr,
                  rq_len := 0, rq_flags := O_RDONLY, rq_callback := CB_on_file_open\<rparr>) p1;
           p3 = slot_upd i (\<lambda>r. r\<lparr>pr_data := a, pr_data2 := ev_path_len event\<rparr>) p2
       in if a = None then Inl (Exit 1) else iou_submit (Slab_Req i) p3)"

definition open_event :: "event \<Rightarrow> ('h, 'w) processor \<Rightarrow> ('h, 'w) processor res" where
  "open_event event p = bind_res (processor_get_req p) (\<lambda>(i, p1). open_slot event i p1)"

text \<open>The code at the label \<open>arm\<close>, and the part between the guards and that label.\<close>

definition arm_poll :: "req_ptr \<Rightarrow> ('h, 'w) processor \<Rightarrow> ('h, 'w) processor res" where
  "arm_poll ptr p =
     (if rq_result_flags (req_at ptr p) AND IORING_CQE_F_MORE = 0 then processor_submit_poll_reqs p else Inr p)"

definition consume_event ::
  "req_ptr \<Rightarrow> nat \<times> event \<times> queue \<times> fdtable \<Rightarrow> ('h, 'w) processor \<Rightarrow> ('h, 'w) processor res" where
  "consume_event ptr c p =
     (case c of (ret, event, q, t) \<Rightarrow>
        let p1 = p\<lparr>p_queue := q, p_fds := t\<rparr> in
        if ret \<noteq> 0 \<and> ret \<noteq> EAGAIN then arm_poll ptr p1
        else bind_res (open_event event p1) (arm_poll ptr))"

definition on_queue_event :: "req_ptr \<Rightarrow> ('h, 'w) processor \<Rightarrow> ('h, 'w) processor res" where
  "on_queue_event ptr p =
     (let req = req_at ptr p in
      bind_res (as_processor (rq_data req)) (\<lambda>_.
      if sint (rq_result req) < 0 then
        (if rq_result req = - of_nat EBADF \<or> rq_result req = - of_nat EINVAL then Inl (Exit 1)
         else processor_submit_poll_reqs p)
      else
        bind_res (queue_consume_try (p_fds p) (rq_fd req) event_zero (p_queue p)) (\<lambda>c. consume_event ptr c p)))"

section \<open>Setup and the loop\<close>

definition processor_prepare_poll_reqs :: "('h, 'w) processor \<Rightarrow> ('h, 'w) processor" where
  "processor_prepare_poll_reqs p =
     p\<lparr>p_queue_poll_req := ev_io_req_zero\<lparr>rq_opcode := IORING_OP_POLL_ADD, rq_fd := p_queue_efd p,
        rq_callback := CB_on_queue_event, rq_flags := EPOLLIN OR EPOLLEXCLUSIVE,
        rq_len := IORING_POLL_ADD_MULTI, rq_data := Data_Processor\<rparr>\<rparr>"

text \<open>
  \<open>processor_setup\<close>: whether the two allocations succeed, what the zeroed memory of a hasher holds,
  and what the kernel returns for the rings are arguments.
\<close>

definition processor_setup ::
  "bool \<Rightarrow> bool \<Rightarrow> 'h hasher \<Rightarrow> iou_setup \<Rightarrow> processor_args \<Rightarrow> ('h, 'w) processor \<Rightarrow> ('h, 'w) processor res" where
  "processor_setup buffers_ok reqs_ok h0 k wargs p =
     (if \<not> buffers_ok \<or> \<not> reqs_ok then Inl (Exit 1)
      else
        bind_res (slab_init h0 (unat (wa_io_concurrency wargs))) (\<lambda>rs.
        bind_res (ev_loop_init k) (\<lambda>l.
          processor_submit_poll_reqs (processor_prepare_poll_reqs
            (p\<lparr>p_id := ucast (wa_id wargs), p_nr_tasks := wa_io_concurrency wargs,
               p_queue_efd := wa_queue_eventfd wargs, p_reqs := rs, p_reqs_list := Some 0,
               p_nr_free_reqs := wa_io_concurrency wargs, p_loop := l\<rparr>)))))"

definition call_back ::
  "'h blake3 \<Rightarrow> 'w quic \<Rightarrow> callback_t \<Rightarrow> req_ptr \<Rightarrow> ('h, 'w) processor \<Rightarrow> ('h, 'w) processor res" where
  "call_back B X cb ptr p =
     (case cb of
        CB_NULL \<Rightarrow> Inl Null_Deref
      | CB_on_queue_event \<Rightarrow> on_queue_event ptr p
      | CB_on_file_open \<Rightarrow> on_file_open B ptr p
      | CB_on_file_read \<Rightarrow> on_file_read B X ptr p
      | CB_on_socket_create \<Rightarrow> on_socket_create X ptr p
      | CB_on_socket_connect \<Rightarrow> on_socket_connect X ptr p
      | CB_on_socket_read \<Rightarrow> on_socket_read X ptr p
      | CB_on_socket_timeout \<Rightarrow> on_socket_timeout X ptr p
      | CB_on_socket_timeout_update \<Rightarrow> on_socket_timeout_update ptr p)"

text \<open>One completion: its result goes into the request, then the callback runs.\<close>

definition set_result :: "io_uring_cqe \<Rightarrow> ev_io_req \<Rightarrow> ev_io_req" where
  "set_result c r = r\<lparr>rq_result := cqe_res c, rq_result_flags := cqe_flags c\<rparr>"

definition dispatch ::
  "'h blake3 \<Rightarrow> 'w quic \<Rightarrow> io_uring_cqe \<Rightarrow> ('h, 'w) processor \<Rightarrow> ('h, 'w) processor res" where
  "dispatch B X c p =
     (let ptr = cqe_user_data c in
      if (case ptr of Slab_Req i \<Rightarrow> length (p_reqs p) \<le> i | _ \<Rightarrow> False) then Inl Out_Of_Bounds
      else
        let p1 = req_upd ptr (set_result c) p
        in call_back B X (rq_callback (req_at ptr p1)) ptr p1)"

definition processor_round ::
  "'h blake3 \<Rightarrow> 'w quic \<Rightarrow> (u32 option \<Rightarrow> ('h, 'w) processor \<Rightarrow> ('h, 'w) processor) \<Rightarrow> ('h, 'w) processor
     \<Rightarrow> ('h, 'w) processor res" where
  "processor_round B X env p = ev_loop_iter p_loop p_loop_update env (dispatch B X) p"

text \<open>
  \<open>processor_run\<close> up to the endless loop, whose rounds are \<open>processor_round\<close>.  Of the fields that the
  first \<open>memset\<close> clears, those that \<open>processor_setup\<close> does not write are the verifier and the poll request.
\<close>

definition processor_start ::
  "'w quic \<Rightarrow> bool \<Rightarrow> bool \<Rightarrow> 'h hasher \<Rightarrow> iou_setup \<Rightarrow> processor_args \<Rightarrow> ('h, 'w) processor
     \<Rightarrow> ('h, 'w) processor res" where
  "processor_start X buffers_ok reqs_ok h0 k wargs p =
     (let p0 = p\<lparr>p_verifier := verifier_zero (v_world (p_verifier p)), p_queue_poll_req := ev_io_req_zero\<rparr> in
      bind_res (processor_setup buffers_ok reqs_ok h0 k wargs p0) (\<lambda>p1.
        verifier_init X (p1\<lparr>p_verifier := verifier_zero (v_world (p_verifier p1))\<rparr>)))"

text \<open>
  \<open>ev_loop_run\<close>, then the return from \<open>processor_run\<close>; \<open>None\<close> is a thread that runs forever.  In round
  \<open>n\<close> the kernel and the other threads act as \<open>te_others n\<close> on what they share with it.
\<close>

record ('h, 'w) thread_env =
  te_buffers :: bool
  te_reqs :: bool
  te_hasher :: "'h hasher"
  te_iou :: iou_setup
  te_memory :: "('h, 'w) processor"
  te_others :: "nat \<Rightarrow> u32 option \<Rightarrow> ('h, 'w) processor \<Rightarrow> ('h, 'w) processor"

partial_function (option) processor_loop ::
  "'h blake3 \<Rightarrow> 'w quic \<Rightarrow> (nat \<Rightarrow> u32 option \<Rightarrow> ('h, 'w) processor \<Rightarrow> ('h, 'w) processor) \<Rightarrow> nat
     \<Rightarrow> ('h, 'w) processor \<Rightarrow> ('h, 'w) processor res option" where
  "processor_loop B X others n p =
     (case processor_round B X (others n) p of
        Inl f \<Rightarrow> Some (Inl f)
      | Inr p' \<Rightarrow> processor_loop B X others (Suc n) p')"

definition processor_run ::
  "'h blake3 \<Rightarrow> 'w quic \<Rightarrow> ('h, 'w) thread_env \<Rightarrow> processor_args \<Rightarrow> unit res option" where
  "processor_run B X te wargs =
     (case processor_start X (te_buffers te) (te_reqs te) (te_hasher te) (te_iou te) wargs (te_memory te) of
        Inl f \<Rightarrow> Some (Inl f)
      | Inr p \<Rightarrow> map_option (\<lambda>r. bind_res r (\<lambda>_. Inr ())) (processor_loop B X (te_others te) 0 p))"

text \<open>The loop has no exit but a fault, so a thread never returns.\<close>

lemma processor_loop_no_return: "processor_loop B X others n p \<noteq> Some (Inr p')"
proof
  assume ret: "processor_loop B X others n p = Some (Inr p')"
  have "\<exists>f. y = Inl f" if "processor_loop B X others n p = Some y" for y
    by (rule processor_loop.raw_induct [where P = "\<lambda>_ _ _ _ _ y. \<exists>f. y = Inl f", OF _ that])
      (auto split: sum.splits dest: sym)
  with ret show False by blast
qed

lemma processor_run_no_return: "processor_run B X te wargs \<noteq> Some (Inr ())"
proof
  assume "processor_run B X te wargs = Some (Inr ())"
  then obtain p r where "processor_loop B X (te_others te) 0 p = Some r" "bind_res r (\<lambda>_. Inr ()) = Inr ()"
    by (auto simp: processor_run_def split: sum.splits)
  then show False by (cases r) (simp_all add: processor_loop_no_return)
qed

section \<open>The handlers as clients of the event loop\<close>

text \<open>Nothing a handler does touches the completion ring or the read buffers.\<close>

definition cq_same :: "('h, 'w) processor \<Rightarrow> ('h, 'w) processor \<Rightarrow> bool" where
  "cq_same p p' \<longleftrightarrow> cqes (p_loop p') = cqes (p_loop p) \<and> cq_head (p_loop p') = cq_head (p_loop p)
     \<and> cq_tail (p_loop p') = cq_tail (p_loop p) \<and> cq_mask (p_loop p') = cq_mask (p_loop p)
     \<and> p_buffers p' = p_buffers p"

lemma cq_same_refl [simp]: "cq_same p p"
  by (simp add: cq_same_def)

lemma cq_same_loop: "p_loop p' = p_loop p \<Longrightarrow> p_buffers p' = p_buffers p \<Longrightarrow> cq_same q p' = cq_same q p"
  by (simp add: cq_same_def)

lemma req_upd_loop [simp]:
  "p_loop (req_upd ptr f p) = p_loop p" "p_buffers (req_upd ptr f p) = p_buffers p"
  by (cases ptr; simp)+

abbreviation keeps_cq :: "('h, 'w) processor \<Rightarrow> ('h, 'w) processor res \<Rightarrow> bool" where
  "keeps_cq q r \<equiv> wp (\<lambda>_. True) (cq_same q) r"

lemma ev_iou_req_cq:
  "ev_iou_req ptr req l = Inr (r, l') \<Longrightarrow> cqes l' = cqes l \<and> cq_head l' = cq_head l
     \<and> cq_tail l' = cq_tail l \<and> cq_mask l' = cq_mask l"
  by (auto simp: ev_iou_req_def ev__iou_put_def ev__iou_submit_def io_uring_enter_def Let_def split: if_splits)

lemma wp_any: "(\<And>x. P x) \<Longrightarrow> wp (\<lambda>_. True) P r"
  by (cases r) simp_all

text \<open>Its instances for the calls that do not return a processor.\<close>

lemmas wp_other = wp_any [where 'a = unit] wp_any [where 'a = nat] wp_any [where 'a = string]
  wp_any [where 'a = "u8 list"] wp_any [where 'a = uval] wp_any [where 'a = "'v \<times> 'w verifier"]
  wp_any [where 'a = "'w verifier"] wp_any [where 'a = "nat \<times> event \<times> queue \<times> fdtable"]

lemma cq_same_simps [simp]:
  "cq_same q (req_upd ptr f p) = cq_same q p" "cq_same q (slot_upd i g p) = cq_same q p"
  "cq_same q (p\<lparr>p_verifier := v\<rparr>) = cq_same q p" "cq_same q (p\<lparr>p_stdout := out\<rparr>) = cq_same q p"
  "cq_same q (p\<lparr>p_closed := cl\<rparr>) = cq_same q p" "cq_same q (p\<lparr>p_heap := h\<rparr>) = cq_same q p"
  "cq_same q (p\<lparr>p_strdups := n\<rparr>) = cq_same q p" "cq_same q (p\<lparr>p_queue := qu\<rparr>) = cq_same q p"
  "cq_same q (p\<lparr>p_fds := t\<rparr>) = cq_same q p" "cq_same q (p\<lparr>p_reqs_list := x\<rparr>) = cq_same q p"
  "cq_same q (p\<lparr>p_nr_free_reqs := y\<rparr>) = cq_same q p"
  by (rule cq_same_loop, simp, simp)+

lemma iou_submit_cq:
  "cq_same q p \<Longrightarrow> (\<And>p'. cq_same q p' \<Longrightarrow> R p') \<Longrightarrow> wp (\<lambda>_. True) R (iou_submit ptr p)"
  by (auto simp: iou_submit_def cq_same_def intro!: wp_frame dest!: ev_iou_req_cq)

lemma get_req_cq:
  "cq_same q p \<Longrightarrow> (\<And>i p'. cq_same q p' \<Longrightarrow> R (i, p')) \<Longrightarrow> wp (\<lambda>_. True) R (processor_get_req p)"
  by (auto simp: processor_get_req_def Let_def split: option.splits)

lemma free_req_cq:
  "cq_same q p \<Longrightarrow> (\<And>p'. cq_same q p' \<Longrightarrow> R p') \<Longrightarrow> wp (\<lambda>_. True) R (processor_free_req ptr p)"
  by (auto simp: processor_free_req_def Let_def intro!: wp_other)

lemma flush_egress_cq: "cq_same q p \<Longrightarrow> keeps_cq q (verifier_flush_egress X p)"
  by (auto simp: verifier_flush_egress_def arm_timer_def Let_def
      intro!: wp_other iou_submit_cq get_req_cq simp del: req_upd.simps)

lemma socket_handlers_cq:
  assumes "cq_same q p"
  shows "keeps_cq q (on_socket_create X ptr p)" "keeps_cq q (on_socket_connect X ptr p)"
    "keeps_cq q (on_socket_read X ptr p)" "keeps_cq q (on_socket_timeout X ptr p)"
    "keeps_cq q (on_socket_timeout_update ptr p)"
  using assms
  by (auto simp: on_socket_create_def on_socket_connect_def on_socket_read_def on_socket_timeout_def
      on_socket_timeout_update_def Let_def simp del: req_upd.simps split: prod.splits option.splits
      intro!: wp_other iou_submit_cq flush_egress_cq free_req_cq)

lemma release_cq:
  "cq_same q p \<Longrightarrow> (\<And>p'. cq_same q p' \<Longrightarrow> R p') \<Longrightarrow> wp (\<lambda>_. True) R (release ptr i p)"
  by (auto simp: release_def free_path_def intro!: free_req_cq split: option.splits)

lemma open_event_cq:
  "cq_same q p \<Longrightarrow> (\<And>p'. cq_same q p' \<Longrightarrow> R p') \<Longrightarrow> wp (\<lambda>_. True) R (open_event e p)"
  by (auto simp: open_event_def open_slot_def strdup_def Let_def simp del: req_upd.simps
      intro!: get_req_cq iou_submit_cq)

lemma print_hash_cq:
  "cq_same q p \<Longrightarrow> (\<And>p'. cq_same q p' \<Longrightarrow> R p') \<Longrightarrow> wp (\<lambda>_. True) R (processor_print_hash i h p)"
  by (auto simp: processor_print_hash_def Let_def intro!: wp_other)

lemma file_handlers_cq:
  assumes "cq_same q p"
  shows "keeps_cq q (on_file_read B X ptr p)" "keeps_cq q (on_file_open B ptr p)"
    "keeps_cq q (on_queue_event ptr p)"
proof -
  show "keeps_cq q (on_file_read B X ptr p)"
    using assms by (auto simp: on_file_read_def Let_def simp del: req_upd.simps
      intro!: wp_other release_cq print_hash_cq iou_submit_cq)
  show "keeps_cq q (on_file_open B ptr p)"
    using assms by (auto simp: on_file_open_def Let_def simp del: req_upd.simps
      intro!: wp_other release_cq iou_submit_cq)
  show "keeps_cq q (on_queue_event ptr p)"
    using assms by (auto simp: on_queue_event_def consume_event_def arm_poll_def processor_submit_poll_reqs_def Let_def
      simp del: req_upd.simps intro!: wp_other open_event_cq iou_submit_cq)
qed

lemma dispatch_keeps_cq: "keeps_cq p (dispatch B X c p)"
proof -
  let ?p = "req_upd (cqe_user_data c) (set_result c) p"
  have "keeps_cq p (call_back B X cb ptr ?p)" for cb ptr
    by (cases cb) (simp_all add: call_back_def socket_handlers_cq file_handlers_cq del: req_upd.simps)
  then show ?thesis by (simp add: dispatch_def Let_def del: req_upd.simps)
qed

interpretation proc: ev_client p_loop p_loop_update "dispatch B X" for B X
proof unfold_locales
  show "p_loop (p_loop_update f p) = f (p_loop p)" for f and p :: "('a, 'b) processor" by simp
  show "cqes (p_loop p') = cqes (p_loop p) \<and> cq_head (p_loop p') = cq_head (p_loop p)
      \<and> cq_tail (p_loop p') = cq_tail (p_loop p) \<and> cq_mask (p_loop p') = cq_mask (p_loop p)"
    if "dispatch B X c p = Inr p'" for c and p p' :: "('a, 'b) processor"
    using wp_Inr_D [OF dispatch_keeps_cq that] by (simp add: cq_same_def)
qed

text \<open>
  An attempt to consume that finds the eventfd empty does not end the handler: it goes on with the
  zeroed event and opens the empty path.
\<close>

lemma eagain_opens_empty_path:
  assumes "rq_data (req_at ptr p) = Data_Processor" "0 \<le> sint (rq_result (req_at ptr p))"
    and "p_fds p (rq_fd (req_at ptr p)) = Some e" "efd_count e = 0"
  shows "on_queue_event ptr p = bind_res (open_event event_zero p) (arm_poll ptr)"
  using assms by (simp add: on_queue_event_def queue_consume_try_def eventfd_read_def consume_event_def
      as_processor_def Let_def)

text \<open>
  C14.  One round of the event loop is a fold, whatever the kernel and the other threads do meanwhile,
  as long as the completion ring only grows at its tail: the round polls, calls the callback of every
  completion the ring held when its tail was read, once each and in ring order, and hands exactly those
  entries back to the kernel; completions posted during the round stay in the ring, for the next one.
  Neither the masked 32-bit indices of the loop nor their wrapping matter.
\<close>

theorem round_is_fold:
  assumes "cq_ok (p_loop p)" and "\<And>i. posts_only p_loop (env i)"
  shows "let p1 = env None (p_loop_update (\<lambda>_. snd (ev__io_poll (p_loop p))) p);
             cs = cq_pending (p_loop p1); tail = cq_tail (p_loop p1);
             handled = fold_res (\<lambda>(k, c) q. dispatch B X c (env (Some (cq_head (p_loop p1) + of_nat k)) q))
                         (enumerate 0 cs) p1;
             hand_back = p_loop_update (\<lambda>l. l\<lparr>cq_head := tail\<rparr>)
         in processor_round B X env p = bind_res handled (\<lambda>q. Inr (hand_back (env (Some tail) q)))
          \<and> wp (\<lambda>_. True) (\<lambda>q. cq_pending (p_loop (env (Some tail) q)) =
                             cs @ cq_pending (p_loop (hand_back (env (Some tail) q)))) handled"
  unfolding Let_def processor_round_def
  using proc.iter_fold [where env = env, OF assms(2,1) refl refl refl] by blast

text \<open>
  The kernel completes a timer update while the thread waits in the poll, and another one after the
  thread has read the tail: the first is handled, the second stays.
\<close>

definition kernel_post :: "io_uring_cqe \<Rightarrow> ('h, 'w) processor \<Rightarrow> ('h, 'w) processor" where
  "kernel_post c = p_loop_update (\<lambda>l. case cq_post c l of None \<Rightarrow> l | Some l' \<Rightarrow> l')"

lemma kernel_post_posts: "posts_only p_loop (kernel_post c)"
  by (auto simp: posts_only_def kernel_post_def cq_extends_refl intro: cq_post_extends split: option.splits)

definition sample_cqe :: "nat \<Rightarrow> io_uring_cqe" where
  "sample_cqe i = \<lparr>cqe_user_data = Slab_Req i, cqe_res = 0, cqe_flags = 0\<rparr>"

definition sample_others :: "u32 option \<Rightarrow> ('h, 'w) processor \<Rightarrow> ('h, 'w) processor" where
  "sample_others i = (case i of None \<Rightarrow> kernel_post (sample_cqe 0) | Some i \<Rightarrow> if i = 2 then kernel_post (sample_cqe 1) else id)"

definition sample_waiting :: "(u8 list, u8 list list) processor" where
  "sample_waiting =
     (sample_processor [] [] 2)\<lparr>p_loop := sample_loop\<lparr>cq_head := 1\<rparr>,
       p_reqs := [(slab_entry \<lparr>blake = []\<rparr> 0)\<lparr>pr_req := ev_io_req_zero\<lparr>rq_callback := CB_on_socket_timeout_update,
                    rq_data := Data_Processor, rq_data2 := Data_Slab 0\<rparr>\<rparr>]\<rparr>"

lemma sample_waiting_loop: "p_loop sample_waiting = sample_loop\<lparr>cq_head := 1\<rparr>"
  by (simp add: sample_waiting_def)

theorem round_is_fold_witness:
  "\<exists>p'. processor_round sum_hash sample_quic sample_others sample_waiting = Inr p'
      \<and> cq_pending (p_loop p') = [sample_cqe 1]"
proof -
  have ok: "cq_ok (p_loop sample_waiting)"
    by (simp add: sample_waiting_loop cq_ok_def mring_ok_def mring_count_def sample_loop_def)
  have env: "posts_only p_loop (sample_others i)" for i :: "u32 option"
    by (cases i) (simp_all add: sample_others_def kernel_post_posts, simp add: posts_only_def cq_extends_refl)
  define p1 where "p1 = sample_others None (p_loop_update (\<lambda>_. snd (ev__io_poll (p_loop sample_waiting))) sample_waiting)"
  have ring: "cq_head (p_loop p1) = 1" "cq_tail (p_loop p1) = 2" "cq_mask (p_loop p1) = 7" "cqes (p_loop p1) (Suc 0) = sample_cqe 0"
    by (simp_all add: p1_def sample_others_def kernel_post_def sample_waiting_loop ev__io_poll_def io_uring_enter_def
        cq_post_def sample_loop_def)
  have slot: "p_reqs p1 = p_reqs sample_waiting"
    by (simp add: p1_def sample_others_def kernel_post_def)
  obtain q where q: "dispatch sum_hash sample_quic (sample_cqe 0) p1 = Inr q"
    by (simp add: dispatch_def sample_cqe_def slot sample_waiting_def call_back_def slot_upd_def set_result_def
        on_socket_timeout_update_def processor_free_req_def as_processor_def as_slab_def Let_def)
  then have cq: "cq_head (p_loop q) = 1" "cq_tail (p_loop q) = 2" "cq_mask (p_loop q) = 7" "cqes (p_loop q) (Suc 0) = sample_cqe 0"
    using proc.dispatch_cq [OF q] ring by simp_all
  have "cq_pending (p_loop p1) = [sample_cqe 0]"
      "cq_pending (p_loop (sample_others (Some 2) q)) = [sample_cqe 0, sample_cqe 1]"
    by (simp_all add: cq_pending_def mring_list_def ring_list_def mring_count_def ring cq sample_others_def kernel_post_def
        cq_post_def upt_rec)
  then show ?thesis
    using round_is_fold [where env = sample_others and B = sum_hash and X = sample_quic, OF ok env,
      unfolded Let_def, folded p1_def] q
    by (simp add: ring) (simp add: sample_others_def)
qed

end
