(* ===== verification/Ride_Main.thy ===== *)
theory Ride_Main
  imports Ride_Config Event_Feed Processor
begin

text \<open>
  The main thread: \<open>ride_run\<close> of \<open>ride.c\<close> and \<open>main\<close>.  It parses the command line, loads the BPF program,
  starts the processor threads, polls the BPF ring buffer until a signal arrives, and waits for the
  threads to end.  The results of the library and system calls are the fields of a record.
\<close>

section \<open>Definitions\<close>

text \<open>
  \<open>re_signal n\<close>: a signal is delivered before the \<open>n\<close>-th test of \<open>quit\<close>.  \<open>re_poll n\<close>: the events the \<open>n\<close>-th call of
  \<open>ring_buffer__poll\<close> passes to the callback, and its result.  \<open>re_others n\<close>: what the processor threads do
  to the queue and the eventfd objects before that call.
\<close>

record ('h, 'w) run_env =
  re_nprocs :: int
  re_stat :: "string \<Rightarrow> u32 option"
  re_realpath :: "string \<Rightarrow> string option"
  re_quit_efd :: i32
  re_bpf_open :: bool
  re_pid :: i32
  re_bpf_load :: i32
  re_malloc :: bool
  re_malloc_args :: "nat \<Rightarrow> bool"
  re_eventfd :: "nat \<Rightarrow> i32"
  re_bpf_attach :: i32
  re_signal :: "nat \<Rightarrow> bool"
  re_poll :: "nat \<Rightarrow> event list \<times> i32"
  re_others :: "nat \<Rightarrow> feed \<Rightarrow> feed"
  re_thread :: "nat \<Rightarrow> ('h, 'w) thread_env"

text \<open>The flag \<open>quit\<close>, set by the signal handler.\<close>

definition ride_sig_handler :: "bool \<Rightarrow> bool" where
  "ride_sig_handler quit = True"

text \<open>
  The loop that creates the threads, from the index \<open>i\<close> with \<open>n\<close> left.  \<open>Inl\<close> is a return from \<open>ride_run\<close>.
\<close>

fun create_threads ::
  "('h, 'w) run_env \<Rightarrow> ride_cli_args \<Rightarrow> nat \<Rightarrow> nat \<Rightarrow> feed \<Rightarrow> nat + (feed \<times> processor_args list)" where
  "create_threads E a i 0 s = Inr (s, [])"
| "create_threads E a i (Suc n) s =
     (if \<not> re_malloc_args E i then Inl EXIT_FAILURE
      else if re_eventfd E i = - 1 then Inl EXIT_FAILURE
      else
        let fd = re_eventfd E i;
            s1 = s\<lparr>fd_efds := fd_efds s @ [fd],
                   fd_fds := (fd_fds s)(fd \<mapsto> \<lparr>efd_count = 0, efd_semaphore = True\<rparr>)\<rparr>;
            wargs = \<lparr>wa_id = of_nat i, wa_io_concurrency = io_concurrency a, wa_queue_eventfd = fd,
                     wa_quit_eventfd = re_quit_efd E, wa_verify = verify a\<rparr>
        in case create_threads E a (Suc i) n s1 of
             Inl r \<Rightarrow> Inl r
           | Inr (s2, ws) \<Rightarrow> Inr (s2, wargs # ws))"

text \<open>The main loop, with the last result of \<open>ring_buffer__poll\<close>.\<close>

partial_function (option) main_loop ::
  "('h, 'w) run_env \<Rightarrow> nat \<Rightarrow> bool \<Rightarrow> i32 \<Rightarrow> feed \<Rightarrow> (i32 \<times> feed) res option" where
  "main_loop E n quit err s =
     (let quit' = (if re_signal E n then ride_sig_handler quit else quit) in
      if quit' then Some (Inr (err, s))
      else case handle_all (fst (re_poll E n)) (re_others E n s) of
             Inl f \<Rightarrow> Some (Inl f)
           | Inr s' \<Rightarrow>
               let err' = snd (re_poll E n) in
               if sint err' < 0 \<and> err' \<noteq> - of_nat EINTR then Some (Inr (err', s'))
               else main_loop E (Suc n) quit' err' s')"

text \<open>\<open>pthread_join\<close> on every thread returns when the thread does; a fault in a thread ends the program.\<close>

fun join_all :: "unit res option list \<Rightarrow> unit res" where
  "join_all [] = Inr ()"
| "join_all (None # ts) = Inl Diverges"
| "join_all (Some r # ts) = bind_res r (\<lambda>_. join_all ts)"

text \<open>From the main loop to the end of \<open>ride_run\<close>.\<close>

definition ride_loop ::
  "'h blake3 \<Rightarrow> 'w quic \<Rightarrow> ('h, 'w) run_env \<Rightarrow> feed \<Rightarrow> processor_args list \<Rightarrow> nat res" where
  "ride_loop B X E s ws =
     (case main_loop E 0 False 0 s of
        None \<Rightarrow> Inl Diverges
      | Some r \<Rightarrow>
          bind_res r (\<lambda>(err, s').
            case eventfd_write (fd_fds s') (re_quit_efd E) 1 of
              Inl _ \<Rightarrow> Inl (Exit EXIT_FAILURE)
            | Inr _ \<Rightarrow>
                bind_res (join_all (map (\<lambda>w. processor_run B X (re_thread E (unat (wa_id w))) w) ws)) (\<lambda>_.
                  Inr (if err \<noteq> 0 then EXIT_FAILURE else EXIT_SUCCESS))))"

definition ride_start :: "('h, 'w) run_env \<Rightarrow> ride_cli_args \<Rightarrow> nat + (bpf_rodata \<times> feed \<times> processor_args list)" where
  "ride_start E a =
     (let s0 = \<lparr>fd_queue = queue_init \<lparr>q_events = (\<lambda>_. event_zero), q_head = 0, q_tail = 0\<rparr>,
                fd_fds = [re_quit_efd E \<mapsto> \<lparr>efd_count = 0, efd_semaphore = False\<rparr>], fd_efds = [], fd_next = 0\<rparr> in
      if re_quit_efd E = - 1 then Inl EXIT_FAILURE
      else if \<not> re_bpf_open E then Inl EXIT_FAILURE
      else if re_bpf_load E \<noteq> 0 then Inl EXIT_FAILURE
      else if \<not> re_malloc E then Inl EXIT_FAILURE
      else case create_threads E a 0 (unat (threads a)) s0 of
             Inl r \<Rightarrow> Inl r
           | Inr (s, ws) \<Rightarrow> if re_bpf_attach E \<noteq> 0 then Inl EXIT_FAILURE else Inr (ride_rodata a (re_pid E), s, ws))"

definition ride_run :: "'h blake3 \<Rightarrow> 'w quic \<Rightarrow> ('h, 'w) run_env \<Rightarrow> string list \<Rightarrow> nat res" where
  "ride_run B X E argv =
     (case parse_env (cli_args_init (re_nprocs E)) argv of
        Inl _ \<Rightarrow> Inr EXIT_FAILURE
      | Inr a \<Rightarrow>
     (case ride_stat (re_stat E) (re_realpath E) a of
        Inl _ \<Rightarrow> Inr EXIT_FAILURE
      | Inr (a', _) \<Rightarrow>
     (case ride_start E a' of
        Inl r \<Rightarrow> Inr r
      | Inr (_, s, ws) \<Rightarrow> ride_loop B X E s ws)))"

definition main :: "'h blake3 \<Rightarrow> 'w quic \<Rightarrow> ('h, 'w) run_env \<Rightarrow> string list \<Rightarrow> nat res" where
  "main B X E argv = ride_run B X E argv"

section \<open>Start of the program\<close>

definition eventfds_new :: "('h, 'w) run_env \<Rightarrow> nat \<Rightarrow> bool" where
  "eventfds_new E n \<longleftrightarrow> inj_on (re_eventfd E) {..<n} \<and> re_quit_efd E \<notin> re_eventfd E ` {..<n}"

definition thread_args :: "('h, 'w) run_env \<Rightarrow> ride_cli_args \<Rightarrow> nat \<Rightarrow> processor_args" where
  "thread_args E a i =
     \<lparr>wa_id = of_nat i, wa_io_concurrency = io_concurrency a, wa_queue_eventfd = re_eventfd E i,
      wa_quit_eventfd = re_quit_efd E, wa_verify = verify a\<rparr>"

lemma create_threads_eq:
  "create_threads E a i n s = Inr (s', ws) \<Longrightarrow>
     ws = map (thread_args E a) [i..<i + n] \<and> fd_efds s' = fd_efds s @ map (re_eventfd E) [i..<i + n]
     \<and> fd_queue s' = fd_queue s
     \<and> (\<forall>fd. fd_fds s' fd = (if fd \<in> re_eventfd E ` {i..<i + n} then Some \<lparr>efd_count = 0, efd_semaphore = True\<rparr>
          else fd_fds s fd))"
proof (induction n arbitrary: i s s' ws)
  case (Suc n)
  let ?fd = "re_eventfd E i"
  let ?s = "s\<lparr>fd_efds := fd_efds s @ [?fd], fd_fds := (fd_fds s)(?fd \<mapsto> \<lparr>efd_count = 0, efd_semaphore = True\<rparr>)\<rparr>"
  have up: "[i..<i + Suc n] = i # [Suc i..<Suc i + n]" by (simp add: upt_rec)
  have "{i..<i + Suc n} = insert i {Suc i..<Suc i + n}" by auto
  then have im: "re_eventfd E ` {i..<i + Suc n} = insert ?fd (re_eventfd E ` {Suc i..<Suc i + n})" by simp
  show ?case
  proof (cases "create_threads E a (Suc i) n ?s")
    case (Inl r)
    with Suc.prems show ?thesis by (simp add: Let_def split: if_splits)
  next
    case (Inr r)
    then obtain s2 ws2 where r: "create_threads E a (Suc i) n ?s = Inr (s2, ws2)" by (cases r) simp
    with Suc.prems have "s' = s2" "ws = thread_args E a i # ws2" by (auto simp: Let_def thread_args_def split: if_splits)
    with Suc.IH [OF r] up im show ?thesis by simp
  qed
qed simp

lemma ride_start_feed:
  assumes start: "ride_start E a = Inr (ro, s, ws)" and new: "eventfds_new E (unat (threads a))"
  shows "feed_ok s" "ws = map (thread_args E a) [0..<unat (threads a)]" "fd_efds s = map wa_queue_eventfd ws"
proof -
  from start obtain s0 where c: "create_threads E a 0 (unat (threads a)) s0 = Inr (s, ws)"
    and s0: "fd_efds s0 = []" "fd_queue s0 = queue_init \<lparr>q_events = (\<lambda>_. event_zero), q_head = 0, q_tail = 0\<rparr>"
    by (auto simp: ride_start_def Let_def split: if_splits sum.splits)
  note eq = create_threads_eq [OF c]
  then show ws: "ws = map (thread_args E a) [0..<unat (threads a)]" by simp
  with eq s0 show "fd_efds s = map wa_queue_eventfd ws" by (simp add: thread_args_def)
  show "feed_ok s"
    using eq new s0 by (auto simp: feed_ok_def eventfds_new_def distinct_map atLeast0LessThan simp del: length_queue_contents)
qed

text \<open>While the queue holds events, some thread has a readable eventfd.\<close>

lemma queue_delivers:
  assumes "ride_start E a = Inr (ro, s, ws)" "eventfds_new E (unat (threads a))" "unat (threads a) < 2 ^ 32"
    and "feed_step\<^sup>*\<^sup>* s s'" "queue_contents (fd_queue s') \<noteq> []"
  shows "\<exists>w \<in> set ws. \<exists>q t. queue_consume_try (fd_fds s') (wa_queue_eventfd w) event_zero (fd_queue s') =
      Inr (0, hd (queue_contents (fd_queue s')), q, t) \<and> queue_contents q = tl (queue_contents (fd_queue s'))"
proof -
  note st = ride_start_feed [OF assms(1,2)]
  have "length (fd_efds s) < 2 ^ 32" using st(2,3) assms(3) by simp
  from feed_delivers [OF assms(4) st(1) this assms(5), of event_zero] show ?thesis by (simp add: st(3))
qed

section \<open>The main loop and the shutdown\<close>

lemma main_loop_signal:
  "re_signal E (n + k) \<Longrightarrow> \<exists>r. main_loop E n quit err s = Some r"
proof (induction k arbitrary: n quit err s)
  case 0
  then show ?case by (subst main_loop.simps) (simp add: Let_def ride_sig_handler_def)
next
  case (Suc k)
  then have "\<exists>r. main_loop E (Suc n) quit' err' s' = Some r" for quit' err' s' by simp
  then show ?case by (subst main_loop.simps) (simp add: Let_def split: sum.splits)
qed

text \<open>
  C29.  The main loop reacts to signals: if a signal is ever delivered, the loop ends, whatever the
  ring buffer delivers before.
\<close>

theorem main_loop_stops: "re_signal E n \<Longrightarrow> \<exists>r. main_loop E 0 False err s = Some r"
  using main_loop_signal [of E 0 n] by simp

lemma join_all_never: "t \<in> set ts \<Longrightarrow> t \<noteq> Some (Inr ()) \<Longrightarrow> \<exists>f. join_all ts = Inl f"
  by (induction ts rule: join_all.induct) (auto simp: bind_res_def split: sum.splits)

text \<open>
  C30.  The program never shuts down: with at least one processor thread, \<open>ride_run\<close> does not return
  after a successful start.  No thread ends its event loop when \<open>quit_efd\<close> is written, so the first
  \<open>pthread_join\<close> waits forever, unless a thread ends the program with an error.
\<close>

theorem shutdown_never_completes:
  assumes "parse_env (cli_args_init (re_nprocs E)) argv = Inr a" "ride_stat (re_stat E) (re_realpath E) a = Inr (a', d)"
    and "ride_start E a' = Inr (ro, s, ws)" "threads a' \<noteq> 0"
  shows "\<exists>f. ride_run B X E argv = Inl f"
proof -
  from assms(3) obtain s0 where c: "create_threads E a' 0 (unat (threads a')) s0 = Inr (s, ws)"
    by (auto simp: ride_start_def Let_def split: if_splits sum.splits)
  from create_threads_eq [OF c] assms(4) have ws: "ws \<noteq> []" by (simp add: unat_eq_0)
  have "\<exists>f. ride_loop B X E s ws = Inl f"
  proof (cases "main_loop E 0 False 0 s")
    case (Some r)
    have j: "\<exists>f. join_all (map (\<lambda>w. processor_run B X (re_thread E (unat (wa_id w))) w) ws) = Inl f"
      using ws processor_run_no_return by (intro join_all_never [OF _ processor_run_no_return]) (auto intro: hd_in_set)
    show ?thesis using Some j by (cases r) (auto simp: ride_loop_def split: sum.splits)
  qed (simp add: ride_loop_def)
  with assms(1-3) show ?thesis by (simp add: ride_run_def)
qed


section \<open>Witnesses\<close>

text \<open>A run with a given number of processors that delivers one event, with a signal from the third round on.\<close>

definition sample_thread :: "(u8 list, u8 list list) thread_env" where
  "sample_thread =
     \<lparr>te_buffers = True, te_reqs = True, te_hasher = \<lparr>blake = []\<rparr>,
      te_iou = \<lparr>is_fd = - 1, is_params = \<lparr>sq_off = \<lparr>ro_head = 0, ro_tail = 4, ro_ring_mask = 8, ro_flags = 12\<rparr>,
                 cq_off = \<lparr>ro_head = 0, ro_tail = 4, ro_ring_mask = 8, ro_flags = 12\<rparr>\<rparr>,
                 is_sq = None, is_cq = None, is_sqes = None, is_results = (\<lambda>_. 0)\<rparr>,
      te_memory = sample_processor [] [] 1, te_others = (\<lambda>_ _ p. p)\<rparr>"

definition sample_env :: "int \<Rightarrow> (u8 list, u8 list list) run_env" where
  "sample_env n =
     \<lparr>re_nprocs = n, re_stat = (\<lambda>_. Some 0x41ED), re_realpath = Some, re_quit_efd = 3, re_bpf_open = True,
      re_pid = 42, re_bpf_load = 0, re_malloc = True, re_malloc_args = (\<lambda>_. True),
      re_eventfd = (\<lambda>i. of_nat (i + 4)), re_bpf_attach = 0, re_signal = (\<lambda>n. 2 \<le> n),
      re_poll = (\<lambda>n. ([sample_event 1], 1)), re_others = (\<lambda>_ s. s), re_thread = (\<lambda>_. sample_thread)\<rparr>"

theorem main_loop_stops_witness: "\<exists>r. main_loop (sample_env 8) 0 False 0 sample_feed = Some r"
  by (rule main_loop_stops [of _ 5]) (simp add: sample_env_def)

lemma sample_parse:
  "\<exists>a a' d. parse_env (cli_args_init (re_nprocs (sample_env n))) [''ride'', ''/etc''] = Inr a
     \<and> ride_stat (re_stat (sample_env n)) (re_realpath (sample_env n)) a = Inr (a', d) \<and> threads a' = DEFAULT_THREADS n"
proof -
  have "(strncpy (replicate 128 NUL) ''/etc'' 128)[127 := NUL] = ''/etc'' @ replicate (128 - length ''/etc'') NUL"
    by (rule strncpy_pad) simp_all
  then show ?thesis
    by (simp add: parse_env_def parse_opts.simps getopt_def getopt_init_def cli_args_init_def sample_env_def
        ride_stat_def stat_type_def MAX_FILENAME_LEN_def Let_def cstr_def)
qed

text \<open>The state after the start with two processors and with none.\<close>

definition sample_started :: "i32 list \<Rightarrow> feed" where
  "sample_started fds =
     \<lparr>fd_queue = queue_init \<lparr>q_events = (\<lambda>_. event_zero), q_head = 0, q_tail = 0\<rparr>,
      fd_fds = fold (\<lambda>fd t. t(fd \<mapsto> \<lparr>efd_count = 0, efd_semaphore = True\<rparr>)) fds [3 \<mapsto> \<lparr>efd_count = 0, efd_semaphore = False\<rparr>],
      fd_efds = fds, fd_next = 0\<rparr>"

lemma sample_start_two:
  assumes "threads a = 2"
  shows "ride_start (sample_env n) a = Inr (ride_rodata a 42, sample_started [4, 5],
     map (thread_args (sample_env n) a) [0, 1])"
proof -
  have "unat (threads a) = Suc (Suc 0)" using assms by simp
  then show ?thesis
    unfolding ride_start_def by (simp add: sample_env_def Let_def sample_started_def thread_args_def)
qed

lemma sample_start_none:
  "threads a = 0 \<Longrightarrow> ride_start (sample_env n) a = Inr (ride_rodata a 42, sample_started [], [])"
  by (simp add: ride_start_def sample_env_def Let_def sample_started_def)

theorem shutdown_never_completes_witness:
  "\<exists>f. ride_run sum_hash sample_quic (sample_env 4) [''ride'', ''/etc''] = Inl f"
proof -
  obtain a a' d where p: "parse_env (cli_args_init (re_nprocs (sample_env 4))) [''ride'', ''/etc''] = Inr a"
      "ride_stat (re_stat (sample_env 4)) (re_realpath (sample_env 4)) a = Inr (a', d)" "threads a' = DEFAULT_THREADS 4"
    using sample_parse [of 4] by blast
  then have t: "threads a' = 2" by (simp add: DEFAULT_THREADS_def)
  then have "threads a' \<noteq> 0" by simp
  from shutdown_never_completes [OF p(1,2) sample_start_two [OF t] this] show ?thesis .
qed


end
