(* ===== verification/Processor_Safety.thy ===== *)
theory Processor_Safety
  imports Processor
begin

text \<open>
  Safety of a processor thread.  The invariant \<open>inv\<close> relates the slab, the heap of paths and the
  submission ring to the set \<open>E\<close> of slots whose requests are with the kernel or wait in the
  completion ring.  It says that no slot is outstanding twice, that the request of an outstanding
  slot has not changed since it was submitted, that every path a slot points to is allocated and
  belongs to that slot alone, and that the hash state of a slot that reads a file is that of the
  bytes of the file before its offset.  Each handler keeps it.
\<close>

section \<open>The invariant\<close>

text \<open>An event as the BPF hook submits it: a path array of full length with a terminator.\<close>

definition event_term :: "event \<Rightarrow> bool" where
  "event_term e \<longleftrightarrow> length (ev_path e) = MAX_FILENAME_LEN \<and> NUL \<in> set (ev_path e)"

text \<open>The slots whose requests wait in the submission ring.\<close>

definition sqe_slots :: "io_uring_sqe \<Rightarrow> nat list" where
  "sqe_slots e = (case sqe_user_data e of Some (Slab_Req i) \<Rightarrow> [i] | _ \<Rightarrow> [])"

definition sq_slots :: "ev_loop \<Rightarrow> nat list" where
  "sq_slots l = concat (map sqe_slots (sq_pending l))"

text \<open>The file each slot has opened: its path and its contents.\<close>

type_synonym files = "nat \<Rightarrow> string \<times> u8 list"

text \<open>The hash state after some bytes, however they were cut into blocks.\<close>

definition hashed :: "'h blake3 \<Rightarrow> 'h hasher \<Rightarrow> u8 list \<Rightarrow> bool" where
  "hashed B h bytes \<longleftrightarrow> (\<exists>cs. blake h = foldl (b3_update B) (b3_init B) cs \<and> concat cs = bytes)"

text \<open>The line \<open>processor_print_hash\<close> prints for a file.\<close>

definition file_line :: "'h blake3 \<Rightarrow> i32 \<Rightarrow> nat \<Rightarrow> string \<times> u8 list \<Rightarrow> string" where
  "file_line B n i f = line_head n (of_nat i) (fst f) @ hex (blake3_hash B (snd f)) @ line_tail"

text \<open>What an outstanding slot is doing; \<open>L\<close> is a set of lines that may be printed.\<close>

definition slot_opening :: "('h, 'w) processor \<Rightarrow> nat \<Rightarrow> bool" where
  "slot_opening p i \<longleftrightarrow> (let q = pr_req (p_reqs p ! i) in
     rq_callback q = CB_on_file_open \<and> rq_opcode q = IORING_OP_OPENAT
     \<and> (\<exists>a. pr_data (p_reqs p ! i) = Some a \<and> rq_addr q = Addr (Obj_Path a)))"

definition slot_reading :: "'h blake3 \<Rightarrow> files \<Rightarrow> ('h, 'w) processor \<Rightarrow> nat \<Rightarrow> bool" where
  "slot_reading B F p i \<longleftrightarrow> (let q = pr_req (p_reqs p ! i) in
     rq_callback q = CB_on_file_read \<and> rq_opcode q = IORING_OP_READ
     \<and> rq_addr q = Addr (Obj_Buffer i) \<and> rq_len q = of_nat READ_BUF_SIZE
     \<and> (\<exists>a. pr_data (p_reqs p ! i) = Some a \<and> p_heap p a = Some (fst (F i)))
     \<and> length (snd (F i)) < 2 ^ 63
     \<and> (\<exists>off. rq_off q = Num off \<and> unat off \<le> length (snd (F i))
          \<and> hashed B (pr_hasher (p_reqs p ! i)) (take (unat off) (snd (F i)))))"

definition slot_updating :: "('h, 'w) processor \<Rightarrow> nat \<Rightarrow> bool" where
  "slot_updating p i \<longleftrightarrow> (let q = pr_req (p_reqs p ! i) in
     rq_callback q = CB_on_socket_timeout_update \<and> rq_opcode q = IORING_OP_TIMEOUT_REMOVE
     \<and> pr_data (p_reqs p ! i) = None)"

definition slot_busy :: "'h blake3 \<Rightarrow> files \<Rightarrow> i32 \<Rightarrow> string set \<Rightarrow> ('h, 'w) processor \<Rightarrow> nat \<Rightarrow> bool" where
  "slot_busy B F n L p i \<longleftrightarrow> slot_opening p i \<or> slot_reading B F p i \<and> file_line B n i (F i) \<in> L \<or> slot_updating p i"

definition loop_ok :: "('h, 'w) processor \<Rightarrow> nat set \<Rightarrow> bool" where
  "loop_ok p E \<longleftrightarrow> sq_ok (p_loop p) \<and> distinct (sq_slots (p_loop p)) \<and> set (sq_slots (p_loop p)) \<inter> E = {}
     \<and> (\<forall>e \<in> set (sq_pending (p_loop p)). \<forall>i. sqe_user_data e = Some (Slab_Req i)
          \<longrightarrow> e = fill_sqe (Slab_Req i) (pr_req (p_reqs p ! i)))"

definition busy_ok :: "'h blake3 \<Rightarrow> files \<Rightarrow> i32 \<Rightarrow> string set \<Rightarrow> ('h, 'w) processor \<Rightarrow> nat set \<Rightarrow> bool" where
  "busy_ok B F n L p E \<longleftrightarrow> (\<forall>i \<in> set (sq_slots (p_loop p)) \<union> E.
     i < length (p_reqs p) \<and> i \<notin> slab_free p \<and> slot_busy B F n L p i)"

definition heap_ok :: "('h, 'w) processor \<Rightarrow> bool" where
  "heap_ok p \<longleftrightarrow> (\<forall>k s. p_heap p k = Some s \<longrightarrow> k < p_strdups p \<and> length s < MAX_FILENAME_LEN)
     \<and> (\<forall>i < length (p_reqs p). \<forall>a. pr_data (p_reqs p ! i) = Some a \<longrightarrow> p_heap p a \<noteq> None)
     \<and> (\<forall>i \<in> slab_free p. pr_data (p_reqs p ! i) = None)
     \<and> (\<forall>i < length (p_reqs p). \<forall>j < length (p_reqs p). \<forall>a.
          pr_data (p_reqs p ! i) = Some a \<longrightarrow> pr_data (p_reqs p ! j) = Some a \<longrightarrow> i = j)"

lemma heap_okD:
  assumes "heap_ok p"
  shows "p_heap p k = Some s \<Longrightarrow> k < p_strdups p \<and> length s < MAX_FILENAME_LEN"
    and "i < length (p_reqs p) \<Longrightarrow> pr_data (p_reqs p ! i) = Some a \<Longrightarrow> p_heap p a \<noteq> None"
    and "i \<in> slab_free p \<Longrightarrow> pr_data (p_reqs p ! i) = None"
    and "i < length (p_reqs p) \<Longrightarrow> j < length (p_reqs p) \<Longrightarrow> pr_data (p_reqs p ! i) = Some a \<Longrightarrow>
      pr_data (p_reqs p ! j) = Some a \<Longrightarrow> i = j"
  using assms unfolding heap_ok_def by blast+

definition fixed_ok :: "('h, 'w) processor \<Rightarrow> bool" where
  "fixed_ok p \<longleftrightarrow> rq_data (p_queue_poll_req p) = Data_Processor
     \<and> rq_callback (p_queue_poll_req p) = CB_on_queue_event
     \<and> rq_callback (v_conn_req (p_verifier p)) \<in> {CB_NULL, CB_on_socket_create, CB_on_socket_connect}
     \<and> rq_callback (v_recv_req (p_verifier p)) \<in> {CB_NULL, CB_on_socket_read}
     \<and> rq_callback (v_timer_req (p_verifier p)) \<in> {CB_NULL, CB_on_socket_timeout}"

definition env_ok :: "('h, 'w) processor \<Rightarrow> bool" where
  "env_ok p \<longleftrightarrow> (\<forall>k. length (p_buffers p k) = READ_BUF_SIZE) \<and> (\<forall>k. event_term (q_events (p_queue p) k))"

text \<open>
  \<open>G\<close> says what is expected of a slot in \<open>E\<close> besides; it looks at the slot and at its path only.
\<close>

definition slot_path :: "('h, 'w) processor \<Rightarrow> nat \<Rightarrow> string option" where
  "slot_path p i = Option.bind (pr_data (p_reqs p ! i)) (p_heap p)"

definition slot_local :: "(('h, 'w) processor \<Rightarrow> nat \<Rightarrow> bool) \<Rightarrow> bool" where
  "slot_local G \<longleftrightarrow> (\<forall>p p' i. p_reqs p ! i = p_reqs p' ! i \<longrightarrow> slot_path p i = slot_path p' i \<longrightarrow> G p i = G p' i)"

definition expect_ok :: "(('h, 'w) processor \<Rightarrow> nat \<Rightarrow> bool) \<Rightarrow> ('h, 'w) processor \<Rightarrow> nat set \<Rightarrow> bool" where
  "expect_ok G p E \<longleftrightarrow> slot_local G \<and> (\<forall>i \<in> E. G p i)"

lemma expect_cong:
  assumes "expect_ok G p E"
    and "\<And>j. j \<in> E \<Longrightarrow> p_reqs p' ! j = p_reqs p ! j" "\<And>j. j \<in> E \<Longrightarrow> slot_path p' j = slot_path p j"
  shows "expect_ok G p' E"
  using assms unfolding expect_ok_def slot_local_def by metis

text \<open>\<open>L\<close> contains everything printed by the processor with the number \<open>n\<close>.\<close>

definition inv ::
  "'h blake3 \<Rightarrow> files \<Rightarrow> i32 \<Rightarrow> string set \<Rightarrow> (('h, 'w) processor \<Rightarrow> nat \<Rightarrow> bool) \<Rightarrow> ('h, 'w) processor
     \<Rightarrow> nat set \<Rightarrow> bool" where
  "inv B F n L G p E \<longleftrightarrow> slab_ok p \<and> loop_ok p E \<and> busy_ok B F n L p E \<and> heap_ok p \<and> fixed_ok p \<and> env_ok p
     \<and> p_id p = n \<and> set (p_stdout p) \<subseteq> L \<and> expect_ok G p E"

lemma invI:
  "slab_ok p \<Longrightarrow> loop_ok p E \<Longrightarrow> busy_ok B F n L p E \<Longrightarrow> heap_ok p \<Longrightarrow> fixed_ok p \<Longrightarrow> env_ok p \<Longrightarrow>
   p_id p = n \<Longrightarrow> set (p_stdout p) \<subseteq> L \<Longrightarrow> expect_ok G p E \<Longrightarrow> inv B F n L G p E"
  by (simp add: inv_def)

lemma invD:
  assumes "inv B F n L G p E"
  shows "slab_ok p" "loop_ok p E" "busy_ok B F n L p E" "heap_ok p" "fixed_ok p" "env_ok p"
    "p_id p = n" "set (p_stdout p) \<subseteq> L" "expect_ok G p E"
  using assms by (simp_all add: inv_def)

section \<open>Parts of the state that can change freely\<close>

lemma inv_drop: "inv B F n L G p E \<Longrightarrow> D \<subseteq> E \<Longrightarrow> inv B F n L G p D"
  by (auto simp: inv_def loop_ok_def busy_ok_def expect_ok_def)

lemma inv_outside:
  assumes "inv B F n L G p E" and "slab_view p' = slab_view p" "p_reqs p' = p_reqs p" "p_heap p' = p_heap p"
    "p_strdups p' = p_strdups p" "p_loop p' = p_loop p"
    "p_buffers p' = p_buffers p" "p_id p' = p_id p"
    and "\<And>k. event_term (q_events (p_queue p') k)" "fixed_ok p'" "set (p_stdout p') \<subseteq> L"
  shows "inv B F n L G p' E"
proof -
  have "slab_ok p'" "slab_free p' = slab_free p"
    using slab_view_ok [OF assms(2)] slab_view_free [OF assms(2)] invD(1) [OF assms(1)] by simp_all
  moreover have "expect_ok G p' E"
    using assms by (intro expect_cong [OF invD(9) [OF assms(1)]]) (simp_all add: slot_path_def)
  ultimately show ?thesis
    using assms by (simp add: inv_def loop_ok_def busy_ok_def heap_ok_def env_ok_def slot_busy_def
        slot_opening_def slot_reading_def slot_updating_def)
qed

text \<open>Changes of a slot that the slab does not see.\<close>

definition slab_same :: "'h processor_iou_req \<Rightarrow> 'h processor_iou_req \<Rightarrow> bool" where
  "slab_same r r' \<longleftrightarrow> pr_next r' = pr_next r \<and> pr_in_flight r' = pr_in_flight r \<and> pr_id r' = pr_id r
     \<and> pr_buffer r' = pr_buffer r \<and> rq_data (pr_req r') = rq_data (pr_req r)
     \<and> rq_data2 (pr_req r') = rq_data2 (pr_req r)"

lemma slab_view_slot:
  assumes "slab_same (p_reqs p ! i) (f (p_reqs p ! i))"
  shows "slab_view (slot_upd i f p) = slab_view p"
proof (cases "i < length (p_reqs p)")
  case True
  with assms show ?thesis
    by (auto simp: slab_view_def slab_same_def slot_upd_def map_update list_update_same_conv)
qed (simp add: slot_upd_def slab_view_def list_update_beyond not_less)

lemma slot_busy_cong:
  "p_reqs p' ! i = p_reqs p ! i \<Longrightarrow> p_heap p' = p_heap p \<Longrightarrow> slot_busy B F n L p' i = slot_busy B F n L p i"
  by (simp add: slot_busy_def slot_opening_def slot_reading_def slot_updating_def)

lemma sq_slots_iff: "i \<in> set (sq_slots l) \<longleftrightarrow> (\<exists>e \<in> set (sq_pending l). sqe_user_data e = Some (Slab_Req i))"
  by (auto simp: sq_slots_def sqe_slots_def split: option.splits req_ptr.splits intro!: bexI)

text \<open>A slot the program holds: in flight, but not outstanding.\<close>

definition held :: "('h, 'w) processor \<Rightarrow> nat set \<Rightarrow> nat \<Rightarrow> bool" where
  "held p E i \<longleftrightarrow> i < length (p_reqs p) \<and> i \<notin> slab_free p \<and> i \<notin> set (sq_slots (p_loop p)) \<and> i \<notin> E"

lemma held_outstanding: "inv B F n L G p E \<Longrightarrow> i \<in> E \<Longrightarrow> held p (E - {i}) i"
  by (auto simp: inv_def busy_ok_def loop_ok_def held_def)

text \<open>
  A change of one slot that is not outstanding, and of the heap as far as no other slot points into
  it, keeps the invariant once the slab and the heap are well formed again.
\<close>

lemma inv_change:
  assumes inv: "inv B F n L G p E" and nin: "i \<notin> set (sq_slots (p_loop p)) \<union> E"
    and nth: "\<And>j. j \<noteq> i \<Longrightarrow> p_reqs p' ! j = p_reqs p ! j"
    and heap: "\<And>j a. j < length (p_reqs p) \<Longrightarrow> j \<noteq> i \<Longrightarrow> pr_data (p_reqs p ! j) = Some a \<Longrightarrow> p_heap p' a = p_heap p a"
    and free: "slab_free p' \<subseteq> insert i (slab_free p)"
    and len: "length (p_reqs p') = length (p_reqs p)" and loop: "p_loop p' = p_loop p"
    and same: "p_id p' = p_id p" "p_stdout p' = p_stdout p" "p_verifier p' = p_verifier p" "p_buffers p' = p_buffers p"
      "p_queue p' = p_queue p" "p_queue_poll_req p' = p_queue_poll_req p"
    and ok: "slab_ok p'" "heap_ok p'"
  shows "inv B F n L G p' E"
proof (rule invI)
  have busy: "j \<noteq> i \<and> j < length (p_reqs p) \<and> j \<notin> slab_free p \<and> slot_busy B F n L p j"
    if "j \<in> set (sq_slots (p_loop p)) \<union> E" for j
    using that nin invD(3) [OF inv] by (auto simp: busy_ok_def)
  have "e = fill_sqe (Slab_Req j) (pr_req (p_reqs p' ! j))"
    if "e \<in> set (sq_pending (p_loop p))" "sqe_user_data e = Some (Slab_Req j)" for e j
  proof -
    from that have "j \<in> set (sq_slots (p_loop p))" by (auto simp: sq_slots_iff)
    with busy have "j \<noteq> i" by auto
    with that nth [of j] invD(2) [OF inv] show ?thesis by (simp add: loop_ok_def)
  qed
  with invD(2) [OF inv] show "loop_ok p' E" by (auto simp: loop_ok_def loop)
  have "slot_busy B F n L p' j" if "j \<in> set (sq_slots (p_loop p)) \<union> E" for j
    using busy [OF that] heap [of j] nth [of j]
    by (auto simp: slot_busy_def slot_opening_def slot_reading_def slot_updating_def Let_def)
  with busy free show "busy_ok B F n L p' E" unfolding busy_ok_def len loop by blast
  show "fixed_ok p'" "env_ok p'" "p_id p' = n" "set (p_stdout p') \<subseteq> L"
    using invD(5-8) [OF inv] by (simp_all add: same fixed_ok_def env_ok_def)
  have "p_reqs p' ! j = p_reqs p ! j \<and> slot_path p' j = slot_path p j" if "j \<in> E" for j
    using busy [of j] that heap [of j] nth [of j]
    by (cases "pr_data (p_reqs p ! j)") (auto simp: slot_path_def)
  then show "expect_ok G p' E" by (intro expect_cong [OF invD(9) [OF inv]]) simp_all
qed (fact ok)+

text \<open>The heap stays well formed when one slot that is not free gets a path of its own, or none.\<close>

lemma heap_ok_change:
  assumes ok: "heap_ok p" and nth: "\<And>j. j < length (p_reqs p) \<Longrightarrow> j \<noteq> i \<Longrightarrow> pr_data (p_reqs p' ! j) = pr_data (p_reqs p ! j)"
    and len: "length (p_reqs p') = length (p_reqs p)"
    and free: "\<And>j. j \<in> slab_free p' \<Longrightarrow> j \<in> slab_free p \<and> j \<noteq> i \<or> j = i \<and> pr_data (p_reqs p' ! i) = None"
    and heap: "\<And>k s. p_heap p' k = Some s \<Longrightarrow> k < p_strdups p' \<and> length s < MAX_FILENAME_LEN"
    and others: "\<And>j a. j < length (p_reqs p) \<Longrightarrow> j \<noteq> i \<Longrightarrow> pr_data (p_reqs p ! j) = Some a \<Longrightarrow> p_heap p' a = p_heap p a"
    and own: "\<And>a. pr_data (p_reqs p' ! i) = Some a \<Longrightarrow>
      p_heap p' a \<noteq> None \<and> (\<forall>j < length (p_reqs p). j \<noteq> i \<longrightarrow> pr_data (p_reqs p ! j) \<noteq> Some a)"
  shows "heap_ok p'"
  unfolding heap_ok_def len
proof (intro conjI allI impI ballI)
  note h = heap_okD [OF ok]
  fix k s assume "p_heap p' k = Some s"
  from heap [OF this] show "k < p_strdups p'" "length s < MAX_FILENAME_LEN" by simp_all
next
  fix j a assume "j < length (p_reqs p)" "pr_data (p_reqs p' ! j) = Some a"
  with own [of a] others [of j a] nth [of j] heap_okD(2) [OF ok, of j a] show "p_heap p' a \<noteq> None"
    by (cases "j = i") simp_all
next
  fix j assume "j \<in> slab_free p'"
  from free [OF this] nth [of j] heap_okD(3) [OF ok, of j] show "pr_data (p_reqs p' ! j) = None"
    by (auto simp: slab_free_def)
next
  fix j k a assume "j < length (p_reqs p)" "k < length (p_reqs p)"
    "pr_data (p_reqs p' ! j) = Some a" "pr_data (p_reqs p' ! k) = Some a"
  with own [of a] nth heap_okD(4) [OF ok, of j k a] show "j = k"
    by (cases "j = i"; cases "k = i") simp_all
qed

text \<open>A slot that the program holds may be changed, and its path may be allocated or freed.\<close>

lemma inv_slot_heap:
  assumes inv: "inv B F n L G p E" and i: "held p E i"
    and f: "slab_same (p_reqs p ! i) (f (p_reqs p ! i))"
    and heap: "\<And>k s. h k = Some s \<Longrightarrow> k < m \<and> length s < MAX_FILENAME_LEN"
    and others: "\<And>j a. j < length (p_reqs p) \<Longrightarrow> j \<noteq> i \<Longrightarrow> pr_data (p_reqs p ! j) = Some a \<Longrightarrow> h a = p_heap p a"
    and own: "\<And>a. pr_data (f (p_reqs p ! i)) = Some a \<Longrightarrow>
      h a \<noteq> None \<and> (\<forall>j < length (p_reqs p). j \<noteq> i \<longrightarrow> pr_data (p_reqs p ! j) \<noteq> Some a)"
    and p': "p' = slot_upd i f (p\<lparr>p_heap := h, p_strdups := m\<rparr>)"
  shows "inv B F n L G p' E" "held p' E i"
proof -
  have v: "slab_view p' = slab_view p"
    using slab_view_slot [of p i f, OF f] by (simp add: p' slab_view_def slot_upd_def)
  have free: "slab_free p' = slab_free p" by (rule slab_view_free [OF v])
  have nth: "p_reqs p' ! j = p_reqs p ! j" if "j \<noteq> i" for j using that by (simp add: p' slot_upd_def)
  have fields: "length (p_reqs p') = length (p_reqs p)" "p_loop p' = p_loop p" "p_heap p' = h" "p_strdups p' = m"
      "p_id p' = p_id p" "p_stdout p' = p_stdout p" "p_verifier p' = p_verifier p" "p_buffers p' = p_buffers p"
      "p_queue p' = p_queue p" "p_queue_poll_req p' = p_queue_poll_req p"
    by (simp_all add: p' slot_upd_def)
  have il: "i < length (p_reqs p)" "i \<notin> slab_free p" using i by (simp_all add: held_def)
  then have ith: "p_reqs p' ! i = f (p_reqs p ! i)" by (simp add: p' slot_upd_def)
  show "held p' E i" using i by (simp add: held_def free fields)
  have "heap_ok p'"
    using nth heap others own il ith
    by (intro heap_ok_change [OF invD(4) [OF inv], of i]) (auto simp: fields free)
  moreover have "slab_ok p'" using invD(1) [OF inv] slab_view_ok [OF v] by simp
  ultimately show "inv B F n L G p' E"
    using i nth others by (intro inv_change [OF inv, of i]) (auto simp: fields free held_def)
qed

lemma inv_slot:
  assumes inv: "inv B F n L G p E" and i: "held p E i"
    and f: "slab_same (p_reqs p ! i) (f (p_reqs p ! i))" "pr_data (f (p_reqs p ! i)) = pr_data (p_reqs p ! i)"
  shows "inv B F n L G (slot_upd i f p) E" "held (slot_upd i f p) E i"
proof -
  note h = heap_okD [OF invD(4) [OF inv]]
  have "i < length (p_reqs p)" using i by (simp add: held_def)
  with h(2,4) [of i] have own: "p_heap p a \<noteq> None \<and> (\<forall>j < length (p_reqs p). j \<noteq> i \<longrightarrow> pr_data (p_reqs p ! j) \<noteq> Some a)"
    if "pr_data (f (p_reqs p ! i)) = Some a" for a
    using that f(2) by metis
  have "slot_upd i f p = slot_upd i f (p\<lparr>p_heap := p_heap p, p_strdups := p_strdups p\<rparr>)" by simp
  from inv_slot_heap [OF inv i f(1) h(1) refl own this]
  show "inv B F n L G (slot_upd i f p) E" "held (slot_upd i f p) E i" by blast+
qed

section \<open>Submitting, getting and freeing\<close>

lemma inv_loop:
  assumes inv: "inv B F n L G p E" and ok: "loop_ok (p\<lparr>p_loop := l\<rparr>) E"
    and busy: "\<And>i. i \<in> set (sq_slots l) \<Longrightarrow> i \<in> set (sq_slots (p_loop p)) \<or> held p E i \<and> slot_busy B F n L p i"
  shows "inv B F n L G (p\<lparr>p_loop := l\<rparr>) E"
proof (rule invI)
  let ?p = "p\<lparr>p_loop := l\<rparr>"
  show "slab_ok ?p" using invD(1) [OF inv] slab_view_ok [of ?p p] by (simp add: slab_view_def)
  show "loop_ok ?p E" by (fact ok)
  have "slab_free ?p = slab_free p" by (simp add: slab_free_def)
  then show "busy_ok B F n L ?p E"
    using invD(3) [OF inv] busy by (auto simp: held_def busy_ok_def slot_busy_cong [of ?p _ p])
  show "heap_ok ?p" "fixed_ok ?p" "env_ok ?p" "p_id ?p = n" "set (p_stdout ?p) \<subseteq> L"
    using invD(4-8) [OF inv] by (simp_all add: heap_ok_def fixed_ok_def env_ok_def slab_free_def)
  show "expect_ok G ?p E" by (intro expect_cong [OF invD(9) [OF inv]]) (simp_all add: slot_path_def)
qed

text \<open>Submitting a slot the program holds, once it is busy.\<close>

lemma submit_held:
  assumes inv: "inv B F n L G p E" and i: "held p E i" "slot_busy B F n L p i"
    and R: "\<And>p'. inv B F n L G p' E \<Longrightarrow> p_stdout p' = p_stdout p \<Longrightarrow> R p'"
  shows "wp Q R (iou_submit (Slab_Req i) p)"
proof -
  note lo = invD(2) [OF inv]
  then have ok: "sq_ok (p_loop p)" by (simp add: loop_ok_def)
  show ?thesis
  proof (cases "length (sq_pending (p_loop p)) = sq_entries (p_loop p)")
    case True
    then show ?thesis using R [OF inv] by (simp add: iou_submit_def ev_iou_req_full [OF ok])
  next
    case False
    let ?e = "fill_sqe (Slab_Req i) (pr_req (p_reqs p ! i))"
    from ev_iou_req_room [OF ok False, of "Slab_Req i" "req_at (Slab_Req i) p"] obtain l where
      l: "ev_iou_req (Slab_Req i) (req_at (Slab_Req i) p) (p_loop p) = Inr (0, l)" "sq_ok l"
        "sq_pending l = sq_pending (p_loop p) @ [?e]" by auto
    have s: "sq_slots l = sq_slots (p_loop p) @ [i]"
      using l(3) by (simp add: sq_slots_def sqe_slots_def fill_sqe_def sqe_zero_def)
    have "loop_ok (p\<lparr>p_loop := l\<rparr>) E"
      using lo i s l by (auto simp: held_def loop_ok_def fill_sqe_def sqe_zero_def)
    with inv have "inv B F n L G (p\<lparr>p_loop := l\<rparr>) E" by (rule inv_loop) (use s i in auto)
    from R [OF this] l(1) show ?thesis by (simp add: iou_submit_def)
  qed
qed

lemma sq_slots_snoc_fixed:
  assumes "\<And>i. ptr \<noteq> Slab_Req i" "sq_pending l = sq_pending l0 @ [fill_sqe ptr req]"
  shows "sq_slots l = sq_slots l0"
  using assms by (cases ptr) (auto simp: sq_slots_def sqe_slots_def fill_sqe_def)

lemma submit_fixed:
  assumes inv: "inv B F n L G p E" and ptr: "\<And>i. ptr \<noteq> Slab_Req i"
    and R: "\<And>l. inv B F n L G (p\<lparr>p_loop := l\<rparr>) E \<Longrightarrow> R (p\<lparr>p_loop := l\<rparr>)"
  shows "wp Q R (iou_submit ptr p)"
proof -
  note lo = invD(2) [OF inv]
  then have ok: "sq_ok (p_loop p)" by (simp add: loop_ok_def)
  show ?thesis
  proof (cases "length (sq_pending (p_loop p)) = sq_entries (p_loop p)")
    case True
    then show ?thesis using R [of "p_loop p"] inv by (simp add: iou_submit_def ev_iou_req_full [OF ok])
  next
    case False
    from ev_iou_req_room [OF ok False, of ptr "req_at ptr p"] obtain l where
      l: "ev_iou_req ptr (req_at ptr p) (p_loop p) = Inr (0, l)" "sq_ok l"
        "sq_pending l = sq_pending (p_loop p) @ [fill_sqe ptr (req_at ptr p)]" by auto
    note s = sq_slots_snoc_fixed [OF ptr l(3)]
    have "loop_ok (p\<lparr>p_loop := l\<rparr>) E"
      using lo s l ptr by (auto simp: loop_ok_def fill_sqe_def sqe_zero_def)
    with inv have "inv B F n L G (p\<lparr>p_loop := l\<rparr>) E" by (rule inv_loop) (use s in simp)
    from R [OF this] l(1) show ?thesis by (simp add: iou_submit_def)
  qed
qed

lemma get_req_inv:
  assumes inv: "inv B F n L G p E" and Q: "slab_free p = {} \<Longrightarrow> Q (Exit 1)"
    and R: "\<And>i p'. inv B F n L G p' E \<Longrightarrow> held p' E i \<Longrightarrow> pr_data (p_reqs p' ! i) = None
      \<Longrightarrow> p_verifier p' = p_verifier p \<Longrightarrow> p_strdups p' = p_strdups p \<Longrightarrow> p_strdup_ok p' = p_strdup_ok p \<Longrightarrow> R (i, p')"
  shows "wp Q R (processor_get_req p)"
proof (cases "slab_free p = {}")
  case True
  with Q show ?thesis by (simp add: get_req_exhausted [OF invD(1) [OF inv]])
next
  case False
  from get_req_ok [OF invD(1) [OF inv] False] obtain i q p' where
    i: "i \<in> slab_free p" and get: "processor_get_req p = Inr (i, p')"
    and ok: "slab_ok p'" "slab_free p' = slab_free p - {i}"
    and p': "p' = (slot_upd i (fresh_slot i) p)\<lparr>p_reqs_list := q, p_nr_free_reqs := p_nr_free_reqs p - 1\<rparr>"
    by auto
  from i have il: "i < length (p_reqs p)" by (simp add: slab_free_def)
  have nin: "i \<notin> set (sq_slots (p_loop p)) \<union> E"
    using i invD(3) [OF inv] by (auto simp: busy_ok_def)
  have nth: "p_reqs p' ! j = p_reqs p ! j" if "j \<noteq> i" for j
    using that by (simp add: p' slot_upd_def)
  have data: "pr_data (p_reqs p' ! i) = None"
    using il i heap_okD(3) [OF invD(4) [OF inv]] by (simp add: p' fresh_slot_def)
  have fields: "length (p_reqs p') = length (p_reqs p)" "p_loop p' = p_loop p" "p_heap p' = p_heap p"
      "p_strdups p' = p_strdups p" "p_id p' = p_id p" "p_stdout p' = p_stdout p" "p_verifier p' = p_verifier p"
      "p_buffers p' = p_buffers p" "p_queue p' = p_queue p" "p_queue_poll_req p' = p_queue_poll_req p"
      "p_strdup_ok p' = p_strdup_ok p"
    by (simp_all add: p')
  have "heap_ok p'"
    using nth data heap_okD(1) [OF invD(4) [OF inv]]
    by (intro heap_ok_change [OF invD(4) [OF inv], of i]) (auto simp: fields ok(2))
  with ok nth nin have "inv B F n L G p' E"
    by (intro inv_change [OF inv, of i]) (auto simp: fields)
  moreover have "held p' E i" using nin il ok(2) by (simp add: held_def p')
  ultimately show ?thesis using get R data by (simp add: fields)
qed

lemma free_req_inv:
  assumes inv: "inv B F n L G p E" and i: "held p E i"
    and R: "inv B F n L G (freed i p) E \<Longrightarrow> R (freed i p)"
  shows "wp Q R (processor_free_req (Slab_Req i) p)"
proof -
  from i have il: "i < length (p_reqs p)" "i \<notin> slab_free p" by (simp_all add: held_def)
  note fr = free_req_ok [OF invD(1) [OF inv] il]
  have nth: "p_reqs (freed i p) ! j = p_reqs p ! j" if "j \<noteq> i" for j
    using that by (simp add: freed_def slot_upd_def)
  have data: "pr_data (p_reqs (freed i p) ! i) = None" using il by (simp add: freed_def)
  have fields: "p_loop (freed i p) = p_loop p" "length (p_reqs (freed i p)) = length (p_reqs p)"
      "p_heap (freed i p) = p_heap p" "p_strdups (freed i p) = p_strdups p" "p_id (freed i p) = p_id p"
      "p_stdout (freed i p) = p_stdout p" "p_verifier (freed i p) = p_verifier p" "p_buffers (freed i p) = p_buffers p"
      "p_queue (freed i p) = p_queue p" "p_queue_poll_req (freed i p) = p_queue_poll_req p"
    by (simp_all add: freed_def)
  have "heap_ok (freed i p)"
    using nth data il(2) heap_okD(1) [OF invD(4) [OF inv]]
    by (intro heap_ok_change [OF invD(4) [OF inv], of i]) (auto simp: fields fr(3))
  with fr(2) nth i have "inv B F n L G (freed i p) E"
    by (intro inv_change [OF inv, of i]) (auto simp: fields fr(3) held_def)
  with R fr(1) show ?thesis by simp
qed

lemma release_inv:
  assumes inv: "inv B F n L G p E" and i: "held p E i"
    and R: "\<And>p'. inv B F n L G p' E \<Longrightarrow> p_stdout p' = p_stdout p \<Longrightarrow> R p'"
  shows "wp Q R (release (Slab_Req i) i p)"
proof -
  let ?f = "\<lambda>r. r\<lparr>pr_data := None, pr_data2 := 0\<rparr>"
  note h = heap_okD [OF invD(4) [OF inv]]
  have il: "i < length (p_reqs p)" using i by (simp add: held_def)
  have same: "slab_same (p_reqs p ! i) (?f (p_reqs p ! i))" by (simp add: slab_same_def)
  have step: "wp Q R (processor_free_req (Slab_Req i) (slot_upd i ?f (p\<lparr>p_heap := hp\<rparr>)))"
    if "\<And>k s. hp k = Some s \<Longrightarrow> p_heap p k = Some s"
      and "\<And>j a. j < length (p_reqs p) \<Longrightarrow> j \<noteq> i \<Longrightarrow> pr_data (p_reqs p ! j) = Some a \<Longrightarrow> hp a = p_heap p a" for hp
  proof -
    let ?p = "slot_upd i ?f (p\<lparr>p_heap := hp\<rparr>)"
    have eq: "?p = slot_upd i ?f (p\<lparr>p_heap := hp, p_strdups := p_strdups p\<rparr>)" by simp
    have "inv B F n L G ?p E" "held ?p E i"
      using inv_slot_heap [OF inv i same h(1) [OF that(1)] that(2) _ eq] by simp_all
    from free_req_inv [OF this] R show ?thesis by (simp add: freed_def)
  qed
  show ?thesis
  proof (cases "pr_data (p_reqs p ! i)")
    case None
    with step [of "p_heap p"] show ?thesis by (simp add: release_def free_path_def)
  next
    case (Some a)
    with h(2) [OF il] have "p_heap p a \<noteq> None" by simp
    moreover have "wp Q R (processor_free_req (Slab_Req i) (slot_upd i ?f (p\<lparr>p_heap := (p_heap p)(a := None)\<rparr>)))"
    proof (rule step)
      show "\<And>k s. ((p_heap p)(a := None)) k = Some s \<Longrightarrow> p_heap p k = Some s" by (simp split: if_splits)
      show "((p_heap p)(a := None)) b = p_heap p b"
        if "j < length (p_reqs p)" "j \<noteq> i" "pr_data (p_reqs p ! j) = Some b" for j b
        using that h(4) [OF il that(1) Some] by auto
    qed
    ultimately show ?thesis using Some by (auto simp: release_def free_path_def)
  qed
qed

section \<open>The file handlers\<close>

lemma held_slot:
  assumes "inv B F n L G p E" "held p D i"
  shows "rq_data (pr_req (p_reqs p ! i)) = Data_Processor" "rq_data2 (pr_req (p_reqs p ! i)) = Data_Slab i"
    "pr_buffer (p_reqs p ! i) = i" "pr_id (p_reqs p ! i) = of_nat i"
    "as_processor (rq_data (pr_req (p_reqs p ! i))) = Inr ()" "as_slab p (rq_data2 (pr_req (p_reqs p ! i))) = Inr i"
proof -
  have "slab_slot_ok (p_reqs p ! i) i" "pr_in_flight (p_reqs p ! i) \<noteq> 0" "i < length (p_reqs p)"
    using assms invD(1) [OF assms(1)] by (auto simp: held_def slab_ok_def slab_free_def)
  then show "rq_data (pr_req (p_reqs p ! i)) = Data_Processor" "rq_data2 (pr_req (p_reqs p ! i)) = Data_Slab i"
    "pr_buffer (p_reqs p ! i) = i" "pr_id (p_reqs p ! i) = of_nat i"
    "as_processor (rq_data (pr_req (p_reqs p ! i))) = Inr ()" "as_slab p (rq_data2 (pr_req (p_reqs p ! i))) = Inr i"
    by (simp_all add: slab_slot_ok_def as_processor_def as_slab_def)
qed

lemma cstr_event_path: "event_term e \<Longrightarrow> length (cstr (ev_path e)) < MAX_FILENAME_LEN"
  using strlen_lt_iff [of "ev_path e"] by (simp add: event_term_def strlen_def)

lemma open_slot_inv:
  assumes p: "inv B F n L G p E" "held p E i" "pr_data (p_reqs p ! i) = None"
    and e: "event_term e" and Q: "\<not> p_strdup_ok p (p_strdups p) \<Longrightarrow> Q (Exit 1)"
    and R: "\<And>p'. inv B F n L G p' E \<Longrightarrow> R p'"
  shows "wp Q R (open_slot e i p)"
proof -
  let ?k = "p_strdups p" and ?s = "cstr (ev_path e)"
  let ?g = "\<lambda>r. r\<lparr>pr_req := (pr_req r)\<lparr>rq_opcode := IORING_OP_OPENAT, rq_fd := AT_FDCWD,
      rq_addr := Addr (Obj_Path ?k), rq_len := 0, rq_flags := O_RDONLY, rq_callback := CB_on_file_open\<rparr>,
      pr_data := Some ?k, pr_data2 := ev_path_len e\<rparr>"
  let ?p = "slot_upd i ?g (p\<lparr>p_heap := (p_heap p)(?k \<mapsto> ?s), p_strdups := ?k + 1\<rparr>)"
  note h = heap_okD [OF invD(4) [OF p(1)]]
  have il: "i < length (p_reqs p)" using p(2) by (simp add: held_def)
  have fresh: "pr_data (p_reqs p ! j) \<noteq> Some ?k" if "j < length (p_reqs p)" for j
    using h(1) [of ?k] h(2) [OF that, of ?k] by force
  have same: "slab_same (p_reqs p ! i) (?g (p_reqs p ! i))" by (simp add: slab_same_def)
  have heap: "k < ?k + 1 \<and> length s < MAX_FILENAME_LEN" if "((p_heap p)(?k \<mapsto> ?s)) k = Some s" for k s
    using that h(1) [of k s] cstr_event_path [OF e] by (auto split: if_splits)
  have others: "((p_heap p)(?k \<mapsto> ?s)) a = p_heap p a"
    if "j < length (p_reqs p)" "j \<noteq> i" "pr_data (p_reqs p ! j) = Some a" for j a
    using fresh [OF that(1)] that(3) by auto
  have own: "((p_heap p)(?k \<mapsto> ?s)) a \<noteq> None \<and> (\<forall>j<length (p_reqs p). j \<noteq> i \<longrightarrow> pr_data (p_reqs p ! j) \<noteq> Some a)"
    if "pr_data (?g (p_reqs p ! i)) = Some a" for a
    using that fresh by auto
  have "inv B F n L G ?p E"
    by (rule inv_slot_heap(1) [OF p(1,2), of ?g, OF same])
      (rule heap, assumption, rule others, assumption+, rule own, assumption, rule refl)
  moreover have "held ?p E i"
    by (rule inv_slot_heap(2) [OF p(1,2), of ?g, OF same])
      (rule heap, assumption, rule others, assumption+, rule own, assumption, rule refl)
  moreover have "slot_busy B F n L ?p i" using il by (simp add: slot_busy_def slot_opening_def)
  ultimately have "wp Q R (iou_submit (Slab_Req i) ?p)"
    using R by (intro submit_held) auto
  moreover have "slot_upd i (\<lambda>r. r\<lparr>pr_data := Some ?k, pr_data2 := ev_path_len e\<rparr>)
      (req_upd (Slab_Req i) (\<lambda>r. r\<lparr>rq_opcode := IORING_OP_OPENAT, rq_fd := AT_FDCWD,
         rq_addr := Addr (Obj_Path ?k), rq_len := 0, rq_flags := O_RDONLY, rq_callback := CB_on_file_open\<rparr>)
         (p\<lparr>p_strdups := ?k + 1, p_heap := (p_heap p)(?k \<mapsto> ?s)\<rparr>)) = ?p"
    using il by (simp add: slot_upd_def)
  ultimately show ?thesis
    using e Q by (simp add: open_slot_def strdup_def event_term_def Let_def del: req_upd.simps)
qed

lemma open_event_inv:
  assumes inv: "inv B F n L G p E" and e: "event_term e"
    and Q: "slab_free p = {} \<or> \<not> p_strdup_ok p (p_strdups p) \<Longrightarrow> Q (Exit 1)"
    and R: "\<And>p'. inv B F n L G p' E \<Longrightarrow> R p'"
  shows "wp Q R (open_event e p)"
  unfolding open_event_def wp_bind
proof (rule get_req_inv [OF inv])
  show "slab_free p = {} \<Longrightarrow> Q (Exit 1)" using Q by blast
  fix i p'
  assume p': "inv B F n L G p' E" "held p' E i" "pr_data (p_reqs p' ! i) = None"
    and same: "p_strdups p' = p_strdups p" "p_strdup_ok p' = p_strdup_ok p"
  have "wp Q R (open_slot e i p')"
    by (rule open_slot_inv [OF p' e]) (use Q R same in auto)
  then show "wp Q R (case (i, p') of (i, p1) \<Rightarrow> open_slot e i p1)" by simp
qed

text \<open>
  \<open>on_file_open\<close> with a completion for a slot that opens a file.  If the open succeeded, \<open>F\<close> holds the
  path and the contents of the file.
\<close>

lemma on_file_open_inv:
  assumes inv: "inv B F n L G p E" and held: "held p E i" and i: "slot_opening p i"
    and F: "0 \<le> sint (rq_result (pr_req (p_reqs p ! i))) \<Longrightarrow>
      length (snd (F i)) < 2 ^ 63 \<and> file_line B n i (F i) \<in> L
      \<and> (\<exists>a. pr_data (p_reqs p ! i) = Some a \<and> p_heap p a = Some (fst (F i)))"
    and R: "\<And>p'. inv B F n L G p' E \<Longrightarrow> R p'"
  shows "wp Q R (on_file_open B (Slab_Req i) p)"
proof -
  note ptrs = held_slot [OF inv held]
  have il: "i < length (p_reqs p)" using held by (simp add: held_def)
  show ?thesis
  proof (cases "sint (rq_result (pr_req (p_reqs p ! i))) < 0")
    case True
    from release_inv [OF inv held R] True ptrs show ?thesis by (simp add: on_file_open_def)
  next
    case False
    let ?g = "\<lambda>r. r\<lparr>pr_req := (pr_req r)\<lparr>rq_opcode := IORING_OP_READ, rq_fd := rq_result (pr_req r),
        rq_addr := Addr (Obj_Buffer i), rq_len := of_nat READ_BUF_SIZE, rq_off := Num 0,
        rq_callback := CB_on_file_read\<rparr>, pr_hasher := hasher_init B (pr_hasher r)\<rparr>"
    have "hashed B (hasher_init B h) []" for h :: "'a hasher"
      by (auto simp: hashed_def hasher_init_def intro!: exI [of _ "[]"])
    then have "slot_busy B F n L (slot_upd i ?g p) i"
      using F False il by (auto simp: slot_busy_def slot_reading_def)
    moreover have "inv B F n L G (slot_upd i ?g p) E" "held (slot_upd i ?g p) E i"
      using inv_slot [OF inv held, of ?g] by (simp_all add: slab_same_def)
    ultimately have "wp Q R (iou_submit (Slab_Req i) (slot_upd i ?g p))"
      using R by (intro submit_held) auto
    moreover have "slot_upd i (\<lambda>r. r\<lparr>pr_hasher := hasher_init B (pr_hasher r)\<rparr>)
        (req_upd (Slab_Req i) (\<lambda>r. r\<lparr>rq_opcode := IORING_OP_READ, rq_fd := rq_result r,
          rq_addr := Addr (Obj_Buffer i), rq_len := of_nat READ_BUF_SIZE, rq_off := Num 0,
          rq_callback := CB_on_file_read\<rparr>) p) = slot_upd i ?g p"
      using il by (simp add: slot_upd_def)
    ultimately show ?thesis
      using False ptrs by (simp add: on_file_open_def Let_def del: req_upd.simps)
  qed
qed

lemma length_line_head: "length (line_head n k path) \<le> length path + 72"
  using length_show_int_32 [of n] length_show_int_32 [of k] by (simp add: line_head_def)

lemma print_hash_ok:
  assumes "pr_data (p_reqs p ! i) = Some a" "p_heap p a = Some path" "length path < MAX_FILENAME_LEN"
  shows "processor_print_hash i hash p = Inr (p\<lparr>p_stdout := p_stdout p @
     [line_head (p_id p) (pr_id (p_reqs p ! i)) path @ hex (take HASH_LEN hash) @ line_tail]\<rparr>)"
  using assms length_line_head [of "p_id p" "pr_id (p_reqs p ! i)" path]
  by (simp add: processor_print_hash_def show_str_def Let_def OUTPUT_MAX_SIZE_def HASH_LEN_def
      MAX_FILENAME_LEN_def line_tail_def)

lemma hashed_final:
  assumes "blake3_streaming B" "hashed B h bytes"
  shows "hasher_finalize B h k = blake3_hash B bytes" "length (blake3_hash B bytes) = HASH_LEN"
proof -
  from assms(2) obtain cs where "blake h = foldl (b3_update B) (b3_init B) cs" "concat cs = bytes"
    by (auto simp: hashed_def)
  with assms(1) show "hasher_finalize B h k = blake3_hash B bytes" "length (blake3_hash B bytes) = HASH_LEN"
    by (simp_all add: blake3_streaming_def hasher_finalize_def blake3_hash_def)
qed

lemma hashed_update:
  assumes "hashed B h bytes"
  shows "hashed B (hasher_update B h k buf) (bytes @ take k buf)"
proof -
  from assms obtain cs where "blake h = foldl (b3_update B) (b3_init B) cs" "concat cs = bytes"
    by (auto simp: hashed_def)
  then show ?thesis
    by (auto simp: hashed_def hasher_update_def intro!: exI [of _ "cs @ [take k buf]"])
qed

text \<open>
  What the kernel answers to a read of the file \<open>content\<close> at the offset \<open>off\<close> into a buffer: an error,
  or as many bytes of the file from there on as the result says, none only at the end of the file.
  \<open>content\<close> is what the reads of one open deliver in all.  If nobody writes to the file meanwhile, these are its
  contents; if it changes while it is read, they are the mixture that was read.
\<close>

definition read_answer :: "u8 list \<Rightarrow> nat \<Rightarrow> i32 \<Rightarrow> u8 list \<Rightarrow> bool" where
  "read_answer content off res buf \<longleftrightarrow>
     (0 \<le> sint res \<longrightarrow> unat res \<le> READ_BUF_SIZE \<and> off + unat res \<le> length content
        \<and> take (unat res) buf = take (unat res) (drop off content) \<and> (res = 0 \<longrightarrow> off = length content))"

text \<open>
  The faults of the verifier, which \<open>on_file_read\<close> passes on at the end of the file of a slot: those of the
  one call it makes, with the length stored in the slot, the path, and the digest of the contents.
\<close>

definition verify_faults :: "'h blake3 \<Rightarrow> 'w quic \<Rightarrow> files \<Rightarrow> ('h, 'w) processor \<Rightarrow> nat \<Rightarrow> fault \<Rightarrow> bool" where
  "verify_faults B X F p i f \<longleftrightarrow>
     verifier_verify_hash X (pr_data2 (p_reqs p ! i)) (map of_char (fst (F i) @ [NUL])) (of_nat HASH_LEN)
       (blake3_hash B (snd (F i))) (p_verifier p) = Inl f"

lemma verify_hash_wp:
  "(\<And>v'. verifier_frame v' = verifier_frame v \<Longrightarrow> R v')
     \<Longrightarrow> (\<And>f. verifier_verify_hash X pl path hl h v = Inl f \<Longrightarrow> Q f)
     \<Longrightarrow> wp Q R (verifier_verify_hash X pl path hl h v)"
  by (cases "verifier_verify_hash X pl path hl h v") (simp_all add: verify_hash_frame)

lemma inv_verifier:
  assumes "inv B F n L G p E" and "verifier_frame v = verifier_frame (p_verifier p)"
  shows "inv B F n L G (p\<lparr>p_verifier := v\<rparr>) E"
  using assms invD(5,6,8) [OF assms(1)]
  by (intro inv_outside [OF assms(1)]) (simp_all add: slab_view_def fixed_ok_def env_ok_def verifier_frame_def)

lemma inv_stdout: "inv B F n L G p E \<Longrightarrow> set out \<subseteq> L \<Longrightarrow> inv B F n L G (p\<lparr>p_stdout := out\<rparr>) E"
  by (rule inv_outside) (auto simp: slab_view_def fixed_ok_def inv_def env_ok_def)

lemma inv_closed: "inv B F n L G p E \<Longrightarrow> inv B F n L G (p\<lparr>p_closed := cl\<rparr>) E"
  by (rule inv_outside) (auto simp: slab_view_def fixed_ok_def inv_def env_ok_def)

text \<open>
  The three outcomes of a read.  \<open>read_of\<close> collects what is known of the slot: it reads the file at
  \<open>off\<close>, its buffer holds \<open>k\<close> bytes read from there, and \<open>h\<close> is the hash state after these.
\<close>

definition read_of ::
  "'h blake3 \<Rightarrow> files \<Rightarrow> ('h, 'w) processor \<Rightarrow> nat \<Rightarrow> u64 \<Rightarrow> nat \<Rightarrow> 'h hasher \<Rightarrow> bool" where
  "read_of B F p i off k h \<longleftrightarrow> k \<le> READ_BUF_SIZE \<and> unat off + k \<le> length (snd (F i))
     \<and> h = hasher_update B (pr_hasher (p_reqs p ! i)) k (p_buffers p i)
     \<and> hashed B h (take (unat off + k) (snd (F i)))"

lemma read_ofI:
  assumes "slot_reading B F p i" "rq_off (pr_req (p_reqs p ! i)) = Num off"
    and "read_answer (snd (F i)) (unat off) r (p_buffers p i)" "0 \<le> sint r"
  shows "read_of B F p i off (unat r) (hasher_update B (pr_hasher (p_reqs p ! i)) (unat r) (p_buffers p i))"
    "r = 0 \<Longrightarrow> unat off = length (snd (F i))"
proof -
  from assms(1,2) have off: "hashed B (pr_hasher (p_reqs p ! i)) (take (unat off) (snd (F i)))"
    by (auto simp: slot_reading_def Let_def)
  from assms(3,4) have n: "unat r \<le> READ_BUF_SIZE" "unat off + unat r \<le> length (snd (F i))"
      "take (unat r) (p_buffers p i) = take (unat r) (drop (unat off) (snd (F i)))"
    by (auto simp: read_answer_def)
  then show "read_of B F p i off (unat r) (hasher_update B (pr_hasher (p_reqs p ! i)) (unat r) (p_buffers p i))"
    using hashed_update [OF off, of "unat r" "p_buffers p i"] by (simp add: read_of_def take_add)
  show "r = 0 \<Longrightarrow> unat off = length (snd (F i))" using assms(3) by (auto simp: read_answer_def)
qed

text \<open>At the end of the file the line is printed and the digest sent.\<close>

lemma read_end_print:
  assumes inv: "inv B F n L G p E" and held: "held p E i" and i: "slot_reading B F p i" and B: "blake3_streaming B"
    and rd: "read_of B F p i off 0 h" "unat off = length (snd (F i))" and line: "file_line B n i (F i) \<in> L"
    and q: "q = (slot_upd i (\<lambda>r. r\<lparr>pr_hasher := h\<rparr>) p)\<lparr>p_stdout := p_stdout p @ [file_line B n i (F i)]\<rparr>"
  shows "hasher_finalize B h HASH_LEN = blake3_hash B (snd (F i))"
    "processor_print_hash i (blake3_hash B (snd (F i))) (slot_upd i (\<lambda>r. r\<lparr>pr_hasher := h\<rparr>) p) = Inr q"
    "inv B F n L G q E" "held q E i"
    "path_bytes (p_heap q) (pr_data (p_reqs q ! i)) = Inr (map of_char (fst (F i) @ [NUL]))"
proof -
  let ?p = "slot_upd i (\<lambda>r. r\<lparr>pr_hasher := h\<rparr>) p"
  have il: "i < length (p_reqs p)" using held by (simp add: held_def)
  from i obtain a where data: "pr_data (p_reqs p ! i) = Some a" "p_heap p a = Some (fst (F i))"
    by (auto simp: slot_reading_def Let_def)
  have path: "length (fst (F i)) < MAX_FILENAME_LEN" using heap_okD(1) [OF invD(4) [OF inv]] data by blast
  have invp: "inv B F n L G ?p E" and heldp: "held ?p E i"
    using inv_slot [OF inv held, of "\<lambda>r. r\<lparr>pr_hasher := h\<rparr>"] by (simp_all add: slab_same_def)
  have "hashed B h (snd (F i))" using rd by (auto simp: read_of_def)
  note hash = hashed_final [OF B this]
  show "hasher_finalize B h HASH_LEN = blake3_hash B (snd (F i))" by (fact hash)
  show "processor_print_hash i (blake3_hash B (snd (F i))) ?p = Inr q"
    using print_hash_ok [of ?p i a "fst (F i)"] data path il hash(2) held_slot(4) [OF inv held] invD(7) [OF inv]
    by (simp add: file_line_def q)
  show "inv B F n L G q E" using inv_stdout [OF invp] line invD(8) [OF inv] by (simp add: q)
  show "held q E i" using heldp by (simp add: held_def slab_free_def q)
  show "path_bytes (p_heap q) (pr_data (p_reqs q ! i)) = Inr (map of_char (fst (F i) @ [NUL]))"
    using data il by (simp add: path_bytes_def q)
qed

text \<open>Otherwise the next block is read at the next offset.\<close>

lemma read_more:
  assumes inv: "inv B F n L G p E" and held: "held p E i" and i: "slot_reading B F p i"
    and rd: "read_of B F p i off k h" and line: "file_line B n i (F i) \<in> L"
    and R: "\<And>p'. inv B F n L G p' E \<Longrightarrow> p_stdout p' = p_stdout p \<Longrightarrow> R p'"
  shows "wp Q R (iou_submit (Slab_Req i) (req_upd (Slab_Req i) (\<lambda>r. r\<lparr>rq_off := Num (off + of_nat k)\<rparr>)
     (slot_upd i (\<lambda>r. r\<lparr>pr_hasher := h\<rparr>) p)))"
proof -
  have il: "i < length (p_reqs p)" using held by (simp add: held_def)
  let ?off = "off + of_nat k"
  have "length (snd (F i)) < 2 ^ 63" using i by (auto simp: slot_reading_def Let_def)
  with rd have small: "unat off + k < 2 ^ 64" by (simp add: read_of_def)
  then have "unat (of_nat k :: u64) = k" by (intro unat_of_nat_64) simp
  with small have uoff: "unat ?off = unat off + k"
    using unat_add_lem [of off "of_nat k"] by (simp only: len_num1 len_num0 len_bit0) simp
  let ?g = "\<lambda>r. r\<lparr>pr_hasher := h, pr_req := (pr_req r)\<lparr>rq_off := Num ?off\<rparr>\<rparr>"
  have "slot_busy B F n L (slot_upd i ?g p) i"
    using i il rd uoff line by (auto simp: slot_busy_def slot_reading_def read_of_def Let_def)
  moreover have "inv B F n L G (slot_upd i ?g p) E" "held (slot_upd i ?g p) E i"
    using inv_slot [OF inv held, of ?g] by (simp_all add: slab_same_def)
  ultimately have "wp Q R (iou_submit (Slab_Req i) (slot_upd i ?g p))"
    using R by (intro submit_held) auto
  moreover have "req_upd (Slab_Req i) (\<lambda>r. r\<lparr>rq_off := Num ?off\<rparr>) (slot_upd i (\<lambda>r. r\<lparr>pr_hasher := h\<rparr>) p) = slot_upd i ?g p"
    using il by (simp add: slot_upd_def)
  ultimately show ?thesis by simp
qed

lemma on_file_read_inv:
  assumes inv: "inv B F n L G p E" and held: "held p E i" and i: "slot_reading B F p i" and B: "blake3_streaming B"
    and req: "req = pr_req (p_reqs p ! i)" "rq_off req = Num off"
    and ans: "read_answer (snd (F i)) (unat off) (rq_result req) (p_buffers p i)"
    and line: "file_line B n i (F i) \<in> L"
    and R: "\<And>p'. inv B F n L G p' E \<Longrightarrow>
      p_stdout p' = p_stdout p @ (if rq_result req = 0 then [file_line B n i (F i)] else []) \<Longrightarrow> R p'"
  shows "wp (\<lambda>f. rq_result req = 0 \<and> verify_faults B X F p i f) R (on_file_read B X (Slab_Req i) p)"
    (is "wp ?V R _")
proof -
  note ptrs = held_slot [OF inv held]
  let ?cleanup = "\<lambda>p. bind_res (release (Slab_Req i) i p) (\<lambda>p'. Inr (p'\<lparr>p_closed := p_closed p' @ [rq_fd req]\<rparr>))"
  have cleanup: "wp Q R (?cleanup p1)"
    if "inv B F n L G p1 E" "held p1 E i"
      "p_stdout p1 = p_stdout p @ (if rq_result req = 0 then [file_line B n i (F i)] else [])" for Q p1
    unfolding wp_bind by (rule release_inv [OF that(1,2)]) (simp add: R inv_closed that(3))
  show ?thesis
  proof (cases "sint (rq_result req) < 0")
    case True
    then have "rq_result req \<noteq> 0" by auto
    with True ptrs req cleanup [OF inv held] show ?thesis by (simp add: on_file_read_def Let_def)
  next
    case False
    then have nn: "0 \<le> sint (rq_result req)" by simp
    let ?h = "hasher_update B (pr_hasher (p_reqs p ! i)) (unat (rq_result req)) (p_buffers p i)"
    note rd = read_ofI [OF i req(2) [unfolded req(1)] ans nn]
    have buf: "length (p_buffers p i) = READ_BUF_SIZE" "rq_addr req = Addr (Obj_Buffer i)"
      using invD(6) [OF inv] i req(1) by (auto simp: env_ok_def slot_reading_def Let_def)
    have n: "unat (rq_result req) \<le> READ_BUF_SIZE" using rd(1) by (simp add: read_of_def)
    show ?thesis
    proof (cases "rq_result req = 0")
      case True
      let ?q = "(slot_upd i (\<lambda>r. r\<lparr>pr_hasher := ?h\<rparr>) p)\<lparr>p_stdout := p_stdout p @ [file_line B n i (F i)]\<rparr>"
      from rd True have "read_of B F p i off 0 ?h" "unat off = length (snd (F i))" by simp_all
      note e = read_end_print [OF inv held i B this line refl]
      have "wp ?V (\<lambda>v. wp ?V R (?cleanup (?q\<lparr>p_verifier := v\<rparr>)))
          (verifier_verify_hash X (pr_data2 (p_reqs p ! i)) (map of_char (fst (F i) @ [NUL])) (of_nat HASH_LEN)
             (blake3_hash B (snd (F i))) (p_verifier p))"
        using True e(3,4)
        by (intro verify_hash_wp cleanup inv_verifier) (simp_all add: held_def slab_free_def verify_faults_def)
      moreover have "pr_data2 (p_reqs ?q ! i) = pr_data2 (p_reqs p ! i)" using ptrs held by (simp add: held_def)
      ultimately show ?thesis
        using True ptrs req(1) buf n e by (simp add: on_file_read_def buffer_at_def Let_def)
    next
      case nz: False
      have "wp ?V R (iou_submit (Slab_Req i) (req_upd (Slab_Req i)
          (\<lambda>r. r\<lparr>rq_off := Num (off + of_nat (unat (rq_result req)))\<rparr>) (slot_upd i (\<lambda>r. r\<lparr>pr_hasher := ?h\<rparr>) p)))"
        using R nz by (intro read_more [OF inv held i rd(1) line]) auto
      then show ?thesis
        using False nz ptrs req buf n scast_nonneg_32 [OF nn]
        by (simp add: on_file_read_def buffer_at_def add_off_def Let_def del: req_upd.simps)
    qed
  qed
qed

section \<open>The queue handler\<close>

lemma inv_queue:
  "inv B F n L G p E \<Longrightarrow> q_events q = q_events (p_queue p) \<Longrightarrow> inv B F n L G (p\<lparr>p_queue := q, p_fds := t\<rparr>) E"
  by (rule inv_outside) (auto simp: slab_view_def fixed_ok_def inv_def env_ok_def)

lemma event_term_zero: "event_term event_zero"
  by (simp add: event_term_def event_zero_def MAX_FILENAME_LEN_def)

lemma consume_wp:
  assumes "\<And>k. event_term (q_events q k)" "\<And>errno. eventfd_read t efd = Inl errno \<Longrightarrow> errno \<noteq> EAGAIN \<Longrightarrow> Q (Exit 1)"
    and "\<And>ret e q' t'. event_term e \<Longrightarrow> q_events q' = q_events q \<Longrightarrow> R (ret, e, q', t')"
  shows "wp Q R (queue_consume_try t efd event_zero q)"
  using assms event_term_zero by (auto simp: queue_consume_try_def split: sum.splits)

lemma submit_poll_inv:
  "inv B F n L G p E \<Longrightarrow> (\<And>p'. inv B F n L G p' E \<Longrightarrow> R p') \<Longrightarrow> wp Q R (processor_submit_poll_reqs p)"
  unfolding processor_submit_poll_reqs_def by (rule submit_fixed) auto

text \<open>A poll completion never makes the program touch memory it should not; it may end it.\<close>

text \<open>
  When \<open>on_queue_event\<close> ends the program: the poll failed for a bad descriptor, the eventfd cannot be
  read, no request is free, or there is no memory for the path.
\<close>

definition queue_gives_up :: "('h, 'w) processor \<Rightarrow> i32 \<Rightarrow> bool" where
  "queue_gives_up p res \<longleftrightarrow>
     (if sint res < 0 then res = - of_nat EBADF \<or> res = - of_nat EINVAL
      else (\<exists>errno. eventfd_read (p_fds p) (rq_fd (p_queue_poll_req p)) = Inl errno \<and> errno \<noteq> EAGAIN)
           \<or> slab_free p = {} \<or> \<not> p_strdup_ok p (p_strdups p))"

lemma on_queue_event_inv:
  assumes inv: "inv B F n L G p E" and Q: "queue_gives_up p (rq_result (p_queue_poll_req p)) \<Longrightarrow> Q (Exit 1)"
    and R: "\<And>p'. inv B F n L G p' E \<Longrightarrow> R p'"
  shows "wp Q R (on_queue_event Queue_Poll_Req p)"
proof -
  have data: "as_processor (rq_data (p_queue_poll_req p)) = Inr ()"
    using invD(5) [OF inv] by (simp add: fixed_ok_def as_processor_def)
  have ev: "\<And>k. event_term (q_events (p_queue p) k)" using invD(6) [OF inv] by (simp add: env_ok_def)
  have arm: "wp Q R (arm_poll Queue_Poll_Req p')" if "inv B F n L G p' E" for p'
    using submit_poll_inv [OF that, of R Q] R that by (simp add: arm_poll_def)
  have "wp Q (\<lambda>c. wp Q R (consume_event Queue_Poll_Req c p))
      (queue_consume_try (p_fds p) (rq_fd (p_queue_poll_req p)) event_zero (p_queue p))"
    if nn: "\<not> sint (rq_result (p_queue_poll_req p)) < 0"
  proof (rule consume_wp [where Q = Q, OF ev])
    show "Q (Exit 1)" if "eventfd_read (p_fds p) (rq_fd (p_queue_poll_req p)) = Inl errno" "errno \<noteq> EAGAIN" for errno
      using Q that nn by (auto simp: queue_gives_up_def)
    fix ret e t and q :: queue
    assume e: "event_term e" and "q_events q = q_events (p_queue p)"
    then have inv': "inv B F n L G (p\<lparr>p_queue := q, p_fds := t\<rparr>) E" by (intro inv_queue [OF inv])
    have "wp Q (\<lambda>p'. wp Q R (arm_poll Queue_Poll_Req p')) (open_event e (p\<lparr>p_queue := q, p_fds := t\<rparr>))"
      using Q nn by (intro open_event_inv [OF inv' e _ arm]) (auto simp: queue_gives_up_def slab_free_def)
    with arm [OF inv'] show "wp Q R (consume_event Queue_Poll_Req (ret, e, q, t) p)"
      by (simp add: consume_event_def Let_def)
  qed
  then show ?thesis
    using data Q submit_poll_inv [OF inv R] by (simp add: on_queue_event_def queue_gives_up_def Let_def)
qed

section \<open>The socket handlers\<close>

lemma inv_req_fixed:
  assumes "inv B F n L G p E" "\<And>i. ptr \<noteq> Slab_Req i" "ptr \<noteq> Queue_Poll_Req" "fixed_ok (req_upd ptr f p)"
  shows "inv B F n L G (req_upd ptr f p) E"
  using assms invD(6,8) [OF assms(1)]
  by (intro inv_outside [OF assms(1)]) (cases ptr; auto simp: slab_view_def env_ok_def)+

lemma flush_wp:
  "(\<And>t v'. verifier_frame v' = verifier_frame v \<Longrightarrow> R (t, v')) \<Longrightarrow> wp (\<lambda>_. True) R (verifier_quic_flush X v)"
  by (cases "verifier_quic_flush X v") (auto dest: flush_frame)

lemma inv_expiry:
  assumes "inv B F n L G p E" "verifier_frame v = verifier_frame (p_verifier p)"
  shows "inv B F n L G (p\<lparr>p_verifier := v\<lparr>v_expiry := e\<rparr>\<rparr>) E"
  using assms invD(5,6,8) [OF assms(1)]
  by (intro inv_outside [OF assms(1)]) (simp_all add: slab_view_def fixed_ok_def env_ok_def verifier_frame_def)

text \<open>Arming or updating the timer uses one more slot of the slab at most.\<close>

lemma arm_timer_inv:
  assumes inv: "inv B F n L G p E" and R: "\<And>p'. inv B F n L G p' E \<Longrightarrow> R p'"
  shows "wp (\<lambda>_. True) (\<lambda>(ptr, p'). wp (\<lambda>_. True) R
    (iou_submit ptr (req_upd ptr (\<lambda>r. r\<lparr>rq_fd := 0, rq_len := 1\<rparr>) p'))) (arm_timer p)"
proof (cases "rq_opcode (req_at Timer_Req p) = IORING_OP_TIMEOUT")
  case True
  let ?f = "\<lambda>r. r\<lparr>rq_opcode := IORING_OP_TIMEOUT_REMOVE,
     rq_flags := IORING_TIMEOUT_UPDATE, rq_addr := Addr Obj_Verifier, rq_off := Addr Obj_Expiry,
     rq_callback := CB_on_socket_timeout_update\<rparr>"
  let ?g = "\<lambda>r. r\<lparr>pr_req := (?f (pr_req r))\<lparr>rq_fd := 0, rq_len := 1\<rparr>\<rparr>"
  have "wp (\<lambda>_. True) R (iou_submit (Slab_Req i)
      (req_upd (Slab_Req i) (\<lambda>r. r\<lparr>rq_fd := 0, rq_len := 1\<rparr>) (req_upd (Slab_Req i) ?f p1)))"
    if p1: "inv B F n L G p1 E" "held p1 E i" "pr_data (p_reqs p1 ! i) = None" for i and p1 :: "('a, 'b) processor"
  proof -
    have il: "i < length (p_reqs p1)" using p1(2) by (simp add: held_def)
    have eq: "req_upd (Slab_Req i) (\<lambda>r. r\<lparr>rq_fd := 0, rq_len := 1\<rparr>) (req_upd (Slab_Req i) ?f p1) = slot_upd i ?g p1"
      using il by (simp add: slot_upd_def)
    have "inv B F n L G (slot_upd i ?g p1) E" "held (slot_upd i ?g p1) E i"
      using inv_slot [OF p1(1,2), of ?g] by (simp_all add: slab_same_def)
    moreover have "slot_busy B F n L (slot_upd i ?g p1) i"
      using p1(3) il by (simp add: slot_busy_def slot_updating_def)
    ultimately show ?thesis unfolding eq by (intro submit_held) (auto intro: R)
  qed
  then show ?thesis
    unfolding arm_timer_def if_P [OF True] wp_bind
    by (intro get_req_inv [OF inv]) (simp_all del: req_upd.simps)
next
  case False
  let ?f = "\<lambda>r. r\<lparr>rq_opcode := IORING_OP_TIMEOUT, rq_addr := Addr Obj_Expiry,
     rq_off := Num 0, rq_flags := 0, rq_callback := CB_on_socket_timeout, rq_data := Data_Verifier\<rparr>"
  have "inv B F n L G (req_upd Timer_Req (\<lambda>r. r\<lparr>rq_fd := 0, rq_len := 1\<rparr>) (req_upd Timer_Req ?f p)) E"
    using invD(5) [OF inv] by (intro inv_req_fixed inv) (auto simp: fixed_ok_def)
  from submit_fixed [OF this, of Timer_Req R] R show ?thesis
    unfolding arm_timer_def if_not_P [OF False] by (simp del: req_upd.simps)
qed

lemma flush_egress_inv:
  assumes "inv B F n L G p E" "\<And>p'. inv B F n L G p' E \<Longrightarrow> R p'"
  shows "wp (\<lambda>_. True) R (verifier_flush_egress X p)"
  unfolding verifier_flush_egress_def wp_bind
  by (rule flush_wp) (simp add: Let_def arm_timer_inv [OF inv_expiry [OF assms(1)] assms(2), unfolded case_prod_unfold] case_prod_unfold del: req_upd.simps)

lemma inv_verifier_reqs:
  assumes "inv B F n L G p E" and "v_conn_req v = v_conn_req (p_verifier p)"
    "v_recv_req v = v_recv_req (p_verifier p)" "v_timer_req v = v_timer_req (p_verifier p)"
  shows "inv B F n L G (p\<lparr>p_verifier := v\<rparr>) E"
  using assms invD(5,6,8) [OF assms(1)]
  by (intro inv_outside [OF assms(1)]) (simp_all add: slab_view_def fixed_ok_def env_ok_def)

lemma handle_expiry_wp:
  "(\<And>r w. R (r, v\<lparr>v_world := w\<rparr>)) \<Longrightarrow> wp (\<lambda>_. True) R (verifier_quic_handle_expiry X v)"
  by (auto simp: verifier_quic_handle_expiry_def intro!: wp_any split: prod.splits)

lemma quic_read_wp:
  "(\<And>r w e. R (r, v\<lparr>v_world := w, v_last_error := e\<rparr>)) \<Longrightarrow> (\<And>r w. R (r, v\<lparr>v_world := w\<rparr>))
     \<Longrightarrow> wp (\<lambda>_. True) R (verifier_quic_read X k v)"
  by (auto simp: verifier_quic_read_def Let_def intro!: wp_any split: prod.splits)

lemma quic_init_wp:
  "(\<And>r w c. R (r, v\<lparr>v_world := w, v_conn := c\<rparr>)) \<Longrightarrow> (\<And>r w. R (r, v\<lparr>v_world := w\<rparr>))
     \<Longrightarrow> wp (\<lambda>_. True) R (verifier_quic_init X v)"
  by (auto simp: verifier_quic_init_def intro!: wp_any split: prod.splits option.splits)

text \<open>The callbacks of the verifier keep the invariant, whatever their external calls return.\<close>

lemma on_socket_timeout_inv:
  assumes "inv B F n L G p E" "\<And>p'. inv B F n L G p' E \<Longrightarrow> R p'"
  shows "wp (\<lambda>_. True) R (on_socket_timeout X ptr p)"
  unfolding on_socket_timeout_def wp_bind
  by (intro wp_any [where 'a = unit] handle_expiry_wp)
    (simp add: assms(2) inv_verifier_reqs [OF assms(1)])

lemma on_socket_read_inv:
  assumes inv: "inv B F n L G p E" and R: "\<And>p'. inv B F n L G p' E \<Longrightarrow> R p'"
  shows "wp (\<lambda>_. True) R (on_socket_read X ptr p)"
proof -
  have "wp (\<lambda>_. True) (\<lambda>x. wp (\<lambda>_. True) R (verifier_flush_egress X x)) (iou_submit Recv_Req (p\<lparr>p_verifier := v\<rparr>))"
    if "inv B F n L G (p\<lparr>p_verifier := v\<rparr>) E" for v
    by (rule submit_fixed [OF that]) (simp_all add: flush_egress_inv R)
  with inv_verifier_reqs [OF inv] show ?thesis
    unfolding on_socket_read_def Let_def wp_bind wp_if
    by (auto intro!: wp_any [where 'a = unit] quic_read_wp)
qed

lemma on_socket_connect_inv:
  assumes inv: "inv B F n L G p E" and R: "\<And>p'. inv B F n L G p' E \<Longrightarrow> R p'"
  shows "wp (\<lambda>_. True) R (on_socket_connect X ptr p)"
proof -
  let ?f = "\<lambda>fd r. r\<lparr>rq_opcode := IORING_OP_READ, rq_fd := fd,
                          rq_addr := Addr Obj_Readbuf, rq_off := Num 0, rq_len := READBUF_SIZE,
                          rq_flags := 0, rq_callback := CB_on_socket_read, rq_data := Data_Verifier\<rparr>"
  have "wp (\<lambda>_. True) (\<lambda>x. wp (\<lambda>_. True) R (verifier_flush_egress X x))
      (iou_submit Recv_Req (req_upd Recv_Req (?f fd) (p\<lparr>p_verifier := v\<rparr>)))"
    if "inv B F n L G (p\<lparr>p_verifier := v\<rparr>) E" for v fd
  proof (rule submit_fixed)
    show "inv B F n L G (req_upd Recv_Req (?f fd) (p\<lparr>p_verifier := v\<rparr>)) E"
      using invD(5) [OF that] by (intro inv_req_fixed [OF that]) (auto simp: fixed_ok_def)
  qed (simp_all add: flush_egress_inv R)
  with inv_verifier_reqs [OF inv] show ?thesis
    unfolding on_socket_connect_def Let_def wp_bind wp_if
    by (auto intro!: wp_any [where 'a = unit] quic_init_wp simp del: req_upd.simps)
qed

lemma on_socket_create_inv:
  assumes inv: "inv B F n L G p E" and R: "\<And>p'. inv B F n L G p' E \<Longrightarrow> R p'"
  shows "wp (\<lambda>_. True) R (on_socket_create X ptr p)"
proof -
  let ?f = "\<lambda>fd len r. r\<lparr>rq_opcode := IORING_OP_CONNECT, rq_fd := fd,
     rq_addr := Addr Obj_Remote_Addr, rq_off := Num (ucast len), rq_len := 0,
     rq_flags := 0, rq_callback := CB_on_socket_connect, rq_data := Data_Verifier\<rparr>"
  have "wp (\<lambda>_. True) R (iou_submit Conn_Req (req_upd Conn_Req (?f fd len)
      (verifier_upd (\<lambda>v. v\<lparr>v_sock_fd := fd, v_world := w, v_remote_addr_len := len\<rparr>) p)))" for fd w len
  proof (rule submit_fixed)
    have "inv B F n L G (verifier_upd (\<lambda>v. v\<lparr>v_sock_fd := fd, v_world := w, v_remote_addr_len := len\<rparr>) p) E"
      by (rule inv_verifier_reqs [OF inv]) simp_all
    then show "inv B F n L G (req_upd Conn_Req (?f fd len)
        (verifier_upd (\<lambda>v. v\<lparr>v_sock_fd := fd, v_world := w, v_remote_addr_len := len\<rparr>) p)) E"
      using invD(5) [OF inv] by (intro inv_req_fixed) (auto simp: fixed_ok_def)
  qed (simp_all add: R)
  then show ?thesis
    unfolding on_socket_create_def Let_def wp_bind wp_if
    by (auto intro!: wp_any [where 'a = unit] simp del: req_upd.simps split: prod.splits option.splits)
qed

lemma on_socket_timeout_update_inv:
  assumes "inv B F n L G p E" "held p E i" "\<And>p'. inv B F n L G p' E \<Longrightarrow> R p'"
  shows "wp Q R (on_socket_timeout_update (Slab_Req i) p)"
  unfolding on_socket_timeout_update_def by (rule free_req_inv [OF assms(1,2)]) (rule assms(3))

end
