(* ===== verification/Processor_System.thy ===== *)
theory Processor_System
  imports Processor_Safety
begin

text \<open>
  A processor thread together with the kernel side of io_uring, as a step relation.  The kernel
  takes submissions, completes them in any order, and the loop of \<open>ev_loop_run\<close> polls, handles the
  completions it found one by one, and hands them back.  Every interleaving of these steps is
  possible.
\<close>

section \<open>One completion\<close>

text \<open>The answer of the kernel fits what the slot is doing; \<open>bufs\<close> are the read buffers.\<close>

definition answer_ok ::
  "'h blake3 \<Rightarrow> files \<Rightarrow> i32 \<Rightarrow> string set \<Rightarrow> (nat \<Rightarrow> u8 list) \<Rightarrow> i32 \<Rightarrow> ('h, 'w) processor \<Rightarrow> nat \<Rightarrow> bool" where
  "answer_ok B F n L bufs res p i \<longleftrightarrow>
     (slot_opening p i \<longrightarrow> 0 \<le> sint res \<longrightarrow>
        length (snd (F i)) < 2 ^ 63 \<and> file_line B n i (F i) \<in> L \<and> slot_path p i = Some (fst (F i))) \<and>
     (\<forall>off. slot_reading B F p i \<longrightarrow> rq_off (pr_req (p_reqs p ! i)) = Num off \<longrightarrow>
        read_answer (snd (F i)) (unat off) res (bufs i))"

lemma inv_set_result_fixed:
  assumes "inv B F n L G p E" "\<And>i. ptr \<noteq> Slab_Req i"
  shows "inv B F n L G (req_upd ptr (set_result c) p) E"
  using assms(2) invD(5,6,8) [OF assms(1)]
  by (intro inv_outside [OF assms(1)]) (cases ptr; auto simp: slab_view_def fixed_ok_def env_ok_def set_result_def)+

lemma set_result_slot:
  assumes "i < length (p_reqs p)"
  shows "slot_opening (req_upd (Slab_Req i) (set_result c) p) i = slot_opening p i"
    "slot_reading B F (req_upd (Slab_Req i) (set_result c) p) i = slot_reading B F p i"
    "slot_updating (req_upd (Slab_Req i) (set_result c) p) i = slot_updating p i"
  using assms by (simp_all add: slot_opening_def slot_reading_def slot_updating_def set_result_def Let_def)

lemma inv_set_result_slab:
  assumes "inv B F n L G p E" "held p E i"
  shows "inv B F n L G (req_upd (Slab_Req i) (set_result c) p) E"
    "held (req_upd (Slab_Req i) (set_result c) p) E i"
  using inv_slot [OF assms, of "\<lambda>r. r\<lparr>pr_req := set_result c (pr_req r)\<rparr>"]
  by (simp_all add: slab_same_def set_result_def)

text \<open>A completion for a slot of the slab.\<close>

lemma dispatch_slab:
  assumes inv: "inv B F n L G p E" and B: "blake3_streaming B" and i: "i \<in> E"
    and c: "cqe_user_data c = Slab_Req i" and ans: "answer_ok B F n L (p_buffers p) (cqe_res c) p i"
    and R: "\<And>p'. inv B F n L G p' (E - {i}) \<Longrightarrow> R p'"
  shows "wp (\<lambda>f. rq_callback (req_at (Slab_Req i) p) = CB_on_file_read \<and> cqe_res c = 0 \<and> verify_faults B X F p i f) R
     (dispatch B X c p)" (is "wp ?V R _")
proof -
  let ?p = "req_upd (Slab_Req i) (set_result c) p"
  note inv0 = inv_drop [OF inv Diff_subset, of "{i}"]
  note held0 = held_outstanding [OF inv i]
  note inv1 = inv_set_result_slab(1) [OF inv0 held0, of c]
  note held1 = inv_set_result_slab(2) [OF inv0 held0, of c]
  have il: "i < length (p_reqs p)" using held0 by (simp add: held_def)
  note slot = set_result_slot [OF il, where c = c]
  have res: "rq_result (pr_req (p_reqs ?p ! i)) = cqe_res c" and cb: "rq_callback (pr_req (p_reqs ?p ! i)) = rq_callback (pr_req (p_reqs p ! i))"
    and off: "rq_off (pr_req (p_reqs ?p ! i)) = rq_off (pr_req (p_reqs p ! i))"
    and fields: "p_buffers ?p = p_buffers p" "p_heap ?p = p_heap p" "pr_data (p_reqs ?p ! i) = pr_data (p_reqs p ! i)"
    using il by (simp_all add: set_result_def)
  have disp: "dispatch B X c p = call_back B X (rq_callback (pr_req (p_reqs p ! i))) (Slab_Req i) ?p"
    using il c cb by (simp add: dispatch_def Let_def)
  have "slot_busy B F n L p i" using inv i by (auto simp: inv_def busy_ok_def)
  then consider (op) "slot_opening p i" | (rd) "slot_reading B F p i" "file_line B n i (F i) \<in> L" | (up) "slot_updating p i"
    by (auto simp: slot_busy_def)
  then show ?thesis
  proof cases
    case op
    then obtain a where a: "pr_data (p_reqs p ! i) = Some a" and
      cb': "rq_callback (pr_req (p_reqs p ! i)) = CB_on_file_open" by (auto simp: slot_opening_def Let_def)
    have "wp ?V R (on_file_open B (Slab_Req i) ?p)"
      using ans op a res fields
      by (intro on_file_open_inv [OF inv1 held1]) (simp_all only: slot R, auto simp: answer_ok_def slot_path_def)
    with disp cb' show ?thesis by (simp add: call_back_def)
  next
    case rd
    then obtain o' where o': "rq_off (pr_req (p_reqs p ! i)) = Num o'" and
      cb': "rq_callback (pr_req (p_reqs p ! i)) = CB_on_file_read" by (auto simp: slot_reading_def Let_def)
    have "wp (\<lambda>f. rq_result (pr_req (p_reqs ?p ! i)) = 0 \<and> verify_faults B X F ?p i f) R (on_file_read B X (Slab_Req i) ?p)"
    proof (rule on_file_read_inv [OF inv1 held1 _ B refl])
      show "read_answer (snd (F i)) (unat o') (rq_result (pr_req (p_reqs ?p ! i))) (p_buffers ?p i)"
        using ans rd o' unfolding res fields by (simp add: answer_ok_def)
    qed (use rd slot off o' R in simp_all)
    then have "wp ?V R (on_file_read B X (Slab_Req i) ?p)"
      by (rule wp_mono) (use res cb' il in \<open>auto simp: verify_faults_def\<close>)
    with disp cb' show ?thesis by (simp add: call_back_def)
  next
    case up
    then have cb': "rq_callback (pr_req (p_reqs p ! i)) = CB_on_socket_timeout_update"
      by (auto simp: slot_updating_def Let_def)
    with disp on_socket_timeout_update_inv [OF inv1 held1] R show ?thesis by (simp add: call_back_def)
  qed
qed

text \<open>Completions of the requests that are not in the slab.\<close>

lemma dispatch_poll:
  assumes "inv B F n L G p E" "cqe_user_data c = Queue_Poll_Req" "\<And>p'. inv B F n L G p' E \<Longrightarrow> R p'"
  shows "wp (\<lambda>f. f = Exit 1 \<and> queue_gives_up p (cqe_res c)) R (dispatch B X c p)"
proof -
  let ?p = "req_upd Queue_Poll_Req (set_result c) p"
  have inv: "inv B F n L G (req_upd Queue_Poll_Req (set_result c) p) E"
    by (rule inv_set_result_fixed [OF assms(1)]) simp
  have "rq_callback (req_at Queue_Poll_Req (req_upd Queue_Poll_Req (set_result c) p)) = CB_on_queue_event"
    using invD(5) [OF inv] by (simp add: fixed_ok_def)
  moreover have "wp (\<lambda>f. f = Exit 1 \<and> queue_gives_up p (cqe_res c)) R (on_queue_event Queue_Poll_Req ?p)"
    by (rule on_queue_event_inv [OF inv _ assms(3)]) (auto simp: queue_gives_up_def set_result_def slab_free_def)
  ultimately show ?thesis using assms(2) by (simp add: dispatch_def call_back_def Let_def)
qed

lemma dispatch_socket:
  assumes "inv B F n L G p E" "cqe_user_data c \<in> {Conn_Req, Recv_Req, Timer_Req}" "\<And>p'. inv B F n L G p' E \<Longrightarrow> R p'"
  shows "wp (\<lambda>_. True) R (dispatch B X c p)"
proof -
  let ?ptr = "cqe_user_data c"
  let ?p = "req_upd ?ptr (set_result c) p"
  have inv: "inv B F n L G ?p E"
    by (rule inv_set_result_fixed [OF assms(1)]) (use assms(2) in auto)
  have "rq_callback (req_at ?ptr ?p) \<in> {CB_NULL, CB_on_socket_create, CB_on_socket_connect, CB_on_socket_read, CB_on_socket_timeout}"
    using assms(2) invD(5) [OF inv] by (auto simp: fixed_ok_def)
  moreover note on_socket_create_inv [where R = R, OF inv assms(3)] on_socket_connect_inv [where R = R, OF inv assms(3)]
    on_socket_read_inv [where R = R, OF inv assms(3)] on_socket_timeout_inv [where R = R, OF inv assms(3)]
  ultimately have "wp (\<lambda>_. True) R (call_back B X (rq_callback (req_at ?ptr ?p)) ?ptr ?p)"
    by (auto simp: call_back_def simp del: req_upd.simps req_at.simps)
  with assms(2) show ?thesis by (auto simp: dispatch_def Let_def simp del: req_upd.simps req_at.simps)
qed

section \<open>The system\<close>

text \<open>
  \<open>s_kernel\<close> are the submissions the kernel has taken and not completed.  \<open>s_batch\<close> is the number of
  completions the current round of the loop found, \<open>s_done\<close> how many of them it has handled.
  \<open>s_files\<close> is the file each slot opened last, \<open>s_opened\<close> all files opened so far.
\<close>

record ('h, 'w) sys =
  s_proc :: "('h, 'w) processor"
  s_kernel :: "io_uring_sqe list"
  s_done :: nat
  s_batch :: nat
  s_files :: files
  s_opened :: "(string \<times> u8 list) list"

abbreviation proc_upd :: "(('h, 'w) processor \<Rightarrow> ('h, 'w) processor) \<Rightarrow> ('h, 'w) sys \<Rightarrow> ('h, 'w) sys" where
  "proc_upd f s \<equiv> s\<lparr>s_proc := f (s_proc s)\<rparr>"

inductive thread_step :: "'h blake3 \<Rightarrow> 'w quic \<Rightarrow> ('h, 'w) sys \<Rightarrow> ('h, 'w) sys \<Rightarrow> bool" for B X where
  Take: "sq_consume (p_loop (s_proc s)) = Some (e, l) \<Longrightarrow>
    thread_step B X s (proc_upd (\<lambda>p. p\<lparr>p_loop := l\<rparr>) s\<lparr>s_kernel := s_kernel s @ [e]\<rparr>)"
  \<comment> \<open>the kernel opens a file; it reads the path through the pointer of the request\<close>
| Open: "s_kernel s = ks @ e # ks' \<Longrightarrow> sqe_user_data e = Some (Slab_Req i) \<Longrightarrow> sqe_opcode e = IORING_OP_OPENAT \<Longrightarrow>
    sqe_addr e = Addr (Obj_Path a) \<Longrightarrow> p_heap (s_proc s) a \<in> {Some path, None} \<Longrightarrow>
    0 \<le> sint res \<Longrightarrow> length content < 2 ^ 63 \<Longrightarrow>
    cq_post \<lparr>cqe_user_data = Slab_Req i, cqe_res = res, cqe_flags = 0\<rparr> (p_loop (s_proc s)) = Some l \<Longrightarrow>
    thread_step B X s (proc_upd (\<lambda>p. p\<lparr>p_loop := l\<rparr>) s\<lparr>s_kernel := ks @ ks',
      s_files := (s_files s)(i := (path, content)), s_opened := s_opened s @ [(path, content)]\<rparr>)"
  \<comment> \<open>the kernel reads from the file of the slot into the buffer of the request\<close>
| Read: "s_kernel s = ks @ e # ks' \<Longrightarrow> sqe_user_data e = Some (Slab_Req i) \<Longrightarrow> sqe_opcode e = IORING_OP_READ \<Longrightarrow>
    sqe_addr e = Addr (Obj_Buffer k) \<Longrightarrow> sqe_off e = Num off \<Longrightarrow> length buf = READ_BUF_SIZE \<Longrightarrow>
    read_answer (snd (s_files s i)) (unat off) res buf \<Longrightarrow>
    cq_post \<lparr>cqe_user_data = Slab_Req i, cqe_res = res, cqe_flags = 0\<rparr> (p_loop (s_proc s)) = Some l \<Longrightarrow>
    thread_step B X s (proc_upd (\<lambda>p. p\<lparr>p_loop := l, p_buffers := (p_buffers p)(k := buf)\<rparr>) s\<lparr>s_kernel := ks @ ks'\<rparr>)"
  \<comment> \<open>a request of the slab fails, or updates a timer\<close>
| Done: "s_kernel s = ks @ e # ks' \<Longrightarrow> sqe_user_data e = Some (Slab_Req i) \<Longrightarrow>
    sint res < 0 \<or> sqe_opcode e = IORING_OP_TIMEOUT_REMOVE \<Longrightarrow>
    cq_post \<lparr>cqe_user_data = Slab_Req i, cqe_res = res, cqe_flags = 0\<rparr> (p_loop (s_proc s)) = Some l \<Longrightarrow>
    thread_step B X s (proc_upd (\<lambda>p. p\<lparr>p_loop := l\<rparr>) s\<lparr>s_kernel := ks @ ks'\<rparr>)"
  \<comment> \<open>any completion of the poll, socket and timer requests; a multishot poll stays in the kernel\<close>
| Other: "s_kernel s = ks @ e # ks' \<Longrightarrow> sqe_user_data e = Some ptr \<Longrightarrow> (\<And>i. ptr \<noteq> Slab_Req i) \<Longrightarrow>
    ks'' = (if fl AND IORING_CQE_F_MORE = 0 then ks @ ks' else s_kernel s) \<Longrightarrow>
    cq_post \<lparr>cqe_user_data = ptr, cqe_res = res, cqe_flags = fl\<rparr> (p_loop (s_proc s)) = Some l \<Longrightarrow>
    thread_step B X s (proc_upd (\<lambda>p. p\<lparr>p_loop := l, p_verifier := (p_verifier p)\<lparr>v_readbuf := rb\<rparr>\<rparr>) s\<lparr>s_kernel := ks''\<rparr>)"
  \<comment> \<open>the loop of \<open>ev_loop_run\<close>\<close>
| Poll: "s_batch s = 0 \<Longrightarrow> l = snd (ev__io_poll (p_loop (s_proc s))) \<Longrightarrow>
    thread_step B X s (proc_upd (\<lambda>p. p\<lparr>p_loop := l\<rparr>) s\<lparr>s_batch := length (cq_pending l), s_done := 0\<rparr>)"
| Reap: "s_done s < s_batch s \<Longrightarrow> dispatch B X (cq_pending (p_loop (s_proc s)) ! s_done s) (s_proc s) = Inr p' \<Longrightarrow>
    thread_step B X s (s\<lparr>s_proc := p', s_done := s_done s + 1\<rparr>)"
| Advance: "0 < s_batch s \<Longrightarrow> s_done s = s_batch s \<Longrightarrow>
    thread_step B X s (proc_upd (\<lambda>p. p\<lparr>p_loop := (p_loop p)\<lparr>cq_head := cq_head (p_loop p) + of_nat (s_batch s)\<rparr>\<rparr>) s
      \<lparr>s_batch := 0, s_done := 0\<rparr>)"

text \<open>Between the steps of the thread, the other threads use the event queue.\<close>

inductive sys_step :: "'h blake3 \<Rightarrow> 'w quic \<Rightarrow> ('h, 'w) sys \<Rightarrow> ('h, 'w) sys \<Rightarrow> bool" for B X where
  Thread: "thread_step B X s s' \<Longrightarrow> sys_step B X s s'"
| Env: "(\<And>k. event_term (q_events q k)) \<Longrightarrow> sys_step B X s (proc_upd (\<lambda>p. p\<lparr>p_queue := q, p_fds := t\<rparr>) s)"

section \<open>The invariant of the system\<close>

definition cqe_slots :: "io_uring_cqe \<Rightarrow> nat list" where
  "cqe_slots c = (case cqe_user_data c of Slab_Req i \<Rightarrow> [i] | _ \<Rightarrow> [])"

text \<open>The completions the loop has not handled.\<close>

definition unreaped :: "('h, 'w) sys \<Rightarrow> io_uring_cqe list" where
  "unreaped s = drop (s_done s) (cq_pending (p_loop (s_proc s)))"

definition out_slots :: "io_uring_sqe list \<Rightarrow> io_uring_cqe list \<Rightarrow> nat list" where
  "out_slots ks cs = concat (map sqe_slots ks) @ concat (map cqe_slots cs)"

text \<open>The lines that may be printed: those of the files opened so far.\<close>

definition good_lines :: "'h blake3 \<Rightarrow> i32 \<Rightarrow> (string \<times> u8 list) list \<Rightarrow> string set" where
  "good_lines B n fs = {file_line B n i f | i f. f \<in> set fs}"

definition expected ::
  "'h blake3 \<Rightarrow> files \<Rightarrow> i32 \<Rightarrow> string set \<Rightarrow> (nat \<Rightarrow> u8 list) \<Rightarrow> io_uring_sqe list \<Rightarrow> io_uring_cqe list
     \<Rightarrow> ('h, 'w) processor \<Rightarrow> nat \<Rightarrow> bool" where
  "expected B F n L bufs ks cs p i \<longleftrightarrow>
     (\<forall>e \<in> set ks. sqe_user_data e = Some (Slab_Req i) \<longrightarrow> e = fill_sqe (Slab_Req i) (pr_req (p_reqs p ! i))) \<and>
     (\<forall>c \<in> set cs. cqe_user_data c = Slab_Req i \<longrightarrow> answer_ok B F n L bufs (cqe_res c) p i)"

text \<open>The part of the invariant about the requests: \<open>ks\<close> are with the kernel, \<open>cs\<close> completed.\<close>

definition out_inv ::
  "'h blake3 \<Rightarrow> files \<Rightarrow> i32 \<Rightarrow> string set \<Rightarrow> io_uring_sqe list \<Rightarrow> io_uring_cqe list \<Rightarrow> ('h, 'w) processor \<Rightarrow> bool" where
  "out_inv B F n L ks cs p \<longleftrightarrow> distinct (out_slots ks cs)
     \<and> inv B F n L (expected B F n L (p_buffers p) ks cs) p (set (out_slots ks cs))"

definition sys_inv :: "'h blake3 \<Rightarrow> i32 \<Rightarrow> ('h, 'w) sys \<Rightarrow> bool" where
  "sys_inv B n s \<longleftrightarrow> cq_ok (p_loop (s_proc s)) \<and> s_done s \<le> s_batch s
     \<and> s_batch s \<le> length (cq_pending (p_loop (s_proc s)))
     \<and> out_inv B (s_files s) n (good_lines B n (s_opened s)) (s_kernel s) (unreaped s) (s_proc s)"

lemma slot_reading_path:
  "slot_reading B F p i \<longleftrightarrow> (let q = pr_req (p_reqs p ! i) in
     rq_callback q = CB_on_file_read \<and> rq_opcode q = IORING_OP_READ
     \<and> rq_addr q = Addr (Obj_Buffer i) \<and> rq_len q = of_nat READ_BUF_SIZE
     \<and> slot_path p i = Some (fst (F i)) \<and> length (snd (F i)) < 2 ^ 63
     \<and> (\<exists>off. rq_off q = Num off \<and> unat off \<le> length (snd (F i))
          \<and> hashed B (pr_hasher (p_reqs p ! i)) (take (unat off) (snd (F i)))))"
  by (cases "pr_data (p_reqs p ! i)") (auto simp: slot_reading_def slot_path_def Let_def)

lemma expected_local: "slot_local (expected B F n L bufs ks cs)"
  by (auto simp: slot_local_def expected_def answer_ok_def slot_opening_def slot_reading_path Let_def)

lemma out_slots_mem:
  "i \<in> set (out_slots ks cs) \<longleftrightarrow> (\<exists>e \<in> set ks. sqe_user_data e = Some (Slab_Req i)) \<or> (\<exists>c \<in> set cs. cqe_user_data c = Slab_Req i)"
  by (force simp: out_slots_def sqe_slots_def cqe_slots_def split: option.splits req_ptr.splits)

text \<open>Changing the loop, the expectation and the set of outstanding slots.\<close>

lemma inv_reloop:
  assumes inv: "inv B F n L G p E"
    and l: "sq_ok l" "distinct (sq_slots l)" "set (sq_pending l) \<subseteq> set (sq_pending (p_loop p))"
    and E: "set (sq_slots l) \<inter> E' = {}" "set (sq_slots l) \<union> E' \<subseteq> set (sq_slots (p_loop p)) \<union> E"
    and G: "slot_local G'" "\<And>i. i \<in> E' \<Longrightarrow> G' p i"
  shows "inv B F n L G' (p\<lparr>p_loop := l\<rparr>) E'"
proof (rule invI)
  let ?p = "p\<lparr>p_loop := l\<rparr>"
  show "slab_ok ?p" using invD(1) [OF inv] slab_view_ok [of ?p p] by (simp add: slab_view_def)
  show "loop_ok ?p E'" using invD(2) [OF inv] l E(1) by (auto simp: loop_ok_def)
  have "slab_free ?p = slab_free p" by (simp add: slab_free_def)
  then show "busy_ok B F n L ?p E'"
    using invD(3) [OF inv] E(2) slot_busy_cong [of ?p _ p] by (fastforce simp: busy_ok_def)
  show "heap_ok ?p" "fixed_ok ?p" "env_ok ?p" "p_id ?p = n" "set (p_stdout ?p) \<subseteq> L"
    using invD(4-8) [OF inv] by (simp_all add: heap_ok_def fixed_ok_def env_ok_def slab_free_def)
  have "expect_ok G' p E'" using G by (simp add: expect_ok_def)
  then show "expect_ok G' ?p E'" by (rule expect_cong) (simp_all add: slot_path_def)
qed

section \<open>Each step keeps the invariant\<close>

lemma out_invD:
  assumes "out_inv B F n L ks cs p"
  shows "distinct (out_slots ks cs)" "inv B F n L (expected B F n L (p_buffers p) ks cs) p (set (out_slots ks cs))"
    "\<And>i. i \<in> set (out_slots ks cs) \<Longrightarrow> expected B F n L (p_buffers p) ks cs p i"
  using assms by (auto simp: out_inv_def inv_def expect_ok_def)

lemma out_take:
  assumes out: "out_inv B F n L ks cs p" and take: "sq_consume (p_loop p) = Some (e, l)"
  shows "out_inv B F n L (ks @ [e]) cs (p\<lparr>p_loop := l\<rparr>)"
proof -
  note inv = out_invD(2) [OF out]
  note lo = invD(2) [OF inv]
  from sq_fifo.deq_oldest [OF _ take] lo have l: "sq_ok l" "sq_pending (p_loop p) = e # sq_pending l"
    by (auto simp: loop_ok_def)
  then have slots: "sq_slots (p_loop p) = sqe_slots e @ sq_slots l" by (simp add: sq_slots_def)
  have dist: "distinct (out_slots (ks @ [e]) cs)"
    using out_invD(1) [OF out] lo slots by (auto simp: out_slots_def loop_ok_def)
  moreover have "inv B F n L (expected B F n L (p_buffers p) (ks @ [e]) cs) (p\<lparr>p_loop := l\<rparr>)
      (set (out_slots (ks @ [e]) cs))"
  proof (rule inv_reloop [OF inv])
    show "distinct (sq_slots l)" "set (sq_slots l) \<inter> set (out_slots (ks @ [e]) cs) = {}"
      using lo slots by (auto simp: loop_ok_def out_slots_def)
    show "set (sq_slots l) \<union> set (out_slots (ks @ [e]) cs) \<subseteq> set (sq_slots (p_loop p)) \<union> set (out_slots ks cs)"
      using slots by (auto simp: out_slots_def)
    fix i assume "i \<in> set (out_slots (ks @ [e]) cs)"
    have match: "e = fill_sqe (Slab_Req i) (pr_req (p_reqs p ! i))" if "sqe_user_data e = Some (Slab_Req i)"
      using lo l(2) that by (auto simp: loop_ok_def)
    show "expected B F n L (p_buffers p) (ks @ [e]) cs p i"
    proof (cases "i \<in> set (out_slots ks cs)")
      case True
      with out_invD(3) [OF out] match show ?thesis by (auto simp: expected_def)
    next
      case False
      with match show ?thesis by (auto simp: expected_def out_slots_mem)
    qed
  qed (use l expected_local in auto)
  ultimately show ?thesis by (simp add: out_inv_def)
qed

text \<open>A submission becomes a completion of the same slot.\<close>

lemma out_post:
  assumes out: "out_inv B F n L (ks @ e # ks') cs p"
    and l: "sq_ok l" "sq_pending l = sq_pending (p_loop p)" and c: "cqe_slots c = sqe_slots e"
    and ans: "\<And>i. cqe_user_data c = Slab_Req i \<Longrightarrow> answer_ok B F n L (p_buffers p) (cqe_res c) p i"
  shows "out_inv B F n L (ks @ ks') (cs @ [c]) (p\<lparr>p_loop := l\<rparr>)"
proof -
  note inv = out_invD(2) [OF out]
  note lo = invD(2) [OF inv]
  have slots: "sq_slots l = sq_slots (p_loop p)" using l by (simp add: sq_slots_def)
  have set_eq: "set (out_slots (ks @ ks') (cs @ [c])) = set (out_slots (ks @ e # ks') cs)"
    using c by (auto simp: out_slots_def)
  have "distinct (out_slots (ks @ ks') (cs @ [c]))"
    using out_invD(1) [OF out] c by (auto simp: out_slots_def)
  moreover have "inv B F n L (expected B F n L (p_buffers p) (ks @ ks') (cs @ [c])) (p\<lparr>p_loop := l\<rparr>)
      (set (out_slots (ks @ ks') (cs @ [c])))"
    unfolding set_eq
  proof (rule inv_reloop [OF inv])
    fix i assume "i \<in> set (out_slots (ks @ e # ks') cs)"
    with out_invD(3) [OF out] ans show "expected B F n L (p_buffers p) (ks @ ks') (cs @ [c]) p i"
      by (auto simp: expected_def)
  qed (use lo l slots expected_local in \<open>auto simp: loop_ok_def\<close>)
  ultimately show ?thesis by (simp add: out_inv_def)
qed

lemma out_forget:
  assumes out: "out_inv B F n L ks cs p" and l: "sq_ok l" "sq_pending l = sq_pending (p_loop p)"
    and sub: "set ks' \<subseteq> set ks" "set cs' \<subseteq> set cs" "distinct (out_slots ks' cs')"
  shows "out_inv B F n L ks' cs' (p\<lparr>p_loop := l\<rparr>)"
proof -
  note inv = out_invD(2) [OF out]
  note lo = invD(2) [OF inv]
  have slots: "sq_slots l = sq_slots (p_loop p)" using l by (simp add: sq_slots_def)
  have set_sub: "set (out_slots ks' cs') \<subseteq> set (out_slots ks cs)"
    using sub by (auto simp: out_slots_def)
  have "inv B F n L (expected B F n L (p_buffers p) ks' cs') (p\<lparr>p_loop := l\<rparr>) (set (out_slots ks' cs'))"
  proof (rule inv_reloop [OF inv])
    fix i assume "i \<in> set (out_slots ks' cs')"
    with set_sub have "i \<in> set (out_slots ks cs)" by blast
    from out_invD(3) [OF out this] sub show "expected B F n L (p_buffers p) ks' cs' p i"
      by (auto simp: expected_def)
  qed (use lo l slots set_sub expected_local in \<open>auto simp: loop_ok_def\<close>)
  with sub(3) show ?thesis by (simp add: out_inv_def)
qed

text \<open>The kernel opened a file for a slot, or filled its buffer.\<close>

lemma out_kernel_slot:
  assumes out: "out_inv B F n L (ks @ e # ks') cs p" and e: "sqe_user_data e = Some (Slab_Req i)"
  shows "e = fill_sqe (Slab_Req i) (pr_req (p_reqs p ! i))" "slot_busy B F n L p i"
    "i \<notin> set (concat (map cqe_slots cs))" "i < length (p_reqs p)"
proof -
  have i: "i \<in> set (out_slots (ks @ e # ks') cs)" using e by (auto simp: out_slots_mem)
  from out_invD(3) [OF out i] e show "e = fill_sqe (Slab_Req i) (pr_req (p_reqs p ! i))"
    by (auto simp: expected_def)
  from i out_invD(2) [OF out] show "slot_busy B F n L p i" "i < length (p_reqs p)"
    by (auto simp: inv_def busy_ok_def)
  from out_invD(1) [OF out] e show "i \<notin> set (concat (map cqe_slots cs))"
    by (auto simp: out_slots_def sqe_slots_def)
qed

lemma fill_sqe_simps [simp]:
  "sqe_opcode (fill_sqe ptr r) = rq_opcode r" "sqe_off (fill_sqe ptr r) = rq_off r"
  "sqe_addr (fill_sqe ptr r) = rq_addr r" "sqe_user_data (fill_sqe ptr r) = Some ptr"
  by (simp_all add: fill_sqe_def)

lemma opcodes_differ [simp]:
  "IORING_OP_OPENAT \<noteq> IORING_OP_READ" "IORING_OP_OPENAT \<noteq> IORING_OP_TIMEOUT_REMOVE" "IORING_OP_READ \<noteq> IORING_OP_OPENAT"
  "IORING_OP_READ \<noteq> IORING_OP_TIMEOUT_REMOVE" "IORING_OP_TIMEOUT_REMOVE \<noteq> IORING_OP_OPENAT" "IORING_OP_TIMEOUT_REMOVE \<noteq> IORING_OP_READ"
  by (simp_all add: opcode_defs)

lemma slot_state_opcode:
  "slot_opening p i \<Longrightarrow> rq_opcode (pr_req (p_reqs p ! i)) = IORING_OP_OPENAT"
  "slot_reading B F p i \<Longrightarrow> rq_opcode (pr_req (p_reqs p ! i)) = IORING_OP_READ"
  "slot_updating p i \<Longrightarrow> rq_opcode (pr_req (p_reqs p ! i)) = IORING_OP_TIMEOUT_REMOVE"
  by (simp_all add: slot_opening_def slot_reading_def slot_updating_def Let_def)

lemma cqe_slots_mem: "i \<in> set (concat (map cqe_slots cs)) \<longleftrightarrow> (\<exists>c \<in> set cs. cqe_user_data c = Slab_Req i)"
  by (force simp: cqe_slots_def split: req_ptr.splits)

lemma out_files:
  assumes out: "out_inv B F n L ks cs p" and L: "L \<subseteq> L'"
    and i: "i \<notin> set (concat (map cqe_slots cs))" "slot_opening p i"
  shows "out_inv B (F(i := f)) n L' ks cs p"
proof -
  let ?F = "F(i := f)"
  have rd: "slot_reading B ?F p j \<longleftrightarrow> slot_reading B F p j" if "j \<noteq> i" for j
    using that by (simp add: slot_reading_def)
  have nri: "\<not> slot_reading B F' p i" for F'
    using slot_state_opcode(1) [OF i(2)] slot_state_opcode(2) [of B F' p i] by auto
  have busy: "slot_busy B ?F n L' p j" if "slot_busy B F n L p j" for j
    using that rd [of j] nri L by (cases "j = i") (auto simp: slot_busy_def)
  have "answer_ok B ?F n L' bufs res p j" if "answer_ok B F n L bufs res p j" "j \<noteq> i" for bufs res j
    using that rd [OF that(2)] L by (auto simp: answer_ok_def)
  then have "expected B ?F n L' bufs ks cs p j" if "expected B F n L bufs ks cs p j" for bufs j
    using that i(1) unfolding expected_def cqe_slots_mem by metis
  with busy out L expected_local show ?thesis
    by (auto simp: out_inv_def inv_def busy_ok_def expect_ok_def)
qed

lemma out_buffers:
  assumes out: "out_inv B F n L ks cs p" and i: "i \<notin> set (concat (map cqe_slots cs))" and buf: "length buf = READ_BUF_SIZE"
  shows "out_inv B F n L ks cs (p\<lparr>p_buffers := (p_buffers p)(i := buf)\<rparr>)"
proof -
  let ?p = "p\<lparr>p_buffers := (p_buffers p)(i := buf)\<rparr>"
  note inv = out_invD(2) [OF out]
  have slot: "slot_opening ?p j = slot_opening p j" "slot_reading B F ?p j = slot_reading B F p j"
    "slot_updating ?p j = slot_updating p j" "slot_path ?p j = slot_path p j" for j
    by (simp_all add: slot_opening_def slot_reading_def slot_updating_def slot_path_def)
  have free: "slab_free ?p = slab_free p" by (simp add: slab_free_def)
  have "slab_ok ?p" using invD(1) [OF inv] slab_view_ok [of ?p p] by (simp add: slab_view_def)
  moreover have "answer_ok B F n L (p_buffers ?p) res ?p j" if "answer_ok B F n L (p_buffers p) res p j" "j \<noteq> i" for res j
    using that by (simp add: answer_ok_def slot)
  then have "expected B F n L (p_buffers ?p) ks cs ?p j" if "expected B F n L (p_buffers p) ks cs p j" for j
    using that i unfolding expected_def cqe_slots_mem by (simp, metis)
  ultimately show ?thesis
    using out buf expected_local
    by (simp add: out_inv_def inv_def busy_ok_def expect_ok_def loop_ok_def heap_ok_def fixed_ok_def env_ok_def
        slot_busy_def slot free)
qed

text \<open>Handling the oldest completion.\<close>

lemma dispatch_cq_pending:
  assumes "dispatch B X c p = Inr p'"
  shows "cq_ok (p_loop p') = cq_ok (p_loop p)" "cq_pending (p_loop p') = cq_pending (p_loop p)"
    "p_buffers p' = p_buffers p"
  using wp_Inr_D [OF dispatch_keeps_cq assms] by (simp_all add: cq_same_def cq_ok_def cq_pending_def)

lemma out_dispatch:
  assumes out: "out_inv B F n L ks (c # cs) p" and B: "blake3_streaming B"
    and disp: "dispatch B X c p = Inr p'"
  shows "out_inv B F n L ks cs p'"
proof -
  let ?G = "expected B F n L (p_buffers p) ks cs"
  note inv = out_invD(2) [OF out]
  note dist = out_invD(1) [OF out]
  have inv': "inv B F n L ?G p (set (out_slots ks (c # cs)))"
    using inv out_invD(3) [OF out] expected_local unfolding inv_def expect_ok_def
    by (auto simp: expected_def)
  have "inv B F n L ?G p' (set (out_slots ks cs))"
  proof (cases "cqe_user_data c")
    case (Slab_Req i)
    have i: "i \<in> set (out_slots ks (c # cs))" using Slab_Req by (auto simp: out_slots_mem)
    have E: "set (out_slots ks (c # cs)) - {i} = set (out_slots ks cs)"
      using dist Slab_Req by (auto simp: out_slots_def cqe_slots_def)
    have "answer_ok B F n L (p_buffers p) (cqe_res c) p i"
      using out_invD(3) [OF out i] Slab_Req by (auto simp: expected_def)
    from wp_Inr_D [OF dispatch_slab [OF inv' B i Slab_Req this] disp, of "\<lambda>p'. inv B F n L ?G p' (set (out_slots ks cs))"]
    show ?thesis by (simp add: E)
  qed (use wp_Inr_D [OF dispatch_poll [OF inv'] disp] wp_Inr_D [OF dispatch_socket [OF inv'] disp] in
      \<open>auto simp: out_slots_def cqe_slots_def\<close>)
  moreover have "distinct (out_slots ks cs)" using dist by (auto simp: out_slots_def)
  ultimately show ?thesis using dispatch_cq_pending(3) [OF disp] by (simp add: out_inv_def)
qed

lemma sys_post:
  assumes inv: "sys_inv B n s" and post: "cq_post c (p_loop (s_proc s)) = Some l"
  shows "cq_ok l" "sq_ok l" "sq_pending l = sq_pending (p_loop (s_proc s))"
    "s_batch s \<le> length (cq_pending l)" "drop (s_done s) (cq_pending l) = unreaped s @ [c]"
proof -
  have cq: "cq_ok (p_loop (s_proc s))" "s_done s \<le> s_batch s" "s_batch s \<le> length (cq_pending (p_loop (s_proc s)))"
    using inv by (simp_all add: sys_inv_def)
  have sq: "sq_ok (p_loop (s_proc s))"
    using inv by (auto simp: sys_inv_def out_inv_def inv_def loop_ok_def)
  from cq_fifo.enq_appends [OF cq(1) post] have "cq_ok l" "cq_pending l = cq_pending (p_loop (s_proc s)) @ [c]"
    by auto
  with cq sq cq_post_sq [OF post]
  show "cq_ok l" "sq_ok l" "sq_pending l = sq_pending (p_loop (s_proc s))"
    "s_batch s \<le> length (cq_pending l)" "drop (s_done s) (cq_pending l) = unreaped s @ [c]"
    by (simp_all add: unreaped_def)
qed

text \<open>The path of an open request that is with the kernel is still allocated.\<close>

lemma kernel_open_path:
  assumes inv: "sys_inv B n s" and ks: "s_kernel s = ks @ e # ks'" and e: "sqe_user_data e = Some (Slab_Req i)"
    "sqe_opcode e = IORING_OP_OPENAT" "sqe_addr e = Addr (Obj_Path a)"
  shows "slot_opening (s_proc s) i" "pr_data (p_reqs (s_proc s) ! i) = Some a" "p_heap (s_proc s) a \<noteq> None"
proof -
  let ?p = "s_proc s"
  have out: "out_inv B (s_files s) n (good_lines B n (s_opened s)) (ks @ e # ks') (unreaped s) ?p"
    using inv ks by (simp add: sys_inv_def)
  note k = out_kernel_slot [OF out e(1)]
  show op: "slot_opening ?p i"
    using k(1,2) e slot_state_opcode(2) [of B "s_files s" ?p i] slot_state_opcode(3) [of ?p i]
    by (auto simp: slot_busy_def)
  show addr: "pr_data (p_reqs ?p ! i) = Some a"
    using op k(1) e(3) by (auto simp: slot_opening_def Let_def)
  show "p_heap ?p a \<noteq> None" using heap_okD(2) [OF invD(4) [OF out_invD(2) [OF out]] k(4) addr] .
qed

lemma sys_open:
  assumes inv: "sys_inv B n s" and ks: "s_kernel s = ks @ e # ks'" and e: "sqe_user_data e = Some (Slab_Req i)"
    "sqe_opcode e = IORING_OP_OPENAT" "sqe_addr e = Addr (Obj_Path a)"
    and path: "p_heap (s_proc s) a \<in> {Some path, None}" and content: "length content < 2 ^ 63"
    and post: "cq_post \<lparr>cqe_user_data = Slab_Req i, cqe_res = res, cqe_flags = 0\<rparr> (p_loop (s_proc s)) = Some l"
  shows "sys_inv B n (proc_upd (\<lambda>p. p\<lparr>p_loop := l\<rparr>) s\<lparr>s_kernel := ks @ ks',
      s_files := (s_files s)(i := (path, content)), s_opened := s_opened s @ [(path, content)]\<rparr>)"
proof -
  let ?p = "s_proc s" and ?F = "(s_files s)(i := (path, content))"
  let ?L = "good_lines B n (s_opened s)" and ?L' = "good_lines B n (s_opened s @ [(path, content)])"
  have out: "out_inv B (s_files s) n ?L (ks @ e # ks') (unreaped s) ?p"
    using inv ks by (simp add: sys_inv_def)
  note k = out_kernel_slot [OF out e(1)]
  note op = kernel_open_path(1) [OF inv ks e]
  have sp: "slot_path ?p i = Some path" using kernel_open_path(2,3) [OF inv ks e] path by (auto simp: slot_path_def)
  have L: "?L \<subseteq> ?L'" by (auto simp: good_lines_def)
  have "out_inv B ?F n ?L' (ks @ e # ks') (unreaped s) ?p"
    by (rule out_files [OF out L k(3) op])
  moreover have "answer_ok B ?F n ?L' (p_buffers ?p) res ?p i"
  proof -
    have "\<not> slot_reading B ?F ?p i"
      using slot_state_opcode(1) [OF op] slot_state_opcode(2) [of B ?F ?p i] by auto
    with sp content show ?thesis by (auto simp: answer_ok_def good_lines_def)
  qed
  ultimately have "out_inv B ?F n ?L' (ks @ ks') (unreaped s @ [\<lparr>cqe_user_data = Slab_Req i, cqe_res = res, cqe_flags = 0\<rparr>])
      (?p\<lparr>p_loop := l\<rparr>)"
    using sys_post(2,3) [OF inv post] e(1) by (intro out_post) (auto simp: cqe_slots_def sqe_slots_def)
  with sys_post [OF inv post] inv show ?thesis by (simp add: sys_inv_def unreaped_def)
qed

lemma sys_read:
  assumes inv: "sys_inv B n s" and ks: "s_kernel s = ks @ e # ks'" and e: "sqe_user_data e = Some (Slab_Req i)"
    "sqe_opcode e = IORING_OP_READ" "sqe_addr e = Addr (Obj_Buffer k)" "sqe_off e = Num off"
    and buf: "length buf = READ_BUF_SIZE" "read_answer (snd (s_files s i)) (unat off) res buf"
    and post: "cq_post \<lparr>cqe_user_data = Slab_Req i, cqe_res = res, cqe_flags = 0\<rparr> (p_loop (s_proc s)) = Some l"
  shows "sys_inv B n (proc_upd (\<lambda>p. p\<lparr>p_loop := l, p_buffers := (p_buffers p)(k := buf)\<rparr>) s\<lparr>s_kernel := ks @ ks'\<rparr>)"
proof -
  let ?p = "s_proc s" and ?L = "good_lines B n (s_opened s)"
  let ?q = "?p\<lparr>p_buffers := (p_buffers ?p)(i := buf)\<rparr>"
  have out: "out_inv B (s_files s) n ?L (ks @ e # ks') (unreaped s) ?p"
    using inv ks by (simp add: sys_inv_def)
  note ko = out_kernel_slot [OF out e(1)]
  have rd: "slot_reading B (s_files s) ?p i"
    using ko(1,2) e slot_state_opcode(1) [of ?p i] slot_state_opcode(3) [of ?p i]
    by (auto simp: slot_busy_def)
  have k: "k = i" and off: "rq_off (pr_req (p_reqs ?p ! i)) = Num off"
    using rd ko(1) e by (auto simp: slot_reading_def Let_def)
  have nop: "\<not> slot_opening ?q i"
    using slot_state_opcode(2) [OF rd] slot_state_opcode(1) [of ?q i] by auto
  have "answer_ok B (s_files s) n ?L (p_buffers ?q) res ?q i"
    using buf off nop by (auto simp: answer_ok_def)
  with out_buffers [OF out ko(3) buf(1)]
  have "out_inv B (s_files s) n ?L (ks @ ks') (unreaped s @ [\<lparr>cqe_user_data = Slab_Req i, cqe_res = res, cqe_flags = 0\<rparr>])
      (?q\<lparr>p_loop := l\<rparr>)"
    using sys_post(2,3) [OF inv post] e(1) by (intro out_post) (auto simp: cqe_slots_def sqe_slots_def)
  moreover have "?q\<lparr>p_loop := l\<rparr> = ?p\<lparr>p_loop := l, p_buffers := (p_buffers ?p)(k := buf)\<rparr>" by (simp add: k)
  ultimately show ?thesis using sys_post [OF inv post] inv by (simp add: sys_inv_def unreaped_def)
qed

lemma sys_done:
  assumes inv: "sys_inv B n s" and ks: "s_kernel s = ks @ e # ks'" and e: "sqe_user_data e = Some (Slab_Req i)"
    and res: "sint res < 0 \<or> sqe_opcode e = IORING_OP_TIMEOUT_REMOVE"
    and post: "cq_post \<lparr>cqe_user_data = Slab_Req i, cqe_res = res, cqe_flags = 0\<rparr> (p_loop (s_proc s)) = Some l"
  shows "sys_inv B n (proc_upd (\<lambda>p. p\<lparr>p_loop := l\<rparr>) s\<lparr>s_kernel := ks @ ks'\<rparr>)"
proof -
  let ?p = "s_proc s" and ?L = "good_lines B n (s_opened s)"
  have out: "out_inv B (s_files s) n ?L (ks @ e # ks') (unreaped s) ?p"
    using inv ks by (simp add: sys_inv_def)
  note k = out_kernel_slot(1) [OF out e]
  have "answer_ok B (s_files s) n ?L (p_buffers ?p) res ?p i"
  proof (cases "sint res < 0")
    case False
    with res k have "rq_opcode (pr_req (p_reqs ?p ! i)) = IORING_OP_TIMEOUT_REMOVE" by (metis fill_sqe_simps(1))
    then have "\<not> slot_opening ?p i" "\<not> slot_reading B (s_files s) ?p i"
      using slot_state_opcode(1) [of ?p i] slot_state_opcode(2) [of B "s_files s" ?p i] by auto
    then show ?thesis by (simp add: answer_ok_def)
  qed (auto simp: answer_ok_def read_answer_def)
  then have "out_inv B (s_files s) n ?L (ks @ ks') (unreaped s @ [\<lparr>cqe_user_data = Slab_Req i, cqe_res = res, cqe_flags = 0\<rparr>])
      (?p\<lparr>p_loop := l\<rparr>)"
    using out sys_post(2,3) [OF inv post] e by (intro out_post) (auto simp: cqe_slots_def sqe_slots_def)
  with sys_post [OF inv post] inv show ?thesis by (simp add: sys_inv_def unreaped_def)
qed

lemma out_readbuf:
  assumes "out_inv B F n L ks cs p"
  shows "out_inv B F n L ks cs (p\<lparr>p_verifier := (p_verifier p)\<lparr>v_readbuf := rb\<rparr>\<rparr>)"
  using out_invD(1) [OF assms] inv_verifier_reqs [OF out_invD(2) [OF assms], of "(p_verifier p)\<lparr>v_readbuf := rb\<rparr>"]
  by (simp add: out_inv_def)

lemma sys_other:
  assumes inv: "sys_inv B n s" and ks: "s_kernel s = ks @ e # ks'" and e: "sqe_user_data e = Some ptr" "\<And>i. ptr \<noteq> Slab_Req i"
    and ks'': "ks'' = (if b then ks @ ks' else s_kernel s)"
    and post: "cq_post \<lparr>cqe_user_data = ptr, cqe_res = res, cqe_flags = fl\<rparr> (p_loop (s_proc s)) = Some l"
  shows "sys_inv B n (proc_upd (\<lambda>p. p\<lparr>p_loop := l, p_verifier := (p_verifier p)\<lparr>v_readbuf := rb\<rparr>\<rparr>) s\<lparr>s_kernel := ks''\<rparr>)"
proof -
  let ?p = "s_proc s" and ?L = "good_lines B n (s_opened s)" and ?F = "s_files s"
  let ?c = "\<lparr>cqe_user_data = ptr, cqe_res = res, cqe_flags = fl\<rparr>"
  have out: "out_inv B ?F n ?L (ks @ e # ks') (unreaped s) ?p" using inv ks by (simp add: sys_inv_def)
  have sl: "sqe_slots e = []" "cqe_slots ?c = []"
    using e by (cases ptr; auto simp: sqe_slots_def cqe_slots_def)+
  note l = sys_post(2,3) [OF inv post]
  have "out_inv B ?F n ?L (ks @ ks') (unreaped s @ [?c]) (?p\<lparr>p_loop := l\<rparr>)"
    using out l sl e(2) by (intro out_post) auto
  moreover have "out_inv B ?F n ?L (ks @ e # ks') (unreaped s @ [?c]) (?p\<lparr>p_loop := l\<rparr>)"
  proof -
    have "distinct (out_slots (ks @ [e] @ e # ks') (unreaped s))"
      "set (out_slots (ks @ e # e # ks') (unreaped s)) = set (out_slots (ks @ e # ks') (unreaped s))"
      using out_invD(1) [OF out] sl by (auto simp: out_slots_def)
    then have "out_inv B ?F n ?L ((ks @ [e]) @ e # ks') (unreaped s) ?p"
      using out by (simp add: out_inv_def expected_def [abs_def])
    then have "out_inv B ?F n ?L ((ks @ [e]) @ ks') (unreaped s @ [?c]) (?p\<lparr>p_loop := l\<rparr>)"
      by (rule out_post) (use l sl e(2) in auto)
    then show ?thesis by simp
  qed
  ultimately have "out_inv B ?F n ?L ks'' (unreaped s @ [?c]) (?p\<lparr>p_loop := l\<rparr>)"
    using ks ks'' by simp
  from out_readbuf [OF this, of rb] sys_post [OF inv post] inv show ?thesis
    by (simp add: sys_inv_def unreaped_def)
qed

lemma sys_reap:
  assumes inv: "sys_inv B n s" and B: "blake3_streaming B" and lt: "s_done s < s_batch s"
    and disp: "dispatch B X (cq_pending (p_loop (s_proc s)) ! s_done s) (s_proc s) = Inr p'"
  shows "sys_inv B n (s\<lparr>s_proc := p', s_done := s_done s + 1\<rparr>)"
proof -
  let ?cs = "cq_pending (p_loop (s_proc s))"
  have len: "s_done s < length ?cs" using inv lt by (simp add: sys_inv_def)
  have "out_inv B (s_files s) n (good_lines B n (s_opened s)) (s_kernel s) (?cs ! s_done s # drop (Suc (s_done s)) ?cs) (s_proc s)"
    using inv Cons_nth_drop_Suc [OF len] by (simp add: sys_inv_def unreaped_def)
  from out_dispatch [OF this B disp] inv lt dispatch_cq_pending [OF disp] show ?thesis
    by (simp add: sys_inv_def unreaped_def)
qed

lemma sys_advance:
  assumes inv: "sys_inv B n s" and d: "s_done s = s_batch s"
  shows "sys_inv B n (proc_upd (\<lambda>p. p\<lparr>p_loop := (p_loop p)\<lparr>cq_head := cq_head (p_loop p) + of_nat (s_batch s)\<rparr>\<rparr>) s
      \<lparr>s_batch := 0, s_done := 0\<rparr>)"
proof -
  let ?p = "s_proc s"
  let ?l = "(p_loop ?p)\<lparr>cq_head := cq_head (p_loop ?p) + of_nat (s_batch s)\<rparr>"
  have cq: "cq_ok ?l" "cq_pending ?l = drop (s_batch s) (cq_pending (p_loop ?p))"
    using cq_advance [of "p_loop ?p" "s_batch s"] inv by (auto simp: sys_inv_def)
  have out: "out_inv B (s_files s) n (good_lines B n (s_opened s)) (s_kernel s) (unreaped s) ?p"
    using inv by (simp add: sys_inv_def)
  have "out_inv B (s_files s) n (good_lines B n (s_opened s)) (s_kernel s) (unreaped s) (?p\<lparr>p_loop := ?l\<rparr>)"
    using invD(2) [OF out_invD(2) [OF out]] sq_same [of ?l "p_loop ?p"] out_invD(1) [OF out]
    by (intro out_forget [OF out]) (auto simp: loop_ok_def)
  with cq d show ?thesis by (simp add: sys_inv_def unreaped_def)
qed

lemma thread_step_inv:
  assumes "thread_step B X s s'" "blake3_streaming B" "sys_inv B n s"
  shows "sys_inv B n s'"
  using assms
proof cases
  case (Take e l)
  have out: "out_inv B (s_files s) n (good_lines B n (s_opened s)) (s_kernel s) (unreaped s) (s_proc s)"
    using assms(3) by (simp add: sys_inv_def)
  from out_take [OF out Take(2)] sq_consume_cq [OF Take(2)] assms(3) Take(1) show ?thesis
    by (simp add: sys_inv_def unreaped_def)
next
  case (Open ks e ks' i a path res content l)
  then show ?thesis using sys_open [OF assms(3)] by metis
next
  case (Read ks e ks' i k off buf res l)
  then show ?thesis using sys_read [OF assms(3)] by metis
next
  case (Done ks e ks' i res l)
  then show ?thesis using sys_done [OF assms(3)] by metis
next
  case (Other ks e ks' ptr ks'' fl res l rb)
  then show ?thesis using sys_other [OF assms(3) Other(2,3,4,5,6), of rb] by simp
next
  case (Poll l)
  have out: "out_inv B (s_files s) n (good_lines B n (s_opened s)) (s_kernel s) (unreaped s) (s_proc s)"
    using assms(3) by (simp add: sys_inv_def)
  have "s_done s = 0" using assms(3) Poll(2) by (simp add: sys_inv_def)
  moreover have "out_inv B (s_files s) n (good_lines B n (s_opened s)) (s_kernel s) (unreaped s) ((s_proc s)\<lparr>p_loop := l\<rparr>)"
    using invD(2) [OF out_invD(2) [OF out]] io_poll_rings [of "p_loop (s_proc s)"] out_invD(1) [OF out] Poll(3)
    by (intro out_forget [OF out]) (auto simp: loop_ok_def)
  ultimately show ?thesis
    using assms(3) Poll io_poll_rings [of "p_loop (s_proc s)"] by (simp add: sys_inv_def unreaped_def)
next
  case (Reap p')
  then show ?thesis using sys_reap [OF assms(3,2)] by simp
next
  case Advance
  then show ?thesis using sys_advance [OF assms(3)] by simp
qed

lemma sys_step_inv:
  assumes "sys_step B X s s'" "blake3_streaming B" "sys_inv B n s"
  shows "sys_inv B n s'"
  using assms
proof cases
  case Thread
  from thread_step_inv [OF this assms(2,3)] show ?thesis .
next
  case (Env q t)
  have out: "out_inv B (s_files s) n (good_lines B n (s_opened s)) (s_kernel s) (unreaped s) (s_proc s)"
    using assms(3) by (simp add: sys_inv_def)
  have "inv B (s_files s) n (good_lines B n (s_opened s))
      (expected B (s_files s) n (good_lines B n (s_opened s)) (p_buffers (s_proc s)) (s_kernel s) (unreaped s))
      ((s_proc s)\<lparr>p_queue := q, p_fds := t\<rparr>) (set (out_slots (s_kernel s) (unreaped s)))"
    using Env(2) invD(5,8) [OF out_invD(2) [OF out]]
    by (intro inv_outside [OF out_invD(2) [OF out]]) (simp_all add: slab_view_def fixed_ok_def)
  with Env(1) assms(3) show ?thesis by (simp add: sys_inv_def out_inv_def unreaped_def)
qed

lemma sys_steps_inv:
  "(sys_step B X)\<^sup>*\<^sup>* s s' \<Longrightarrow> blake3_streaming B \<Longrightarrow> sys_inv B n s \<Longrightarrow> sys_inv B n s'"
  by (induction rule: rtranclp_induct) (auto intro: sys_step_inv)

section \<open>The start of a thread\<close>

text \<open>The rings the kernel sets up are empty, and nothing has been printed or allocated.\<close>

definition iou_fresh :: "iou_setup \<Rightarrow> bool" where
  "iou_fresh k \<longleftrightarrow> (case (is_sq k, is_cq k) of
     (Some sq, Some (cq, _)) \<Rightarrow>
        sq (ro_head (sq_off (is_params k))) = sq (ro_tail (sq_off (is_params k)))
        \<and> mask_ok (sq (ro_ring_mask (sq_off (is_params k))))
        \<and> cq (ro_head (cq_off (is_params k))) = cq (ro_tail (cq_off (is_params k)))
        \<and> mask_ok (cq (ro_ring_mask (cq_off (is_params k))))
   | _ \<Rightarrow> True)"

definition env_fresh :: "('h, 'w) processor \<Rightarrow> bool" where
  "env_fresh p \<longleftrightarrow> p_heap p = Map.empty \<and> p_stdout p = [] \<and> env_ok p"

definition sys_start :: "('h, 'w) processor \<Rightarrow> ('h, 'w) sys" where
  "sys_start p = \<lparr>s_proc = p, s_kernel = [], s_done = 0, s_batch = 0, s_files = (\<lambda>_. ([], [])), s_opened = []\<rparr>"

lemma loop_init_fresh:
  assumes "ev_loop_init k = Inr l" "iou_fresh k"
  shows "sq_ok l" "sq_pending l = []" "cq_ok l" "cq_pending l = []"
proof -
  have "sq_head l = sq_tail l" "mask_ok (sq_mask l)" "cq_head l = cq_tail l" "mask_ok (cq_mask l)"
    using assms by (auto simp: ev_loop_init_def ev__setup_io_uring_def iou_fresh_def split: if_splits option.splits)
  then show "sq_ok l" "sq_pending l = []" "cq_ok l" "cq_pending l = []"
    by (simp_all add: sq_ok_def cq_ok_def mring_ok_def mring_count_def sq_pending_def cq_pending_def mring_empty)
qed

lemma setup_inv:
  assumes set: "processor_setup bo ro h0 k wargs p = Inr p'" and fresh: "iou_fresh k" "env_fresh p"
    and v: "p_verifier p = verifier_zero w" and G: "slot_local G"
  shows "inv B F (ucast (wa_id wargs)) {} G p' {}" "cq_ok (p_loop p')" "cq_pending (p_loop p') = []"
proof -
  let ?n = "unat (wa_io_concurrency wargs)"
  from set obtain rs l where rs: "slab_init h0 ?n = Inr rs" and l: "ev_loop_init k = Inr l"
    and sub: "processor_submit_poll_reqs (processor_prepare_poll_reqs
        (p\<lparr>p_id := ucast (wa_id wargs), p_nr_tasks := wa_io_concurrency wargs,
           p_queue_efd := wa_queue_eventfd wargs, p_reqs := rs, p_reqs_list := Some 0,
           p_nr_free_reqs := wa_io_concurrency wargs, p_loop := l\<rparr>)) = Inr p'"
      (is "processor_submit_poll_reqs ?p = _")
    by (auto simp: processor_setup_def split: if_splits)
  note rings = loop_init_fresh [OF l fresh(1)]
  have "slab_fresh h0 ?n ?p" using rs by (simp add: slab_fresh_def processor_prepare_poll_reqs_def)
  note slab = slab_fresh_ok [OF this]
  have data: "pr_data (rs ! i) = None" if "i < ?n" for i
    using rs that by (auto simp: slab_init_def slab_entry_def nth_list_update split: if_splits)
  have "inv B F (ucast (wa_id wargs)) {} G ?p {}"
  proof (rule invI)
    show "heap_ok ?p"
      using data slab(2,3) fresh(2) by (auto simp: heap_ok_def processor_prepare_poll_reqs_def env_fresh_def)
    show "fixed_ok ?p" using v by (simp add: fixed_ok_def processor_prepare_poll_reqs_def verifier_zero_def ev_io_req_zero_def)
    show "env_ok ?p" using fresh(2) by (simp add: env_fresh_def env_ok_def processor_prepare_poll_reqs_def)
  qed (use slab(1) rings G fresh(2) in \<open>simp_all add: loop_ok_def busy_ok_def sq_slots_def expect_ok_def
      processor_prepare_poll_reqs_def env_fresh_def\<close>)
  from submit_poll_inv [OF this, of "\<lambda>p'. inv B F (ucast (wa_id wargs)) {} G p' {}" "\<lambda>_. False"] sub
  show "inv B F (ucast (wa_id wargs)) {} G p' {}" by simp
  have "cq_same ?p p'"
    using wp_Inr_D [OF iou_submit_cq [of ?p ?p "cq_same ?p" Queue_Poll_Req]] sub
    by (simp add: processor_submit_poll_reqs_def)
  with rings show "cq_ok (p_loop p')" "cq_pending (p_loop p') = []"
    by (simp_all add: cq_same_def cq_ok_def cq_pending_def processor_prepare_poll_reqs_def)
qed

lemma init_addr_shape:
  assumes "init_addr X p = Inr p'"
  shows "\<exists>ra w. p' = p\<lparr>p_remote_addr := ra, p_verifier := (p_verifier p)\<lparr>v_world := w\<rparr>\<rparr>"
proof (cases "p_remote_addr p")
  case None
  with assms obtain len w where "p' = p\<lparr>p_remote_addr := Some len, p_verifier := (p_verifier p)\<lparr>v_world := w\<rparr>\<rparr>"
    by (cases "getaddrinfo X (v_world (p_verifier p))") (auto simp: init_addr_def split: sum.splits)
  then show ?thesis by blast
next
  case (Some a)
  with assms have "p' = p\<lparr>p_remote_addr := p_remote_addr p,
      p_verifier := (p_verifier p)\<lparr>v_world := v_world (p_verifier p)\<rparr>\<rparr>" by (simp add: init_addr_def)
  then show ?thesis by blast
qed

lemma ssl_init_shape: "verifier_ssl_init X v = Inr (r, v') \<Longrightarrow> \<exists>w. v' = v\<lparr>v_world := w\<rparr>"
  by (auto simp: verifier_ssl_init_def split: prod.splits if_splits)

lemma verifier_init_shape:
  assumes "verifier_init X p = Inr p'" and v: "p_verifier p = verifier_zero w"
  obtains ra v where "verifier_connect (p\<lparr>p_remote_addr := ra, p_verifier := v\<rparr>) = Inr p'"
    "v_conn_req v = ev_io_req_zero" "v_recv_req v = ev_io_req_zero" "rq_callback (v_timer_req v) = CB_NULL"
proof -
  from assms(1) obtain p2 r v' where p2: "init_addr X (verifier_upd (\<lambda>v. v\<lparr>v_timer_req := (v_timer_req v)\<lparr>rq_opcode := 0\<rparr>,
                 v_slots := map (\<lambda>s. s\<lparr>qs_stream_id := - 1\<rparr>) (v_slots v)\<rparr>) p) = Inr p2"
      and v': "verifier_ssl_init X (p_verifier p2) = Inr (r, v')"
      and c: "verifier_connect (p2\<lparr>p_verifier := v'\<lparr>v_conn_req := ev_io_req_zero\<rparr>\<rparr>) = Inr p'"
    by (auto simp: verifier_init_def Let_def)
  from init_addr_shape [OF p2] ssl_init_shape [OF v'] obtain ra w1 w2 where
    "p2 = p\<lparr>p_remote_addr := ra, p_verifier := (p_verifier p)\<lparr>v_timer_req := (v_timer_req (p_verifier p))\<lparr>rq_opcode := 0\<rparr>,
        v_slots := map (\<lambda>s. s\<lparr>qs_stream_id := - 1\<rparr>) (v_slots (p_verifier p)), v_world := w1\<rparr>\<rparr>"
    "v' = (p_verifier p2)\<lparr>v_world := w2\<rparr>" by auto
  then show thesis
    using c v that [of "v'\<lparr>v_conn_req := ev_io_req_zero\<rparr>" ra] by (simp add: verifier_zero_def ev_io_req_zero_def)
qed

lemma verifier_init_inv:
  assumes inv: "inv B F n L G p E" and v: "p_verifier p = verifier_zero w"
    and init: "verifier_init X p = Inr p'"
  shows "inv B F n L G p' E" "cq_same p p'"
proof -
  let ?f = "\<lambda>r. r\<lparr>rq_opcode := IORING_OP_SOCKET, rq_fd := AF_INET, rq_off := Num SOCK_DGRAM,
          rq_len := IPPROTO_UDP, rq_flags := 0, rq_callback := CB_on_socket_create, rq_data := Data_Verifier\<rparr>"
  obtain ra v' where c: "verifier_connect (p\<lparr>p_remote_addr := ra, p_verifier := v'\<rparr>) = Inr p'"
    and v': "v_conn_req v' = ev_io_req_zero" "v_recv_req v' = ev_io_req_zero" "rq_callback (v_timer_req v') = CB_NULL"
    by (rule verifier_init_shape [OF init v])
  let ?p = "p\<lparr>p_remote_addr := ra, p_verifier := v'\<lparr>v_conn_req := ?f (v_conn_req v')\<rparr>\<rparr>"
  have sub: "iou_submit Conn_Req ?p = Inr p'" using c by (simp add: verifier_connect_def)
  have "inv B F n L G ?p E"
    using invD(5,6,8) [OF inv] v'
    by (intro inv_outside [OF inv]) (simp_all add: slab_view_def fixed_ok_def env_ok_def ev_io_req_zero_def)
  from submit_fixed [OF this, of Conn_Req "\<lambda>p'. inv B F n L G p' E" "\<lambda>_. False"] sub
  show "inv B F n L G p' E" by simp
  have "cq_same p ?p" by (simp add: cq_same_def)
  from wp_Inr_D [OF iou_submit_cq [OF this, of "cq_same p" Conn_Req]] sub
  show "cq_same p p'" by simp
qed

lemma start_inv:
  assumes start: "processor_start X bo ro h0 k wargs p0 = Inr p" and fresh: "iou_fresh k" "env_fresh p0"
  shows "sys_inv B (ucast (wa_id wargs)) (sys_start p)"
proof -
  let ?p0 = "p0\<lparr>p_verifier := verifier_zero (v_world (p_verifier p0)), p_queue_poll_req := ev_io_req_zero\<rparr>"
  let ?n = "ucast (wa_id wargs) :: i32" and ?F = "\<lambda>_ :: nat. ([] :: string, [] :: u8 list)"
  from start obtain p1 where p1: "processor_setup bo ro h0 k wargs ?p0 = Inr p1"
    and p: "verifier_init X (p1\<lparr>p_verifier := verifier_zero (v_world (p_verifier p1))\<rparr>) = Inr p"
    by (auto simp: processor_start_def Let_def)
  have "env_fresh ?p0" using fresh(2) by (simp add: env_fresh_def env_ok_def)
  note set = setup_inv [OF p1 fresh(1) this, simplified, OF refl]
  have inv1: "inv B ?F ?n {} G (p1\<lparr>p_verifier := verifier_zero (v_world (p_verifier p1))\<rparr>) {}" if "slot_local G" for G
    using set(1) [OF that, of B ?F] invD(5,6,8) [OF set(1) [OF that, of B ?F]]
    by (intro inv_outside [OF set(1) [OF that]])
      (simp_all add: slab_view_def fixed_ok_def env_ok_def verifier_zero_def ev_io_req_zero_def)
  note vi = verifier_init_inv [OF inv1 _ p, simplified, OF _ refl]
  have "inv B ?F ?n {} (expected B ?F ?n {} (p_buffers p) [] []) p {}"
    by (rule vi(1)) (rule expected_local)
  moreover have "cq_ok (p_loop p)" "cq_pending (p_loop p) = []"
    using vi(2) [OF expected_local] set(2,3) [OF expected_local]
    by (simp_all add: cq_same_def cq_ok_def cq_pending_def)
  ultimately show ?thesis
    by (simp add: sys_inv_def sys_start_def unreaped_def out_inv_def out_slots_def good_lines_def)
qed

end
