(* ===== verification/Processor_Correct.thy ===== *)
theory Processor_Correct
  imports Processor_System
begin

text \<open>
  What a processor thread guarantees in every state it can reach, together with the kernel, from
  \<open>processor_start\<close>: it prints only correct digests, never uses a request twice, and has no memory
  fault in its file handlers.
\<close>

section \<open>Reachable states\<close>

lemma reachable_inv:
  assumes "blake3_streaming B" "processor_start X bo ro h0 k wargs p0 = Inr p" "iou_fresh k" "env_fresh p0"
    and "(sys_step B X)\<^sup>*\<^sup>* (sys_start p) s"
  shows "sys_inv B (ucast (wa_id wargs)) s"
  using sys_steps_inv [OF assms(5,1) start_inv [OF assms(2-4)]] .

text \<open>The completion the loop handles next.\<close>

abbreviation next_cqe :: "('h, 'w) sys \<Rightarrow> io_uring_cqe" where
  "next_cqe s \<equiv> cq_pending (p_loop (s_proc s)) ! s_done s"

lemma next_unreaped:
  assumes "sys_inv B n s" "s_done s < s_batch s"
  shows "next_cqe s \<in> set (unreaped s)"
  using assms by (auto simp: sys_inv_def unreaped_def set_conv_nth intro!: exI [of _ 0])

lemma next_slab:
  fixes s :: "('h, 'w) sys"
  assumes si: "sys_inv B n s" and lt: "s_done s < s_batch s" and i: "cqe_user_data (next_cqe s) = Slab_Req i"
  obtains E and G :: "('h, 'w) processor \<Rightarrow> nat \<Rightarrow> bool"
  where "inv B (s_files s) n (good_lines B n (s_opened s)) G (s_proc s) E" "i \<in> E"
    "answer_ok B (s_files s) n (good_lines B n (s_opened s)) (p_buffers (s_proc s)) (cqe_res (next_cqe s)) (s_proc s) i"
proof -
  from si have out: "out_inv B (s_files s) n (good_lines B n (s_opened s)) (s_kernel s) (unreaped s) (s_proc s)"
    by (simp add: sys_inv_def)
  note c = next_unreaped [OF si lt]
  with i have E: "i \<in> set (out_slots (s_kernel s) (unreaped s))" by (auto simp: out_slots_mem)
  show thesis
    by (rule that [OF out_invD(2) [OF out] E]) (use out_invD(3) [OF out E] c i in \<open>auto simp: expected_def\<close>)
qed

text \<open>A completed read: what the handler prints.\<close>

lemma dispatch_read:
  assumes inv: "inv B F n L G p E" and B: "blake3_streaming B" and i: "i \<in> E"
    and c: "cqe_user_data c = Slab_Req i" and ans: "answer_ok B F n L (p_buffers p) (cqe_res c) p i"
    and cb: "rq_callback (pr_req (p_reqs p ! i)) = CB_on_file_read"
  shows "wp (\<lambda>_. True)
    (\<lambda>p'. p_stdout p' = p_stdout p @ (if cqe_res c = 0 then [file_line B n i (F i)] else [])) (dispatch B X c p)"
proof -
  let ?p = "req_upd (Slab_Req i) (set_result c) p"
  note inv0 = inv_drop [OF inv Diff_subset, of "{i}"]
  note held0 = held_outstanding [OF inv i]
  note inv1 = inv_set_result_slab(1) [OF inv0 held0, of c]
  note held1 = inv_set_result_slab(2) [OF inv0 held0, of c]
  have il: "i < length (p_reqs p)" using held0 by (simp add: held_def)
  note slot = set_result_slot [OF il, where c = c]
  have "slot_busy B F n L p i" using inv i by (auto simp: inv_def busy_ok_def)
  with cb have rd: "slot_reading B F p i" "file_line B n i (F i) \<in> L"
    by (auto simp: slot_busy_def slot_opening_def slot_updating_def Let_def)
  then obtain off where off: "rq_off (pr_req (p_reqs p ! i)) = Num off" by (auto simp: slot_reading_def Let_def)
  have "wp (\<lambda>f. rq_result (pr_req (p_reqs ?p ! i)) = 0 \<and> verify_faults B X F ?p i f)
      (\<lambda>p'. p_stdout p' = p_stdout ?p @ (if rq_result (pr_req (p_reqs ?p ! i)) = 0 then [file_line B n i (F i)] else []))
      (on_file_read B X (Slab_Req i) ?p)"
    by (rule on_file_read_inv [OF inv1 held1 _ B refl, of off])
      (use ans rd off slot il in \<open>simp_all add: answer_ok_def set_result_def\<close>)
  then have "wp (\<lambda>_. True)
      (\<lambda>p'. p_stdout p' = p_stdout ?p @ (if rq_result (pr_req (p_reqs ?p ! i)) = 0 then [file_line B n i (F i)] else []))
      (on_file_read B X (Slab_Req i) ?p)"
    by (rule wp_mono) simp_all
  with il c cb show ?thesis by (simp add: dispatch_def Let_def call_back_def set_result_def)
qed

text \<open>A sample start: rings of 4 and 8 entries, four requests, and a QUIC library that works.\<close>

definition sample_iou :: iou_setup where
  "sample_iou =
     \<lparr>is_fd = 3,
      is_params = \<lparr>sq_off = \<lparr>ro_head = 0, ro_tail = 4, ro_ring_mask = 8, ro_flags = 12\<rparr>,
                   cq_off = \<lparr>ro_head = 0, ro_tail = 4, ro_ring_mask = 8, ro_flags = 12\<rparr>\<rparr>,
      is_sq = Some (\<lambda>o'. if o' = 8 then 3 else 0),
      is_cq = Some (\<lambda>o'. if o' = 8 then 7 else 0, \<lambda>_. \<lparr>cqe_user_data = Recv_Req, cqe_res = 0, cqe_flags = 0\<rparr>),
      is_sqes = Some (\<lambda>_. sqe_zero), is_results = (\<lambda>_. 0)\<rparr>"

definition sample_args :: processor_args where
  "sample_args = \<lparr>wa_id = 1, wa_io_concurrency = 4, wa_queue_eventfd = 5, wa_quit_eventfd = 6, wa_verify = False\<rparr>"

abbreviation sample_start :: "(u8 list, u8 list list) processor res" where
  "sample_start \<equiv> processor_start sample_quic True True \<lparr>blake = []\<rparr> sample_iou sample_args (sample_processor [] [] 4)"

lemma sample_fresh: "iou_fresh sample_iou" "env_fresh (sample_processor h w n)"
  by (simp_all add: iou_fresh_def sample_iou_def env_fresh_def env_ok_def sample_processor_def sample_queue_def
      event_term_def event_zero_def MAX_FILENAME_LEN_def)

lemma sample_start_ok:
  "\<exists>p. sample_start = Inr p \<and> (\<exists>e l. sq_consume (p_loop p) = Some (e, l) \<and> sqe_user_data e = Some Queue_Poll_Req
     \<and> cq_mask l = 7 \<and> cq_tail l = 0 \<and> cq_head l = 0)"
  by (simp add: processor_start_def processor_setup_def slab_init_def sample_args_def ev_loop_init_def
      ev__setup_io_uring_def sample_iou_def processor_submit_poll_reqs_def processor_prepare_poll_reqs_def
      iou_submit_def ev_iou_req_def ev__iou_put_def ev__iou_submit_def IORING_SQ_NEED_WAKEUP_def
      verifier_init_def init_addr_def sample_processor_def sample_quic_def verifier_ssl_init_def
      verifier_connect_def sq_consume_def Let_def fill_sqe_def)

section \<open>Runs of the system\<close>

text \<open>
  A schedule names the steps of a run, with what the kernel answers; \<open>j\<close> is the position of the
  submission in \<open>s_kernel\<close>.
\<close>

datatype action =
    K_Take
  | K_Open nat "u8 list" i32
  | K_Read nat "u8 list" i32
  | K_Other nat i32 u32
  | K_Env queue fdtable
  | K_Poll
  | K_Reap
  | K_Advance

definition rest :: "nat \<Rightarrow> 'a list \<Rightarrow> 'a list" where
  "rest j xs = take j xs @ drop (Suc j) xs"

definition post :: "req_ptr \<Rightarrow> i32 \<Rightarrow> u32 \<Rightarrow> ('h, 'w) sys \<Rightarrow> ev_loop option" where
  "post ptr res fl s = cq_post \<lparr>cqe_user_data = ptr, cqe_res = res, cqe_flags = fl\<rparr> (p_loop (s_proc s))"

definition open_path :: "io_uring_sqe \<Rightarrow> ('h, 'w) sys \<Rightarrow> (nat \<times> string) option" where
  "open_path e s =
     (case (sqe_user_data e, sqe_addr e) of
        (Some (Slab_Req i), Addr (Obj_Path a)) \<Rightarrow>
          if sqe_opcode e = IORING_OP_OPENAT then Option.bind (p_heap (s_proc s) a) (\<lambda>path. Some (i, path)) else None
      | _ \<Rightarrow> None)"

definition read_place :: "io_uring_sqe \<Rightarrow> (nat \<times> nat \<times> u64) option" where
  "read_place e =
     (case (sqe_user_data e, sqe_addr e, sqe_off e) of
        (Some (Slab_Req i), Addr (Obj_Buffer k), Num off) \<Rightarrow>
          if sqe_opcode e = IORING_OP_READ then Some (i, k, off) else None
      | _ \<Rightarrow> None)"

fun act :: "'h blake3 \<Rightarrow> 'w quic \<Rightarrow> action \<Rightarrow> ('h, 'w) sys \<Rightarrow> ('h, 'w) sys option" where
  "act B X K_Take s =
     Option.bind (sq_consume (p_loop (s_proc s))) (\<lambda>(e, l).
       Some (proc_upd (\<lambda>p. p\<lparr>p_loop := l\<rparr>) s\<lparr>s_kernel := s_kernel s @ [e]\<rparr>))"
| "act B X (K_Open j content res) s =
     (if length (s_kernel s) \<le> j \<or> sint res < 0 \<or> 2 ^ 63 \<le> length content then None
      else Option.bind (open_path (s_kernel s ! j) s) (\<lambda>(i, path).
        Option.bind (post (Slab_Req i) res 0 s) (\<lambda>l.
          Some (proc_upd (\<lambda>p. p\<lparr>p_loop := l\<rparr>) s\<lparr>s_kernel := rest j (s_kernel s),
            s_files := (s_files s)(i := (path, content)), s_opened := s_opened s @ [(path, content)]\<rparr>))))"
| "act B X (K_Read j buf res) s =
     (if length (s_kernel s) \<le> j \<or> length buf \<noteq> READ_BUF_SIZE then None
      else Option.bind (read_place (s_kernel s ! j)) (\<lambda>(i, k, off).
        if \<not> read_answer (snd (s_files s i)) (unat off) res buf then None
        else Option.bind (post (Slab_Req i) res 0 s) (\<lambda>l.
          Some (proc_upd (\<lambda>p. p\<lparr>p_loop := l, p_buffers := (p_buffers p)(k := buf)\<rparr>) s
            \<lparr>s_kernel := rest j (s_kernel s)\<rparr>))))"
| "act B X (K_Other j res fl) s =
     (if length (s_kernel s) \<le> j then None
      else Option.bind (sqe_user_data (s_kernel s ! j)) (\<lambda>ptr.
        if (case ptr of Slab_Req _ \<Rightarrow> True | _ \<Rightarrow> False) then None
        else Option.bind (post ptr res fl s) (\<lambda>l.
          Some (proc_upd (\<lambda>p. p\<lparr>p_loop := l, p_verifier := (p_verifier p)\<lparr>v_readbuf := v_readbuf (p_verifier p)\<rparr>\<rparr>) s
            \<lparr>s_kernel := (if fl AND IORING_CQE_F_MORE = 0 then rest j (s_kernel s) else s_kernel s)\<rparr>))))"
| "act B X (K_Env q t) s =
     (if \<forall>k. event_term (q_events q k) then Some (proc_upd (\<lambda>p. p\<lparr>p_queue := q, p_fds := t\<rparr>) s) else None)"
| "act B X K_Poll s =
     (if s_batch s \<noteq> 0 then None
      else let l = snd (ev__io_poll (p_loop (s_proc s)))
           in Some (proc_upd (\<lambda>p. p\<lparr>p_loop := l\<rparr>) s\<lparr>s_batch := length (cq_pending l), s_done := 0\<rparr>))"
| "act B X K_Reap s =
     (if s_batch s \<le> s_done s then None
      else case dispatch B X (cq_pending (p_loop (s_proc s)) ! s_done s) (s_proc s) of
             Inl _ \<Rightarrow> None
           | Inr p' \<Rightarrow> Some (s\<lparr>s_proc := p', s_done := s_done s + 1\<rparr>))"
| "act B X K_Advance s =
     (if s_batch s = 0 \<or> s_done s \<noteq> s_batch s then None
      else Some (proc_upd (\<lambda>p. p\<lparr>p_loop := (p_loop p)\<lparr>cq_head := cq_head (p_loop p) + of_nat (s_batch s)\<rparr>\<rparr>) s
        \<lparr>s_batch := 0, s_done := 0\<rparr>))"


fun acts :: "'h blake3 \<Rightarrow> 'w quic \<Rightarrow> action list \<Rightarrow> ('h, 'w) sys \<Rightarrow> ('h, 'w) sys option" where
  "acts B X [] s = Some s"
| "acts B X (a # as) s = Option.bind (act B X a s) (acts B X as)"

lemma rest_split: "j < length xs \<Longrightarrow> xs = take j xs @ xs ! j # drop (Suc j) xs"
  by (rule id_take_nth_drop)

lemma act_thread:
  assumes "act B X a s = Some s'" "\<And>q t. a \<noteq> K_Env q t"
  shows "thread_step B X s s'"
proof (cases a)
  case K_Take
  with assms(1) show ?thesis by (auto simp: bind_eq_Some_conv intro: thread_step.Take)
next
  case (K_Open j content res)
  with assms(1) show ?thesis
    by (auto simp: bind_eq_Some_conv open_path_def post_def rest_def split: option.splits req_ptr.splits uval.splits obj.splits if_splits
      intro!: thread_step.Open rest_split)
next
  case (K_Read j buf res)
  with assms(1) show ?thesis
    by (auto simp: bind_eq_Some_conv read_place_def post_def rest_def split: option.splits req_ptr.splits uval.splits obj.splits if_splits
      intro!: thread_step.Read rest_split)
next
  case (K_Other j res fl)
  with assms(1) obtain ptr l where j: "j < length (s_kernel s)" and ptr: "sqe_user_data (s_kernel s ! j) = Some ptr"
    and slab: "\<not> (case ptr of Slab_Req _ \<Rightarrow> True | _ \<Rightarrow> False)" and l: "post ptr res fl s = Some l"
    and s': "s' = proc_upd (\<lambda>p. p\<lparr>p_loop := l, p_verifier := (p_verifier p)\<lparr>v_readbuf := v_readbuf (p_verifier p)\<rparr>\<rparr>) s
            \<lparr>s_kernel := (if fl AND IORING_CQE_F_MORE = 0 then rest j (s_kernel s) else s_kernel s)\<rparr>"
    by (auto simp: bind_eq_Some_conv split: if_split_asm)
  from slab have other: "ptr \<noteq> Slab_Req i" for i by auto
  show ?thesis
    unfolding s' by (rule thread_step.Other [OF rest_split [OF j] ptr other]) (use l in \<open>simp_all add: rest_def post_def\<close>)
next
  case (K_Env q t)
  with assms(2) show ?thesis by blast
next
  case K_Poll
  with assms(1) show ?thesis by (auto simp: Let_def split: if_splits intro: thread_step.Poll)
next
  case K_Reap
  with assms(1) show ?thesis by (auto split: if_splits sum.splits intro: thread_step.Reap [simplified])
next
  case K_Advance
  with assms(1) show ?thesis by (auto split: if_splits intro: thread_step.Advance)
qed

lemma act_sound:
  assumes "act B X a s = Some s'"
  shows "sys_step B X s s'"
proof (cases "\<exists>q t. a = K_Env q t")
  case True
  then obtain q t where "a = K_Env q t" by blast
  with assms have "\<And>k. event_term (q_events q k)" "s' = proc_upd (\<lambda>p. p\<lparr>p_queue := q, p_fds := t\<rparr>) s"
    by (auto split: if_splits)
  then show ?thesis by (simp add: sys_step.Env)
next
  case False
  with assms show ?thesis by (intro sys_step.Thread act_thread) auto
qed

lemma acts_sound: "acts B X as s = Some s' \<Longrightarrow> (sys_step B X)\<^sup>*\<^sup>* s s'"
  by (induction as arbitrary: s) (auto simp: bind_eq_Some_conv dest!: act_sound intro: converse_rtranclp_into_rtranclp)


section \<open>A run that hashes a file\<close>

text \<open>The file \<open>a\<close> of three bytes, announced by one event; the connection is set up before.\<close>

definition run_event :: event where
  "run_event = event_zero\<lparr>ev_path := CHR ''a'' # replicate (MAX_FILENAME_LEN - 1) NUL, ev_path_len := 1\<rparr>"

definition run_buf :: "u8 list" where
  "run_buf = [1, 2, 3] @ replicate (READ_BUF_SIZE - 3) 0"

definition connect_script :: "action list" where
  "connect_script =
     [K_Take, K_Take, K_Other 1 7 0, K_Poll, K_Reap, K_Advance,
      K_Take, K_Other 1 0 0, K_Poll, K_Reap, K_Advance]"

definition open_script :: "action list" where
  "open_script =
     [K_Env \<lparr>q_events = (\<lambda>k. if k = 0 then run_event else event_zero), q_head = 1, q_tail = 0\<rparr>
        [5 \<mapsto> \<lparr>efd_count = 1, efd_semaphore = True\<rparr>],
      K_Other 0 1 IORING_CQE_F_MORE, K_Poll, K_Reap, K_Advance]"

definition read_script :: "action list" where
  "read_script =
     [K_Take, K_Take, K_Take, K_Open 3 [1, 2, 3] 9, K_Poll, K_Reap, K_Advance,
      K_Take, K_Read 3 run_buf 3, K_Poll, K_Reap, K_Advance,
      K_Take, K_Read 3 run_buf 0, K_Poll]"

lemmas start_simps = processor_start_def processor_setup_def slab_init_def sample_args_def ev_loop_init_def
  ev__setup_io_uring_def sample_iou_def processor_submit_poll_reqs_def processor_prepare_poll_reqs_def
  iou_submit_def ev_iou_req_def ev__iou_put_def ev__iou_submit_def IORING_SQ_NEED_WAKEUP_def
  verifier_init_def init_addr_def sample_processor_def sample_quic_def verifier_ssl_init_def
  verifier_connect_def sq_consume_def Let_def fill_sqe_def verifier_zero_def ev_io_req_zero_def
  sample_verifier_def sqe_zero_def sys_start_def

lemmas connect_simps = rest_def post_def cq_post_def ev__io_poll_def io_uring_enter_def cq_pending_def
  mring_list_def mring_count_def dispatch_def call_back_def set_result_def slot_upd_def
  IORING_CQE_F_MORE_def as_verifier_def SOCKADDR_IN_SIZE_def on_socket_create_def on_socket_connect_def
  verifier_quic_init_def timestamp_def verifier_quic_flush_def verifier_flush_out_def flush_loop.simps
  flush_step_def verifier_prep_vec_def verifier_flush_egress_def arm_timer_def NGTCP2_SECONDS_def
  MAX_TIMEOUT_def opcode_defs MAX_CONCURRENT_WRITES_def

lemmas file_simps = on_queue_event_def queue_consume_try_def eventfd_read_def consume_event_def open_event_def
  processor_get_req_def open_slot_def strdup_def arm_poll_def slab_entry_def upt_rec open_path_def
  read_place_def on_file_open_def on_file_read_def as_processor_def as_slab_def read_answer_def
  hasher_init_def hasher_update_def sum_hash_def buffer_at_def add_off_def event_term_def event_zero_def
  MAX_FILENAME_LEN_def READ_BUF_SIZE_def cstr_def QUEUE_SIZE_def EAGAIN_def

lemmas eof_simps = hasher_finalize_def processor_print_hash_def show_str_def line_head_def line_tail_def
  hexdigits_def hex_def hex_byte_def HASH_LEN_def OUTPUT_MAX_SIZE_def path_bytes_def verifier_verify_hash_def
  verifier_quic_get_slot_def verifier_quic_slot_writev_def STREAM_DATA_SIZE_def slot_advance_def
  verifier_send_packet_def sendmsg_retry.simps release_def free_path_def processor_free_req_def show_int_def

text \<open>The state in which the end of the file is about to be handled.\<close>

abbreviation sample_run :: "((u8 list, u8 list list) processor \<times> (u8 list, u8 list list) sys) option" where
  "sample_run \<equiv> (case sample_start of
     Inl _ \<Rightarrow> None
   | Inr p \<Rightarrow> Option.bind (acts sum_hash sample_quic (connect_script @ open_script @ read_script) (sys_start p))
       (\<lambda>s. Some (p, s)))"

lemma sample_run_ok:
  "(case sample_run of
      None \<Rightarrow> False
    | Some (p, s) \<Rightarrow> s_done s < s_batch s \<and> next_cqe s = \<lparr>cqe_user_data = Slab_Req 0, cqe_res = 0, cqe_flags = 0\<rparr>
        \<and> rq_callback (req_at (Slab_Req 0) (s_proc s)) = CB_on_file_read \<and> s_files s 0 = (''a'', [1, 2, 3])
        \<and> s_opened s = [(''a'', [1, 2, 3])] \<and> s_kernel s \<noteq> [] \<and> p_stdout (s_proc s) = []
        \<and> (\<exists>s'. act sum_hash sample_quic K_Reap s = Some s' \<and> p_stdout (s_proc s') \<noteq> []))"
  by (simp add: connect_script_def open_script_def read_script_def run_event_def run_buf_def
      start_simps connect_simps file_simps eof_simps show_nat.simps [of 0] show_nat.simps [of "Suc 0"])

section \<open>Properties\<close>


text \<open>
  C16.  A request is never in use twice: the slots of the requests in the submission ring, with the
  kernel, and among the completions not yet handled are pairwise different, exist and are not on
  the free list, and each was submitted with the contents its slot still has.
\<close>

theorem slots_never_shared:
  assumes "blake3_streaming B" "processor_start X bo ro h0 k wargs p0 = Inr p" "iou_fresh k" "env_fresh p0"
    and "(sys_step B X)\<^sup>*\<^sup>* (sys_start p) s"
  shows "distinct (sq_slots (p_loop (s_proc s)) @ out_slots (s_kernel s) (unreaped s))
    \<and> set (sq_slots (p_loop (s_proc s)) @ out_slots (s_kernel s) (unreaped s))
      \<subseteq> {..<length (p_reqs (s_proc s))} - slab_free (s_proc s)"
  using reachable_inv [OF assms] by (auto simp: sys_inv_def out_inv_def inv_def loop_ok_def busy_ok_def)

text \<open>
  C17.  No memory fault in the file handlers: whatever reachable state a completion of a slab request
  or of the queue poll is handled in, the handler returns with a well-formed slab and with every path
  of a slot allocated and owned by that slot alone, with two exceptions.  At the end of a file the one
  call of \<open>verifier_verify_hash\<close>, for the path and the digest of that file and the length stored in the
  slot, may itself fail; and the handler of the queue ends the program with status 1 when the poll
  reports a bad descriptor, the eventfd cannot be read, no request is free or \<open>strdup\<close> fails.
\<close>

theorem no_memory_fault:
  assumes "blake3_streaming B" "processor_start X bo ro h0 k wargs p0 = Inr p" "iou_fresh k" "env_fresh p0"
    and "(sys_step B X)\<^sup>*\<^sup>* (sys_start p) s" and "s_done s < s_batch s"
    and "cqe_user_data (next_cqe s) \<notin> {Conn_Req, Recv_Req, Timer_Req}"
  shows "case dispatch B X (next_cqe s) (s_proc s) of
      Inr p' \<Rightarrow> slab_ok p' \<and> heap_ok p'
    | Inl f \<Rightarrow>
        (case cqe_user_data (next_cqe s) of
           Slab_Req i \<Rightarrow> rq_callback (req_at (Slab_Req i) (s_proc s)) = CB_on_file_read \<and> cqe_res (next_cqe s) = 0
             \<and> verifier_verify_hash X (pr_data2 (p_reqs (s_proc s) ! i)) (map of_char (fst (s_files s i) @ [NUL]))
                 (of_nat HASH_LEN) (blake3_hash B (snd (s_files s i))) (p_verifier (s_proc s)) = Inl f
         | _ \<Rightarrow> f = Exit 1 \<and> queue_gives_up (s_proc s) (cqe_res (next_cqe s)))"
proof -
  note si = reachable_inv [OF assms(1-5)]
  show ?thesis
  proof (cases "cqe_user_data (next_cqe s)")
    case (Slab_Req i)
    obtain E and G :: "('a, 'b) processor \<Rightarrow> nat \<Rightarrow> bool"
      where e: "inv B (s_files s) (ucast (wa_id wargs)) (good_lines B (ucast (wa_id wargs)) (s_opened s)) G (s_proc s) E" "i \<in> E"
        "answer_ok B (s_files s) (ucast (wa_id wargs)) (good_lines B (ucast (wa_id wargs)) (s_opened s))
           (p_buffers (s_proc s)) (cqe_res (next_cqe s)) (s_proc s) i"
      by (rule next_slab [OF si assms(6) Slab_Req])
    from dispatch_slab [OF e(1) assms(1) e(2) Slab_Req e(3), of "\<lambda>p'. slab_ok p' \<and> heap_ok p'" X]
    show ?thesis unfolding Slab_Req verify_faults_def by (auto simp: wp_def inv_def split: sum.splits)
  next
    case Queue_Poll_Req
    from si have "out_inv B (s_files s) (ucast (wa_id wargs)) (good_lines B (ucast (wa_id wargs)) (s_opened s))
        (s_kernel s) (unreaped s) (s_proc s)" by (simp add: sys_inv_def)
    from dispatch_poll [OF out_invD(2) [OF this] Queue_Poll_Req, of "\<lambda>p'. slab_ok p' \<and> heap_ok p'" X]
    show ?thesis unfolding Queue_Poll_Req by (auto simp: wp_def inv_def split: sum.splits)
  qed (use assms(7) in auto)
qed


text \<open>Reading hexadecimal digits back.\<close>

definition hex_val :: "char \<Rightarrow> u8" where
  "hex_val c = of_nat (length (takeWhile (\<lambda>d. d \<noteq> c) hexdigits))"

fun unhex :: "string \<Rightarrow> u8 list" where
  "unhex (c # d # cs) = (push_bit 4 (hex_val c) OR hex_val d) # unhex cs"
| "unhex _ = []"

lemma hex_val_digit: "n < 16 \<Longrightarrow> hex_val (hexdigits ! n) = of_nat n"
proof -
  have "\<forall>n \<in> {..<16}. hex_val (hexdigits ! n) = of_nat n" by (simp add: hex_val_def hexdigits_def lessThan_nat_numeral lessThan_Suc)
  then show "n < 16 \<Longrightarrow> hex_val (hexdigits ! n) = of_nat n" by simp
qed

lemma nibbles: "unat (drop_bit 4 b) < 16" "unat (b AND 0x0F) < 16" for b :: u8
proof -
  have "unat b < 256" using unsigned_less [of b] by simp
  then show "unat (drop_bit 4 b) < 16" by (simp add: drop_bit_eq_div unat_div)
  have "b AND 0x0F = take_bit 4 b" by (simp add: take_bit_eq_mask mask_eq_exp_minus_1)
  then show "unat (b AND 0x0F) < 16" by (simp add: take_bit_eq_mod unat_mod)
qed

lemma unhex_byte: "push_bit 4 (drop_bit 4 b) OR (b AND 0x0F) = (b :: u8)"
proof -
  have "b AND 0x0F = take_bit 4 b" by (simp add: take_bit_eq_mask mask_eq_exp_minus_1)
  moreover have "push_bit 4 (drop_bit 4 b) OR take_bit 4 b = b"
    by (rule bit_eqI) (auto simp: bit_simps)
  ultimately show ?thesis by simp
qed

text \<open>
  C26.  The digits that are printed determine the digest: reading them back gives its bytes.
\<close>

theorem hex_roundtrip: "unhex (hex bs) = bs"
proof (induction bs)
  case (Cons b bs)
  have "of_nat (unat (drop_bit 4 b)) = drop_bit 4 b" "of_nat (unat (b AND 0x0F)) = b AND 0x0F" by simp_all
  with Cons unhex_byte [of b] show ?case
    by (simp add: hex_def hex_byte_def hex_val_digit nibbles del: of_nat_unat)
qed (simp add: hex_def)

text \<open>
  C25.  The output buffer is large enough: for every path the BPF side can deliver, and every
  processor and request number, \<open>processor_print_hash\<close> stays inside its 512 bytes and writes one line
  whose digits are those of the digest.
\<close>

theorem print_hash_in_bounds:
  assumes "pr_data (p_reqs p ! i) = Some a" "p_heap p a = Some path" "length path < MAX_FILENAME_LEN"
    and "length hash = HASH_LEN"
  shows "\<exists>line. processor_print_hash i hash p = Inr (p\<lparr>p_stdout := p_stdout p @ [line]\<rparr>)
    \<and> length line < OUTPUT_MAX_SIZE
    \<and> line = line_head (p_id p) (pr_id (p_reqs p ! i)) path @ hex hash @ line_tail"
proof -
  have "length (hex hash) = 2 * length hash" by (induction hash) (simp_all add: hex_def hex_byte_def)
  with print_hash_ok [OF assms(1-3), of hash] assms(3,4) length_line_head [of "p_id p" "pr_id (p_reqs p ! i)" path]
  show ?thesis by (simp add: HASH_LEN_def OUTPUT_MAX_SIZE_def MAX_FILENAME_LEN_def line_tail_def)
qed

text \<open>
  A path with a line feed in it: below the directory \<open>/w\<close>, followed by the line that is printed for the
  file \<open>/a\<close> with the digest \<open>d\<close>.
\<close>

definition forged_path :: "u8 list \<Rightarrow> string" where
  "forged_path d = ''/w/'' @ [CHR 0x0A] @ line_head 0 0 ''/a'' @ hex d @ line_tail"

lemma length_hexdigits: "length hexdigits = 16"
  by (simp add: hexdigits_def)

lemma hex_chars: "set (hex d) \<subseteq> set hexdigits"
proof (induction d)
  case (Cons b d)
  have "hex (b # d) = hexdigits ! unat (drop_bit 4 b) # hexdigits ! unat (b AND 0x0F) # hex d"
    by (simp add: hex_def hex_byte_def)
  moreover have "hexdigits ! unat (drop_bit 4 b) \<in> set hexdigits" "hexdigits ! unat (b AND 0x0F) \<in> set hexdigits"
    using nibbles [of b] by (simp_all add: nth_mem length_hexdigits)
  ultimately show ?case using Cons by simp
qed (simp add: hex_def)

lemma length_hex: "length (hex d) = 2 * length d"
  by (induction d) (simp_all add: hex_def hex_byte_def)

lemma line_head_path: "\<exists>x y. \<forall>v. line_head n k (u @ v) = x @ v @ y"
  unfolding line_head_def
  by (intro exI [of _ \<open>''{ "processor": '' @ show_int (sint n) @ '', "req_id": '' @ show_int (sint k) @ '', "file": "'' @ u\<close>]
      exI [of _ \<open>''", "hash": "''\<close>]) simp

text \<open>
  C37.  Paths are printed without escaping, so whoever can create files below a watched directory can
  forge output.  For any digest \<open>d\<close> of their choice there is a path, short enough to be reported and
  without NUL, for which \<open>processor_print_hash\<close> prints several lines, one of which is exactly the line
  for the other file \<open>/a\<close> with the digest \<open>d\<close>.
\<close>

theorem path_forges_line:
  assumes "pr_data (p_reqs p ! i) = Some a" "p_heap p a = Some (forged_path d)" "length d = HASH_LEN"
    and "length hash = HASH_LEN"
  shows "length (forged_path d) < MAX_FILENAME_LEN \<and> NUL \<notin> set (forged_path d) \<and>
    (\<exists>x y. processor_print_hash i hash p =
       Inr (p\<lparr>p_stdout := p_stdout p @ [x @ [CHR 0x0A] @ (line_head 0 0 ''/a'' @ hex d @ line_tail) @ y]\<rparr>))"
proof -
  have len: "length (forged_path d) < MAX_FILENAME_LEN"
    using assms(3) by (simp add: forged_path_def length_hex line_head_def line_tail_def show_int_def show_nat.simps [of 0]
        MAX_FILENAME_LEN_def HASH_LEN_def)
  have "show_nat 0 = ''0''" by (subst show_nat.simps) (simp add: char_of_eq_iff)
  moreover have "NUL \<notin> set (hex d)" using hex_chars [of d] by (auto simp: hexdigits_def)
  ultimately have nul: "NUL \<notin> set (forged_path d)"
    by (simp add: forged_path_def line_head_def line_tail_def show_int_def)
  let ?h = "\<lambda>path. line_head (p_id p) (pr_id (p_reqs p ! i)) path"
  obtain x y where "?h (''/w/'' @ v) = x @ v @ y" for v using line_head_path by blast
  then have "?h (forged_path d) @ z = x @ [CHR 0x0A] @ (line_head 0 0 ''/a'' @ hex d @ line_tail) @ y @ z" for z
    by (simp only: forged_path_def append_assoc)
  with len nul print_hash_ok [OF assms(1,2) len, of hash] assms(4) length_hex [of hash]
    length_line_head [of "p_id p" "pr_id (p_reqs p ! i)" "forged_path d"]
  show ?thesis by fastforce
qed

section \<open>Witnesses\<close>

theorem path_forges_line_witness:
  "\<exists>p p' x y. p = slot_upd 0 (\<lambda>r. r\<lparr>pr_data := Some 7\<rparr>) (sample_processor () () 1)\<lparr>p_heap := [7 \<mapsto> forged_path (replicate 32 0)]\<rparr>
     \<and> processor_print_hash 0 (replicate 32 255) p = Inr p'
     \<and> p_stdout p' = [x @ [CHR 0x0A] @ (line_head 0 0 ''/a'' @ hex (replicate 32 0) @ line_tail) @ y]"
  using path_forges_line [of "slot_upd 0 (\<lambda>r. r\<lparr>pr_data := Some 7\<rparr>) (sample_processor () () 1)
    \<lparr>p_heap := [7 \<mapsto> forged_path (replicate 32 0)]\<rparr>" 0 7 "replicate 32 0" "replicate 32 255"]
  by (force simp: sample_processor_def slab_init_def slot_upd_def HASH_LEN_def)

theorem print_hash_in_bounds_witness:
  "\<exists>line. processor_print_hash 0 (replicate 32 255)
       (slot_upd 0 (\<lambda>r. r\<lparr>pr_data := Some 7\<rparr>) (sample_processor () () 1)\<lparr>p_heap := [7 \<mapsto> replicate 127 CHR ''a'']\<rparr>)
     = Inr ((slot_upd 0 (\<lambda>r. r\<lparr>pr_data := Some 7\<rparr>) (sample_processor () () 1)
              \<lparr>p_heap := [7 \<mapsto> replicate 127 CHR ''a'']\<rparr>)\<lparr>p_stdout := [line]\<rparr>)
     \<and> length line < OUTPUT_MAX_SIZE"
  using print_hash_in_bounds [of "slot_upd 0 (\<lambda>r. r\<lparr>pr_data := Some 7\<rparr>) (sample_processor () () 1)
    \<lparr>p_heap := [7 \<mapsto> replicate 127 CHR ''a'']\<rparr>" 0 7 "replicate 127 CHR ''a''" "replicate 32 255"]
  by (force simp: sample_processor_def slab_init_def slot_upd_def MAX_FILENAME_LEN_def HASH_LEN_def)

text \<open>The sample run, taken apart.\<close>

lemma sample_run_cases:
  obtains p s p' where "sample_start = Inr p" "(sys_step sum_hash sample_quic)\<^sup>*\<^sup>* (sys_start p) s"
    "s_done s < s_batch s" "next_cqe s = \<lparr>cqe_user_data = Slab_Req 0, cqe_res = 0, cqe_flags = 0\<rparr>"
    "rq_callback (req_at (Slab_Req 0) (s_proc s)) = CB_on_file_read" "s_files s 0 = (''a'', [1, 2, 3])"
    "s_opened s = [(''a'', [1, 2, 3])]" "p_stdout (s_proc s) = []"
    "dispatch sum_hash sample_quic (next_cqe s) (s_proc s) = Inr p'"
    "(sys_step sum_hash sample_quic)\<^sup>*\<^sup>* (sys_start p) (s\<lparr>s_proc := p', s_done := s_done s + 1\<rparr>)" "p_stdout p' \<noteq> []"
proof -
  from sample_run_ok obtain p s s' where p: "sample_start = Inr p"
    and run: "acts sum_hash sample_quic (connect_script @ open_script @ read_script) (sys_start p) = Some s"
    and s: "s_done s < s_batch s" "next_cqe s = \<lparr>cqe_user_data = Slab_Req 0, cqe_res = 0, cqe_flags = 0\<rparr>"
    "rq_callback (req_at (Slab_Req 0) (s_proc s)) = CB_on_file_read" "s_files s 0 = (''a'', [1, 2, 3])"
    "s_opened s = [(''a'', [1, 2, 3])]" "p_stdout (s_proc s) = []"
    and s': "act sum_hash sample_quic K_Reap s = Some s'" and out: "p_stdout (s_proc s') \<noteq> []"
    by (auto simp del: act.simps req_at.simps split: option.splits sum.splits bind_splits)
  from s' obtain p' where p': "dispatch sum_hash sample_quic (next_cqe s) (s_proc s) = Inr p'"
      "s' = s\<lparr>s_proc := p', s_done := s_done s + 1\<rparr>"
    by (auto split: if_splits sum.splits)
  from acts_sound [OF run] act_sound [OF s'] have "(sys_step sum_hash sample_quic)\<^sup>*\<^sup>* (sys_start p) s'" by simp
  with p' out that [OF p acts_sound [OF run] s] show thesis by simp
qed


theorem slots_never_shared_witness:
  "\<exists>p s. sample_start = Inr p \<and> (sys_step sum_hash sample_quic)\<^sup>*\<^sup>* (sys_start p) s
     \<and> out_slots (s_kernel s) (unreaped s) \<noteq> [] \<and> distinct (out_slots (s_kernel s) (unreaped s))
     \<and> 0 \<notin> slab_free (s_proc s)"
proof (rule sample_run_cases)
  fix p and s :: "(u8 list, u8 list list) sys"
  assume p: "sample_start = Inr p" and run: "(sys_step sum_hash sample_quic)\<^sup>*\<^sup>* (sys_start p) s"
    and s: "s_done s < s_batch s" "next_cqe s = \<lparr>cqe_user_data = Slab_Req 0, cqe_res = 0, cqe_flags = 0\<rparr>"
  have "next_cqe s \<in> set (unreaped s)"
    by (rule next_unreaped [OF reachable_inv [OF sum_hash_streaming p sample_fresh run] s(1)])
  with s(2) have "0 \<in> set (out_slots (s_kernel s) (unreaped s))" by (auto simp: out_slots_mem intro!: bexI)
  with slots_never_shared [OF sum_hash_streaming p sample_fresh run] p run show ?thesis by (intro exI [of _ p] exI [of _ s]) auto
qed

theorem no_memory_fault_witness:
  "\<exists>p s. sample_start = Inr p \<and> (sys_step sum_hash sample_quic)\<^sup>*\<^sup>* (sys_start p) s \<and> s_done s < s_batch s
     \<and> cqe_user_data (next_cqe s) = Slab_Req 0
     \<and> (case dispatch sum_hash sample_quic (next_cqe s) (s_proc s) of Inl f \<Rightarrow> False | Inr p' \<Rightarrow> slab_ok p' \<and> heap_ok p')"
proof (rule sample_run_cases)
  fix p p' and s :: "(u8 list, u8 list list) sys"
  assume p: "sample_start = Inr p" and run: "(sys_step sum_hash sample_quic)\<^sup>*\<^sup>* (sys_start p) s"
    and s: "s_done s < s_batch s" "next_cqe s = \<lparr>cqe_user_data = Slab_Req 0, cqe_res = 0, cqe_flags = 0\<rparr>"
    "dispatch sum_hash sample_quic (next_cqe s) (s_proc s) = Inr p'"
  have "cqe_user_data (next_cqe s) = Slab_Req 0" using s(2) by simp
  with no_memory_fault [OF sum_hash_streaming p sample_fresh run s(1)] p run s(1,3) show ?thesis
    by (intro exI [of _ p] exI [of _ s]) simp
qed


end
