(* ===== verification/Processor_Paths.thy ===== *)
theory Processor_Paths
  imports Processor_Correct Event_Feed
begin

text \<open>
  Which files a processor opens.  Paths come from the event queue alone: every path on the heap of a
  processor, and so every file the kernel opens for it, is that of an event the queue held, or the
  empty path of a zeroed event.
\<close>

section \<open>What the handlers keep\<close>

definition heap_paths :: "string set \<Rightarrow> ('h, 'w) processor \<Rightarrow> bool" where
  "heap_paths P p \<longleftrightarrow> (\<forall>k s. p_heap p k = Some s \<longrightarrow> s \<in> P)"

lemma heap_paths_mono: "heap_paths P p \<Longrightarrow> P \<subseteq> Q \<Longrightarrow> heap_paths Q p"
  by (auto simp: heap_paths_def)

text \<open>
  The queue, the eventfd objects and the descriptor of the poll request are those of \<open>q\<close>, and the heap
  holds only paths in \<open>P\<close>.
\<close>

definition paths_ok :: "string set \<Rightarrow> ('h, 'w) processor \<Rightarrow> ('h, 'w) processor \<Rightarrow> bool" where
  "paths_ok P q p \<longleftrightarrow> p_queue p = p_queue q \<and> p_fds p = p_fds q
     \<and> rq_fd (p_queue_poll_req p) = rq_fd (p_queue_poll_req q) \<and> heap_paths P p"

lemma paths_ok_cong:
  assumes "p_heap p' = p_heap p" "p_queue p' = p_queue p" "p_fds p' = p_fds p"
    and "rq_fd (p_queue_poll_req p') = rq_fd (p_queue_poll_req p)"
  shows "paths_ok P q p' = paths_ok P q p"
  using assms by (simp add: paths_ok_def heap_paths_def)

lemma slot_upd_paths [simp]: "paths_ok P q (slot_upd i f p) = paths_ok P q p"
  by (rule paths_ok_cong) (simp_all add: slot_upd_def)

lemma req_upd_paths [simp]: "ptr \<noteq> Queue_Poll_Req \<Longrightarrow> paths_ok P q (req_upd ptr f p) = paths_ok P q p"
  by (rule paths_ok_cong) (cases ptr; simp)+

lemma set_result_paths [simp]: "paths_ok P q (req_upd ptr (set_result c) p) = paths_ok P q p"
  by (rule paths_ok_cong) (cases ptr; simp add: set_result_def)+

lemma field_upd_paths [simp]:
  "paths_ok P q (p\<lparr>p_loop := l\<rparr>) = paths_ok P q p" "paths_ok P q (p\<lparr>p_verifier := v\<rparr>) = paths_ok P q p"
  "paths_ok P q (p\<lparr>p_stdout := out\<rparr>) = paths_ok P q p" "paths_ok P q (p\<lparr>p_closed := cl\<rparr>) = paths_ok P q p"
  "paths_ok P q (p\<lparr>p_reqs_list := li\<rparr>) = paths_ok P q p" "paths_ok P q (p\<lparr>p_nr_free_reqs := nr\<rparr>) = paths_ok P q p"
  "paths_ok P q (p\<lparr>p_strdups := k\<rparr>) = paths_ok P q p" "paths_ok P q (p\<lparr>p_remote_addr := ra\<rparr>) = paths_ok P q p"
  by (rule paths_ok_cong; simp)+

abbreviation keeps_paths :: "string set \<Rightarrow> ('h, 'w) processor \<Rightarrow> ('h, 'w) processor res \<Rightarrow> bool" where
  "keeps_paths P q r \<equiv> wp (\<lambda>_. True) (paths_ok P q) r"

lemma iou_submit_paths:
  "paths_ok P q p \<Longrightarrow> (\<And>p'. paths_ok P q p' \<Longrightarrow> R p') \<Longrightarrow> wp (\<lambda>_. True) R (iou_submit ptr p)"
  by (cases "ev_iou_req ptr (req_at ptr p) (p_loop p)") (auto simp: iou_submit_def)

lemma get_req_paths:
  "paths_ok P q p \<Longrightarrow> (\<And>i p'. paths_ok P q p' \<Longrightarrow> R (i, p')) \<Longrightarrow> wp (\<lambda>_. True) R (processor_get_req p)"
  by (auto simp: processor_get_req_def Let_def split: option.splits)

lemma free_req_paths:
  "paths_ok P q p \<Longrightarrow> (\<And>p'. paths_ok P q p' \<Longrightarrow> R p') \<Longrightarrow> wp (\<lambda>_. True) R (processor_free_req ptr p)"
  by (auto simp: processor_free_req_def Let_def intro!: wp_other)

lemma flush_egress_paths: "paths_ok P q p \<Longrightarrow> keeps_paths P q (verifier_flush_egress X p)"
  by (auto simp: verifier_flush_egress_def arm_timer_def Let_def
      intro!: wp_other iou_submit_paths get_req_paths simp del: req_upd.simps)

lemma socket_handlers_paths:
  assumes "paths_ok P q p"
  shows "keeps_paths P q (on_socket_create X ptr p)" "keeps_paths P q (on_socket_connect X ptr p)"
    "keeps_paths P q (on_socket_read X ptr p)" "keeps_paths P q (on_socket_timeout X ptr p)"
    "keeps_paths P q (on_socket_timeout_update ptr p)"
  using assms
  by (auto simp: on_socket_create_def on_socket_connect_def on_socket_read_def on_socket_timeout_def
      on_socket_timeout_update_def Let_def simp del: req_upd.simps split: prod.splits option.splits
      intro!: wp_other iou_submit_paths flush_egress_paths free_req_paths)

lemma free_path_paths:
  "paths_ok P q p \<Longrightarrow> (\<And>p'. paths_ok P q p' \<Longrightarrow> R p') \<Longrightarrow> wp (\<lambda>_. True) R (free_path a p)"
  by (auto simp: free_path_def paths_ok_def heap_paths_def split: option.splits)

lemma release_paths:
  "paths_ok P q p \<Longrightarrow> (\<And>p'. paths_ok P q p' \<Longrightarrow> R p') \<Longrightarrow> wp (\<lambda>_. True) R (release ptr i p)"
  by (auto simp: release_def intro!: free_path_paths free_req_paths)

lemma strdup_paths:
  "paths_ok P q p \<Longrightarrow> cstr s \<in> P \<Longrightarrow> (\<And>a p'. paths_ok P q p' \<Longrightarrow> R (a, p')) \<Longrightarrow> wp (\<lambda>_. True) R (strdup s p)"
  by (auto simp: strdup_def Let_def paths_ok_def heap_paths_def)

lemma open_event_paths:
  "paths_ok P q p \<Longrightarrow> cstr (ev_path e) \<in> P \<Longrightarrow> (\<And>p'. paths_ok P q p' \<Longrightarrow> R p') \<Longrightarrow> wp (\<lambda>_. True) R (open_event e p)"
  by (auto simp: open_event_def open_slot_def Let_def simp del: req_upd.simps
      intro!: get_req_paths strdup_paths iou_submit_paths)

lemma print_hash_paths:
  "paths_ok P q p \<Longrightarrow> (\<And>p'. paths_ok P q p' \<Longrightarrow> R p') \<Longrightarrow> wp (\<lambda>_. True) R (processor_print_hash i h p)"
  by (auto simp: processor_print_hash_def Let_def intro!: wp_other)

lemma file_handlers_paths:
  assumes "paths_ok P q p" "ptr \<noteq> Queue_Poll_Req"
  shows "keeps_paths P q (on_file_read B X ptr p)" "keeps_paths P q (on_file_open B ptr p)"
proof -
  show "keeps_paths P q (on_file_read B X ptr p)"
    using assms by (auto simp: on_file_read_def Let_def simp del: req_upd.simps
      intro!: wp_other release_paths print_hash_paths iou_submit_paths)
  show "keeps_paths P q (on_file_open B ptr p)"
    using assms by (auto simp: on_file_open_def Let_def simp del: req_upd.simps
      intro!: wp_other release_paths iou_submit_paths)
qed

lemma event_zero_path: "cstr (ev_path event_zero) = []"
  by (simp add: event_zero_def cstr_def MAX_FILENAME_LEN_def)

section \<open>Completions\<close>

text \<open>The poll request consumes at most one event, and puts only its path on the heap.\<close>

definition consumed :: "string set \<Rightarrow> ('h, 'w) processor \<Rightarrow> ('h, 'w) processor \<Rightarrow> bool" where
  "consumed P p p' \<longleftrightarrow> (\<exists>r e q t. queue_consume_try (p_fds p) (rq_fd (p_queue_poll_req p)) event_zero (p_queue p) = Inr (r, e, q, t)
     \<and> paths_ok (insert (cstr (ev_path e)) P) (p\<lparr>p_queue := q, p_fds := t\<rparr>) p')"

lemma on_queue_event_paths:
  assumes ok: "paths_ok P q p"
  shows "wp (\<lambda>_. True) (\<lambda>p'. paths_ok P q p' \<or> consumed P p p') (on_queue_event Queue_Poll_Req p)"
proof -
  have "wp (\<lambda>_. True) (\<lambda>c. wp (\<lambda>_. True) (\<lambda>p'. paths_ok P q p' \<or> consumed P p p') (consume_event Queue_Poll_Req c p))
      (queue_consume_try (p_fds p) (rq_fd (p_queue_poll_req p)) event_zero (p_queue p))"
  proof (rule wp_frame)
    fix c assume c: "queue_consume_try (p_fds p) (rq_fd (p_queue_poll_req p)) event_zero (p_queue p) = Inr c"
    obtain r e q' t' where ct: "c = (r, e, q', t')" by (metis surj_pair)
    let ?p = "p\<lparr>p_queue := q', p_fds := t'\<rparr>" and ?P = "insert (cstr (ev_path e)) P"
    have "paths_ok ?P ?p ?p" using ok by (auto simp: paths_ok_def heap_paths_def)
    moreover have "consumed P p p'" if "paths_ok ?P ?p p'" for p'
      using that c ct unfolding consumed_def by blast
    ultimately show "wp (\<lambda>_. True) (\<lambda>p'. paths_ok P q p' \<or> consumed P p p') (consume_event Queue_Poll_Req c p)"
      by (auto simp: ct consume_event_def arm_poll_def processor_submit_poll_reqs_def Let_def
          intro!: open_event_paths [of ?P ?p] iou_submit_paths [of ?P ?p])
  qed
  with ok show ?thesis
    by (auto simp: on_queue_event_def processor_submit_poll_reqs_def Let_def intro!: wp_other iou_submit_paths)
qed

lemma dispatch_other_paths:
  assumes "paths_ok P q p" "cqe_user_data c \<noteq> Queue_Poll_Req"
    and "rq_callback (req_at (cqe_user_data c) p) \<noteq> CB_on_queue_event"
  shows "keeps_paths P q (dispatch B X c p)"
proof -
  let ?ptr = "cqe_user_data c"
  let ?p = "req_upd ?ptr (set_result c) p"
  have "keeps_paths P q (call_back B X cb ?ptr ?p)" if "cb \<noteq> CB_on_queue_event" for cb
    using that assms by (cases cb) (simp_all add: call_back_def socket_handlers_paths file_handlers_paths del: req_upd.simps)
  moreover have "rq_callback (req_at ?ptr ?p) = rq_callback (req_at ?ptr p)"
    if "case ?ptr of Slab_Req i \<Rightarrow> i < length (p_reqs p) | _ \<Rightarrow> True"
    using that by (cases ?ptr) (simp_all add: set_result_def slot_upd_def)
  ultimately show ?thesis
    using assms(3) by (cases ?ptr) (auto simp: dispatch_def Let_def simp del: req_upd.simps req_at.simps)
qed

lemma dispatch_poll_paths:
  assumes "paths_ok P p p" "cqe_user_data c = Queue_Poll_Req" "rq_callback (p_queue_poll_req p) = CB_on_queue_event"
  shows "wp (\<lambda>_. True) (\<lambda>p'. paths_ok P p p' \<or> consumed P p p') (dispatch B X c p)"
proof -
  let ?p = "req_upd Queue_Poll_Req (set_result c) p"
  have "paths_ok P p ?p" using assms(1) by (simp del: req_upd.simps)
  from on_queue_event_paths [OF this] have "wp (\<lambda>_. True) (\<lambda>p'. paths_ok P p p' \<or> consumed P ?p p') (on_queue_event Queue_Poll_Req ?p)" .
  moreover have "consumed P ?p p' = consumed P p p'" for p' by (simp add: consumed_def paths_ok_def set_result_def)
  ultimately show ?thesis using assms(2,3) by (simp add: dispatch_def call_back_def set_result_def)
qed

lemma next_cqe_callback:
  assumes si: "sys_inv B n s" and lt: "s_done s < s_batch s"
  shows "rq_callback (req_at (cqe_user_data (next_cqe s)) (s_proc s)) = CB_on_queue_event
    \<longleftrightarrow> cqe_user_data (next_cqe s) = Queue_Poll_Req"
proof -
  let ?p = "s_proc s"
  from si have inv: "inv B (s_files s) n (good_lines B n (s_opened s))
      (expected B (s_files s) n (good_lines B n (s_opened s)) (p_buffers ?p) (s_kernel s) (unreaped s)) ?p
      (set (out_slots (s_kernel s) (unreaped s)))"
    by (simp add: sys_inv_def out_inv_def)
  show ?thesis
  proof (cases "cqe_user_data (next_cqe s)")
    case (Slab_Req i)
    with next_unreaped [OF si lt] have "i \<in> set (out_slots (s_kernel s) (unreaped s))" by (auto simp: out_slots_mem)
    with invD(3) [OF inv] have "slot_busy B (s_files s) n (good_lines B n (s_opened s)) ?p i" by (simp add: busy_ok_def)
    with Slab_Req show ?thesis by (auto simp: slot_busy_def slot_opening_def slot_reading_def slot_updating_def Let_def)
  qed (use invD(5) [OF inv] in \<open>auto simp: fixed_ok_def\<close>)
qed

text \<open>
  A step of a thread keeps the queue and the paths, and opens only files in \<open>P\<close>, or it consumes from the
  queue through the eventfd of its poll request.
\<close>

lemma thread_step_paths:
  assumes step: "thread_step B X s s'" and inv: "sys_inv B n s"
    and P: "heap_paths P (s_proc s)" "fst ` set (s_opened s) \<subseteq> P"
  shows "paths_ok P (s_proc s) (s_proc s') \<and> fst ` set (s_opened s') \<subseteq> P
    \<or> consumed P (s_proc s) (s_proc s') \<and> s_opened s' = s_opened s"
  using step
proof cases
  case (Open ks e ks' i a path res content l)
  from kernel_open_path(3) [OF inv Open(2-5)] Open(6) have "p_heap (s_proc s) a = Some path" by auto
  with P have "path \<in> P" by (auto simp: heap_paths_def)
  with P Open(1) show ?thesis by (simp add: paths_ok_def heap_paths_def)
next
  case (Reap p')
  have ok: "paths_ok P (s_proc s) (s_proc s)" using P by (simp add: paths_ok_def)
  note cb = next_cqe_callback [OF inv Reap(2)]
  show ?thesis
  proof (cases "cqe_user_data (next_cqe s) = Queue_Poll_Req")
    case True
    with cb have "rq_callback (p_queue_poll_req (s_proc s)) = CB_on_queue_event" by simp
    from wp_Inr_D [OF dispatch_poll_paths [OF ok True this] Reap(3)] P Reap(1) show ?thesis by auto
  next
    case False
    with cb have "rq_callback (req_at (cqe_user_data (next_cqe s)) (s_proc s)) \<noteq> CB_on_queue_event" by simp
    from wp_Inr_D [OF dispatch_other_paths [OF ok False this] Reap(3)] P Reap(1) show ?thesis by auto
  qed
qed (use P in \<open>auto simp: paths_ok_def heap_paths_def\<close>)

text \<open>So a thread is a client of the feed, and its heap gains only the paths of the events it removed.\<close>

interpretation worker: feed_client "\<lambda>t. \<exists>n. sys_inv B n t" "thread_step B X" "\<lambda>t. p_queue (s_proc t)"
  "\<lambda>t. p_fds (s_proc t)" "\<lambda>t. rq_fd (p_queue_poll_req (s_proc t))" for B X
proof
  fix t t' :: "('a, 'b) sys" assume "\<exists>n. sys_inv B n t" and step: "thread_step B X t t'"
  then obtain n where inv: "sys_inv B n t" by blast
  have "heap_paths UNIV (s_proc t)" by (simp add: heap_paths_def)
  from thread_step_paths [OF step inv this]
  show "p_queue (s_proc t') = p_queue (s_proc t) \<and> p_fds (s_proc t') = p_fds (s_proc t) \<or>
      (\<exists>r e. queue_consume_try (p_fds (s_proc t)) (rq_fd (p_queue_poll_req (s_proc t))) event_zero (p_queue (s_proc t))
        = Inr (r, e, p_queue (s_proc t'), p_fds (s_proc t')))"
    by (auto simp: paths_ok_def consumed_def)
qed

lemma thread_step_popped:
  assumes step: "thread_step B X s s'" and inv: "sys_inv B n s"
    and P: "heap_paths P (s_proc s)" "fst ` set (s_opened s) \<subseteq> P" "[] \<in> P" and q: "queue_ok (p_queue (s_proc s))"
  defines "es \<equiv> popped (p_queue (s_proc s)) (p_queue (s_proc s'))"
  shows "heap_paths (P \<union> (\<lambda>e. cstr (ev_path e)) ` set es) (s_proc s') \<and> fst ` set (s_opened s') \<subseteq> P
    \<and> rq_fd (p_queue_poll_req (s_proc s')) = rq_fd (p_queue_poll_req (s_proc s))"
  using thread_step_paths [OF step inv P(1,2)]
proof (elim disjE conjE)
  assume "consumed P (s_proc s) (s_proc s')" "s_opened s' = s_opened s"
  then obtain r e u v where c: "queue_consume_try (p_fds (s_proc s)) (rq_fd (p_queue_poll_req (s_proc s))) event_zero
      (p_queue (s_proc s)) = Inr (r, e, u, v)"
    and p: "paths_ok (insert (cstr (ev_path e)) P) ((s_proc s)\<lparr>p_queue := u, p_fds := v\<rparr>) (s_proc s')"
    unfolding consumed_def by blast
  from p have u: "p_queue (s_proc s') = u" by (simp add: paths_ok_def)
  have "insert (cstr (ev_path e)) P \<subseteq> P \<union> (\<lambda>e. cstr (ev_path e)) ` set es"
    using consume_contents(2) [OF c q] P(3) event_zero_path by (auto simp: es_def u)
  then have "heap_paths (P \<union> (\<lambda>e. cstr (ev_path e)) ` set es) (s_proc s')"
    using p unfolding paths_ok_def by (blast intro: heap_paths_mono)
  with p P(2) \<open>s_opened s' = s_opened s\<close> show ?thesis by (simp add: paths_ok_def)
qed (auto simp: paths_ok_def heap_paths_def)

section \<open>The start of a thread\<close>

text \<open>A thread starts without paths; setting it up does not touch the queue, and it polls its own eventfd.\<close>

lemma iou_submit_fields:
  "iou_submit ptr p = Inr p' \<Longrightarrow> p_heap p' = p_heap p \<and> p_queue p' = p_queue p \<and> p_fds p' = p_fds p
     \<and> p_queue_poll_req p' = p_queue_poll_req p"
  by (auto simp: iou_submit_def)

lemma setup_fields:
  assumes "processor_setup bo ro h0 k wargs p0 = Inr p"
  shows "p_heap p = p_heap p0 \<and> p_queue p = p_queue p0 \<and> p_fds p = p_fds p0
    \<and> rq_fd (p_queue_poll_req p) = wa_queue_eventfd wargs"
proof -
  from assms obtain rs l where "processor_submit_poll_reqs (processor_prepare_poll_reqs
      (p0\<lparr>p_id := ucast (wa_id wargs), p_nr_tasks := wa_io_concurrency wargs,
         p_queue_efd := wa_queue_eventfd wargs, p_reqs := rs, p_reqs_list := Some 0,
         p_nr_free_reqs := wa_io_concurrency wargs, p_loop := l\<rparr>)) = Inr p"
    by (auto simp: processor_setup_def bind_res_eq_Inr split: if_splits)
  then show ?thesis
    by (auto simp: processor_submit_poll_reqs_def processor_prepare_poll_reqs_def dest!: iou_submit_fields)
qed

lemma start_fields:
  assumes "processor_start X bo ro h0 k wargs p0 = Inr p"
  shows "p_heap p = p_heap p0 \<and> p_queue p = p_queue p0 \<and> p_fds p = p_fds p0
    \<and> rq_fd (p_queue_poll_req p) = wa_queue_eventfd wargs"
proof -
  from assms obtain p1 where
    p1: "processor_setup bo ro h0 k wargs (p0\<lparr>p_verifier := verifier_zero (v_world (p_verifier p0)),
           p_queue_poll_req := ev_io_req_zero\<rparr>) = Inr p1"
    and p: "verifier_init X (p1\<lparr>p_verifier := verifier_zero (v_world (p_verifier p1))\<rparr>) = Inr p"
    by (auto simp: processor_start_def Let_def bind_res_eq_Inr)
  obtain ra v where
    "verifier_connect (p1\<lparr>p_verifier := verifier_zero (v_world (p_verifier p1)), p_remote_addr := ra,
       p_verifier := v\<rparr>) = Inr p"
    by (rule verifier_init_shape [OF p]) simp_all
  then have "p_heap p = p_heap p1 \<and> p_queue p = p_queue p1 \<and> p_fds p = p_fds p1 \<and> p_queue_poll_req p = p_queue_poll_req p1"
    by (auto simp: verifier_connect_def dest!: iou_submit_fields)
  with setup_fields [OF p1] show ?thesis by simp
qed

end
