(* ===== verification/Ride_System.thy ===== *)
theory Ride_System
  imports Ride_Main Processor_Paths
begin

text \<open>
  The whole program while it runs: the callback of the ring buffer, every processor thread, and the
  kernel side of each thread, in any interleaving.  The event queue and the eventfd objects are
  shared; everything else a thread uses is its own.
\<close>

section \<open>The running program\<close>

text \<open>
  \<open>rd_threads\<close> has a state for every thread that has been set up.  \<open>rd_accepted\<close> are the events
  \<open>queue_add\<close> stored, \<open>rd_taken\<close> those the threads removed, each with the number of the thread.
\<close>

record ('h, 'w) ride_sys =
  rd_feed :: feed
  rd_threads :: "('h, 'w) sys option list"
  rd_accepted :: "event list"
  rd_taken :: "(nat \<times> event) list"

definition share :: "feed \<Rightarrow> ('h, 'w) processor \<Rightarrow> ('h, 'w) processor" where
  "share f p = p\<lparr>p_queue := fd_queue f, p_fds := fd_fds f\<rparr>"

definition unshare :: "('h, 'w) processor \<Rightarrow> feed \<Rightarrow> feed" where
  "unshare p f = f\<lparr>fd_queue := p_queue p, fd_fds := p_fds p\<rparr>"

definition thread_start ::
  "'w quic \<Rightarrow> ('h, 'w) run_env \<Rightarrow> processor_args \<Rightarrow> feed \<Rightarrow> ('h, 'w) processor res" where
  "thread_start X E w f =
     (let te = re_thread E (unat (wa_id w))
      in processor_start X (te_buffers te) (te_reqs te) (te_hasher te) (te_iou te) w (share f (te_memory te)))"

text \<open>The events a call of the callback adds to the queue.\<close>

definition handled :: "event \<Rightarrow> queue \<Rightarrow> event list" where
  "handled e q = (if fst (queue_add e q) = 0 then [e] else [])"

inductive ride_step ::
  "'h blake3 \<Rightarrow> 'w quic \<Rightarrow> ('h, 'w) run_env \<Rightarrow> processor_args list \<Rightarrow> event set
     \<Rightarrow> ('h, 'w) ride_sys \<Rightarrow> ('h, 'w) ride_sys \<Rightarrow> bool" for B X E ws V where
  Handle: "e \<in> V \<Longrightarrow> ride_ringbuf_handle e (rd_feed S) = Inr (r, f) \<Longrightarrow>
    ride_step B X E ws V S (S\<lparr>rd_feed := f, rd_accepted := rd_accepted S @ handled e (fd_queue (rd_feed S))\<rparr>)"
| Start: "i < length ws \<Longrightarrow> rd_threads S ! i = None \<Longrightarrow> thread_start X E (ws ! i) (rd_feed S) = Inr p \<Longrightarrow>
    ride_step B X E ws V S (S\<lparr>rd_threads := (rd_threads S)[i := Some (sys_start p)]\<rparr>)"
| Run: "i < length ws \<Longrightarrow> rd_threads S ! i = Some t \<Longrightarrow> thread_step B X (proc_upd (share (rd_feed S)) t) t' \<Longrightarrow>
    ride_step B X E ws V S
      (S\<lparr>rd_feed := unshare (s_proc t') (rd_feed S), rd_threads := (rd_threads S)[i := Some t'],
         rd_taken := rd_taken S @ map (Pair i) (popped (fd_queue (rd_feed S)) (p_queue (s_proc t')))\<rparr>)"

definition ride_sys_start :: "feed \<Rightarrow> processor_args list \<Rightarrow> ('h, 'w) ride_sys" where
  "ride_sys_start f ws = \<lparr>rd_feed = f, rd_threads = replicate (length ws) None, rd_accepted = [], rd_taken = []\<rparr>"

section \<open>The invariant\<close>

definition taken_paths :: "(nat \<times> event) list \<Rightarrow> nat \<Rightarrow> string set" where
  "taken_paths l i = insert [] {cstr (ev_path e) | e. (i, e) \<in> set l}"

definition thread_ok :: "'h blake3 \<Rightarrow> processor_args \<Rightarrow> string set \<Rightarrow> ('h, 'w) sys \<Rightarrow> bool" where
  "thread_ok B w P t \<longleftrightarrow> sys_inv B (ucast (wa_id w)) t \<and> rq_fd (p_queue_poll_req (s_proc t)) = wa_queue_eventfd w
     \<and> heap_paths P (s_proc t) \<and> fst ` set (s_opened t) \<subseteq> P"

definition ride_inv :: "'h blake3 \<Rightarrow> processor_args list \<Rightarrow> event set \<Rightarrow> ('h, 'w) ride_sys \<Rightarrow> bool" where
  "ride_inv B ws V S \<longleftrightarrow> feed_ok (rd_feed S) \<and> fd_efds (rd_feed S) = map wa_queue_eventfd ws
     \<and> (\<forall>k. event_term (q_events (fd_queue (rd_feed S)) k))
     \<and> map snd (rd_taken S) @ queue_contents (fd_queue (rd_feed S)) = rd_accepted S \<and> set (rd_accepted S) \<subseteq> V
     \<and> length (rd_threads S) = length ws
     \<and> (\<forall>i < length ws. \<forall>t. rd_threads S ! i = Some t \<longrightarrow> thread_ok B (ws ! i) (taken_paths (rd_taken S) i) t)"

text \<open>Every thread starts from zeroed memory and with new rings.\<close>

definition threads_fresh :: "('h, 'w) run_env \<Rightarrow> bool" where
  "threads_fresh E \<longleftrightarrow> (\<forall>i. iou_fresh (te_iou (re_thread E i)) \<and> env_fresh (te_memory (re_thread E i)))"

lemma taken_paths_mono: "taken_paths l i \<subseteq> taken_paths (l @ l') i"
  by (auto simp: taken_paths_def)

lemma thread_ok_mono: "thread_ok B w P t \<Longrightarrow> P \<subseteq> Q \<Longrightarrow> thread_ok B w Q t"
  by (auto simp: thread_ok_def heap_paths_def)

lemma share_ok:
  assumes "thread_ok B w P t" "\<And>k. event_term (q_events (fd_queue f) k)" "blake3_streaming B"
  shows "thread_ok B w P (proc_upd (share f) t)"
proof -
  have "sys_step B X t (proc_upd (share f) t)" for X :: "'b quic"
    unfolding share_def by (rule sys_step.Env) (rule assms(2))
  from sys_step_inv [OF this assms(3)] assms(1) show ?thesis by (simp add: thread_ok_def share_def heap_paths_def)
qed

section \<open>Every step keeps the invariant\<close>

lemma run_thread:
  assumes t: "thread_ok B w (taken_paths l i) t" and B: "blake3_streaming B"
    and f: "feed_ok f" "wa_queue_eventfd w \<in> set (fd_efds f)" "\<And>k. event_term (q_events (fd_queue f) k)"
    and step: "thread_step B X (proc_upd (share f) t) t'"
  defines "f' \<equiv> unshare (s_proc t') f" and "es \<equiv> popped (fd_queue f) (p_queue (s_proc t'))"
  shows "thread_ok B w (taken_paths (l @ map (Pair i) es) i) t'" "feed_step\<^sup>=\<^sup>= f f'" "feed_ok f'"
    "q_events (fd_queue f') = q_events (fd_queue f)" "queue_contents (fd_queue f) = es @ queue_contents (fd_queue f')"
proof -
  let ?P = "taken_paths l i" and ?t = "proc_upd (share f) t"
  have ok: "thread_ok B w ?P ?t" using share_ok [OF t f(3) B] .
  then have inv: "sys_inv B (ucast (wa_id w)) ?t" by (simp add: thread_ok_def)
  have fields: "p_queue (s_proc ?t) = fd_queue f" "p_fds (s_proc ?t) = fd_fds f"
    "rq_fd (p_queue_poll_req (s_proc ?t)) = wa_queue_eventfd w" using ok by (simp_all add: share_def thread_ok_def)
  have "\<exists>n. sys_inv B n ?t" using inv by blast
  from worker.client_step [OF this step, of f] f fields
  show feed: "feed_step\<^sup>=\<^sup>= f f'" "feed_ok f'" "q_events (fd_queue f') = q_events (fd_queue f)"
    "queue_contents (fd_queue f) = es @ queue_contents (fd_queue f')"
    by (simp_all add: f'_def es_def unshare_def)
  have "queue_ok (fd_queue f)" using f(1) by (simp add: feed_ok_def)
  from thread_step_popped [OF step inv, of ?P] fields this ok
  have "heap_paths (?P \<union> (\<lambda>e. cstr (ev_path e)) ` set es) (s_proc t')" "fst ` set (s_opened t') \<subseteq> ?P"
    "rq_fd (p_queue_poll_req (s_proc t')) = wa_queue_eventfd w"
    by (auto simp: thread_ok_def es_def taken_paths_def)
  moreover have "?P \<union> (\<lambda>e. cstr (ev_path e)) ` set es \<subseteq> taken_paths (l @ map (Pair i) es) i"
    by (auto simp: taken_paths_def)
  ultimately show "thread_ok B w (taken_paths (l @ map (Pair i) es) i) t'"
    using thread_step_inv [OF step B inv] unfolding thread_ok_def heap_paths_def by blast
qed

lemma handle_queue:
  assumes "ride_ringbuf_handle e f = Inr (r, f')" "feed_ok f"
  shows "queue_contents (fd_queue f') = queue_contents (fd_queue f) @ handled e (fd_queue f)"
    "q_events (fd_queue f') k \<in> insert e (range (q_events (fd_queue f)))"
proof -
  from assms(1) have q: "fd_queue f' = snd (queue_add e (fd_queue f))"
    by (auto simp: ride_ringbuf_handle_def Let_def split: if_splits sum.splits)
  from assms(2) have ok: "queue_ok (fd_queue f)" by (simp add: feed_ok_def)
  have fst: "fst (queue_add e (fd_queue f)) = (if queue_count (fd_queue f) = 8191 then 1 else 0)"
    by (subst queue_add_spec(1) [OF ok]) simp
  show "queue_contents (fd_queue f') = queue_contents (fd_queue f) @ handled e (fd_queue f)"
    using queue_add_spec(3) [OF ok, of e] fst by (simp add: q handled_def)
  show "q_events (fd_queue f') k \<in> insert e (range (q_events (fd_queue f)))"
    by (auto simp: q queue_add_def)
qed

lemma start_ok:
  assumes "thread_start X E w f = Inr p" "threads_fresh E" "\<And>k. event_term (q_events (fd_queue f) k)"
  shows "thread_ok B w P (sys_start p)"
proof -
  let ?te = "re_thread E (unat (wa_id w))"
  from assms(1) have st: "processor_start X (te_buffers ?te) (te_reqs ?te) (te_hasher ?te) (te_iou ?te) w
      (share f (te_memory ?te)) = Inr p" by (simp add: thread_start_def Let_def)
  have fresh: "iou_fresh (te_iou ?te)" "env_fresh (share f (te_memory ?te))"
    using assms(2,3) by (simp_all add: threads_fresh_def env_fresh_def env_ok_def share_def)
  with start_inv [OF st fresh] start_fields [OF st] show ?thesis
    by (simp add: thread_ok_def heap_paths_def sys_start_def env_fresh_def)
qed

lemma ride_inv_threads:
  assumes "ride_inv B ws V S" "i < length ws" "rd_threads S ! i = Some t"
  shows "thread_ok B (ws ! i) (taken_paths (rd_taken S) i) t"
  using assms by (simp add: ride_inv_def)

lemma ride_inv_update:
  assumes inv: "ride_inv B ws V S" and i: "i < length ws" and t: "thread_ok B (ws ! i) (taken_paths (rd_taken S @ l) i) t"
  shows "\<forall>j < length ws. \<forall>u. (rd_threads S)[i := Some t] ! j = Some u
    \<longrightarrow> thread_ok B (ws ! j) (taken_paths (rd_taken S @ l) j) u"
proof (intro allI impI)
  fix j u assume j: "j < length ws" and u: "(rd_threads S)[i := Some t] ! j = Some u"
  show "thread_ok B (ws ! j) (taken_paths (rd_taken S @ l) j) u"
  proof (cases "j = i")
    case True
    with u t inv i show ?thesis by (simp add: ride_inv_def)
  next
    case False
    with u have "rd_threads S ! j = Some u" by simp
    from thread_ok_mono [OF ride_inv_threads [OF inv j this] taken_paths_mono] show ?thesis .
  qed
qed

lemma ride_step_inv:
  assumes step: "ride_step B X E ws V S S'" and inv: "ride_inv B ws V S" and B: "blake3_streaming B"
    and E: "threads_fresh E" and V: "\<And>e. e \<in> V \<Longrightarrow> event_term e" and ws: "length ws < 2 ^ 32"
  shows "ride_inv B ws V S'" "feed_step\<^sup>=\<^sup>= (rd_feed S) (rd_feed S')"
proof -
  let ?f = "rd_feed S"
  from inv have ok: "feed_ok ?f" "fd_efds ?f = map wa_queue_eventfd ws" "event_term (q_events (fd_queue ?f) k)"
    "map snd (rd_taken S) @ queue_contents (fd_queue ?f) = rd_accepted S" for k by (simp_all add: ride_inv_def)
  have "ride_inv B ws V S' \<and> feed_step\<^sup>=\<^sup>= ?f (rd_feed S')"
    using step
  proof cases
    case (Handle e r f)
    have n: "length (fd_efds ?f) < 2 ^ 32" using ok(2) ws by simp
    note h = handle_ok [OF ok(1) Handle(3) n] handle_queue [OF Handle(3) ok(1)]
    have "event_term (q_events (fd_queue f) k)" for k using h(4) [of k] V [OF Handle(2)] ok(3) by auto
    moreover have "set (handled e (fd_queue ?f)) \<subseteq> V" using Handle(2) by (auto simp: handled_def)
    moreover have "map snd (rd_taken S) @ queue_contents (fd_queue f) = rd_accepted S @ handled e (fd_queue ?f)"
      unfolding h(3) ok(4) [symmetric] by simp
    ultimately have "ride_inv B ws V S'" using inv h(1,2) by (simp add: Handle(1) ride_inv_def)
    with Handle show ?thesis by (auto intro: feed_step.Handle)
  next
    case (Start i p)
    from ride_inv_update [OF inv Start(2), of "[]", OF start_ok [OF Start(4) E ok(3)]] inv show ?thesis
      by (simp add: Start(1) ride_inv_def)
  next
    case (Run i t t')
    let ?es = "popped (fd_queue ?f) (p_queue (s_proc t'))"
    have fd: "wa_queue_eventfd (ws ! i) \<in> set (fd_efds ?f)" using ok(2) Run(2) by simp
    note r = run_thread [OF ride_inv_threads [OF inv Run(2,3)] B ok(1) fd ok(3) Run(4)]
    have "map snd (rd_taken S @ map (Pair i) ?es) @ queue_contents (fd_queue (unshare (s_proc t') ?f)) = rd_accepted S"
      using ok(4) r(5) by (simp add: comp_def)
    with ride_inv_update [OF inv Run(2) r(1)] inv r(3,4) have "ride_inv B ws V S'"
      by (simp add: Run(1) ride_inv_def unshare_def)
    with r(2) Run(1) show ?thesis by simp
  qed
  then show "ride_inv B ws V S'" "feed_step\<^sup>=\<^sup>= ?f (rd_feed S')" by simp_all
qed

lemma ride_steps_inv:
  assumes "(ride_step B X E ws V)\<^sup>*\<^sup>* S S'" "ride_inv B ws V S" "blake3_streaming B" "threads_fresh E"
    and "\<And>e. e \<in> V \<Longrightarrow> event_term e" "length ws < 2 ^ 32"
  shows "ride_inv B ws V S' \<and> feed_step\<^sup>*\<^sup>* (rd_feed S) (rd_feed S')"
  using assms(1)
proof (induction rule: rtranclp_induct)
  case (step S1 S2)
  then have "ride_inv B ws V S2" "feed_step\<^sup>=\<^sup>= (rd_feed S1) (rd_feed S2)"
    using ride_step_inv [OF step(2) _ assms(3-6)] by simp_all
  with step(3) show ?case by auto
qed (use assms(2) in simp)

text \<open>The program as \<open>ride_run\<close> starts it.\<close>

lemma ride_start_inv:
  assumes "ride_start E a = Inr (ro, f, ws)" "eventfds_new E (unat (threads a))"
  shows "ride_inv B ws V (ride_sys_start f ws)" "length ws = unat (threads a)"
proof -
  note st = ride_start_feed [OF assms]
  from assms(1) obtain s0 where c: "create_threads E a 0 (unat (threads a)) s0 = Inr (f, ws)"
    and s0: "fd_queue s0 = queue_init \<lparr>q_events = (\<lambda>_. event_zero), q_head = 0, q_tail = 0\<rparr>"
    by (auto simp: ride_start_def Let_def split: if_splits sum.splits)
  from create_threads_eq [OF c] s0 have q: "fd_queue f = queue_init \<lparr>q_events = (\<lambda>_. event_zero), q_head = 0, q_tail = 0\<rparr>"
    by simp
  have z: "event_term event_zero" by (simp add: event_term_def event_zero_def MAX_FILENAME_LEN_def)
  have "q_events (fd_queue f) k = event_zero" for k by (simp add: q queue_init_def)
  with st z q show "ride_inv B ws V (ride_sys_start f ws)" "length ws = unat (threads a)"
    by (simp_all add: ride_inv_def ride_sys_start_def)
qed

lemma ride_inv_taken:
  assumes "ride_inv B ws V S" "(i, e) \<in> set (rd_taken S)"
  shows "e \<in> V"
proof -
  from assms(2) have "e \<in> set (map snd (rd_taken S) @ queue_contents (fd_queue (rd_feed S)))" by force
  with assms(1) show ?thesis by (auto simp only: ride_inv_def)
qed

text \<open>The states the program reaches.\<close>

lemma program_inv:
  assumes start: "ride_start E a = Inr (ro, f, ws)" "eventfds_new E (unat (threads a))" "unat (threads a) < 2 ^ 32"
    and env: "blake3_streaming B" "threads_fresh E" "V \<subseteq> {e. event_term e}"
    and run: "(ride_step B X E ws V)\<^sup>*\<^sup>* (ride_sys_start f ws) S"
  shows "ride_inv B ws V S" "feed_step\<^sup>*\<^sup>* f (rd_feed S)"
proof -
  note st = ride_start_inv [OF start(1,2)]
  have "ride_inv B ws V S \<and> feed_step\<^sup>*\<^sup>* (rd_feed (ride_sys_start f ws :: ('a, 'b) ride_sys)) (rd_feed S)"
    using st(2) start(3) env(3) by (intro ride_steps_inv [OF run st(1) env(1,2)]) auto
  then show "ride_inv B ws V S" "feed_step\<^sup>*\<^sup>* f (rd_feed S)" by (simp_all add: ride_sys_start_def)
qed

section \<open>The events of the hook\<close>

text \<open>
  The events the hook submits, for any file and any process, with any documented outcome of the helper that
  asks for the path: a path that fits, or an error that leaves anything in the record.
\<close>

definition reported :: "('p \<Rightarrow> string \<Rightarrow> i32 \<times> string) \<Rightarrow> bpf_rodata \<Rightarrow> event set" where
  "reported d_path ro = {e. \<exists>pid_tgid f mem. d_path_result (d_path (f_path f) (ev_path mem))
     \<and> ride ro d_path pid_tgid f (Some mem) = Inr (0, [Rb_Submit e])}"

lemma reportedI:
  "d_path_yields d_path (f_path f) s \<Longrightarrow> event_ok mem
     \<Longrightarrow> ride ro d_path pid_tgid f (Some mem) = Inr (0, [Rb_Submit e]) \<Longrightarrow> e \<in> reported d_path ro"
  using d_path_yields_result [of d_path "f_path f" s mem] by (auto simp: reported_def)

lemma ride_submit_path:
  "ride ro d_path pid_tgid f (Some mem) = Inr (0, [Rb_Submit e])
     \<Longrightarrow> ev_path e = (snd (d_path (f_path f) (ev_path mem)))[MAX_FILENAME_LEN - 1 := NUL]"
  by (auto simp: ride_def Let_def split: if_splits)

lemma reported_term: "e \<in> reported d_path ro \<Longrightarrow> event_term e"
  by (auto simp: reported_def event_term_def d_path_result_def MAX_FILENAME_LEN_def
      dest!: ride_submit_path intro!: NUL_in_set_update)

lemma reported_watched:
  assumes "args_ok a" "stat (cstr (watch_path a)) = Some mode" "stat_type mode = Some t"
    and "realpath (cstr (watch_path a)) = Some w" "NUL \<notin> set w" "length w \<le> 127"
    and "ride_stat stat realpath a = Inr (a', diag)" and e: "e \<in> reported d_path (ride_rodata a' pid)"
  shows "case t of WATCH_FILE \<Rightarrow> cstr (ev_path e) = w | WATCH_DIRECRTORY \<Rightarrow> prefix (w @ ''/'') (cstr (ev_path e))"
proof -
  from e obtain pid_tgid f mem where d: "d_path_result (d_path (f_path f) (ev_path mem))"
    and r: "ride (ride_rodata a' pid) d_path pid_tgid f (Some mem) = Inr (0, [Rb_Submit e])"
    by (auto simp: reported_def)
  obtain ret b where b: "d_path (f_path f) (ev_path mem) = (ret, b)" by fastforce
  from watch_result [where d_path = d_path, OF assms(1-7) b d [unfolded b] refl, of pid pid_tgid] r show ?thesis
    by (cases t) (auto split: if_splits)
qed

section \<open>Schedules\<close>

text \<open>A schedule of one thread, without the other threads, runs in the whole program.\<close>

definition own_action :: "action \<Rightarrow> bool" where
  "own_action a = (case a of K_Env _ _ \<Rightarrow> False | _ \<Rightarrow> True)"

lemma own_thread: "act B X a s = Some s' \<Longrightarrow> own_action a \<Longrightarrow> thread_step B X s s'"
  by (rule act_thread) (auto simp: own_action_def)

lemma run_acts:
  assumes "acts B X (a # as) (proc_upd (share (rd_feed S)) t) = Some t'" "list_all own_action (a # as)"
    and "i < length ws" "length (rd_threads S) = length ws" "rd_threads S ! i = Some t"
  shows "\<exists>S'. (ride_step B X E ws V)\<^sup>*\<^sup>* S S' \<and> rd_threads S' = (rd_threads S)[i := Some t']
    \<and> rd_feed S' = unshare (s_proc t') (rd_feed S)"
  using assms
proof (induction as arbitrary: a S t)
  case Nil
  then have "thread_step B X (proc_upd (share (rd_feed S)) t) t'"
    by (intro own_thread [of _ _ a]) (simp_all add: bind_eq_Some_conv)
  note step = ride_step.Run [OF Nil(3,5) this, of E V]
  show ?case by (rule exI, rule conjI, rule r_into_rtranclp, rule step) simp
next
  case (Cons b as)
  from Cons.prems(1) obtain t1 where t1: "act B X a (proc_upd (share (rd_feed S)) t) = Some t1"
    and rest: "acts B X (b # as) t1 = Some t'" by (auto simp: bind_eq_Some_conv)
  have "thread_step B X (proc_upd (share (rd_feed S)) t) t1" using own_thread [OF t1] Cons.prems(2) by simp
  note step = ride_step.Run [OF Cons.prems(3,5) this, of E V]
  let ?S = "S\<lparr>rd_feed := unshare (s_proc t1) (rd_feed S), rd_threads := (rd_threads S)[i := Some t1],
         rd_taken := rd_taken S @ map (Pair i) (popped (fd_queue (rd_feed S)) (p_queue (s_proc t1)))\<rparr>"
  have "proc_upd (share (rd_feed ?S)) t1 = t1" by (simp add: share_def unshare_def)
  with rest Cons.IH [of b ?S t1] Cons.prems obtain S' where "(ride_step B X E ws V)\<^sup>*\<^sup>* ?S S'"
    "rd_threads S' = (rd_threads S)[i := Some t']" "rd_feed S' = unshare (s_proc t') (rd_feed S)"
    by (auto simp: unshare_def)
  with step show ?case by (blast intro: converse_rtranclp_into_rtranclp)
qed

section \<open>A run of the program\<close>

text \<open>\<open>ride -t 1 -c 4 a\<close>: the file \<open>a\<close> is opened once, and its digest printed.\<close>

definition program_argv :: "string list" where
  "program_argv = [''ride'', ''-t'', show_nat 1, ''-c'', show_nat 4, ''a'']"

definition program_env :: "(u8 list, u8 list list) run_env" where
  "program_env = (sample_env 4)\<lparr>re_stat := (\<lambda>_. Some 0x81A4),
     re_thread := (\<lambda>_. \<lparr>te_buffers = True, te_reqs = True, te_hasher = \<lparr>blake = []\<rparr>, te_iou = sample_iou,
                       te_memory = sample_processor [] [] 4, te_others = (\<lambda>_ _ p. p)\<rparr>)\<rparr>"

definition program_worker :: processor_args where
  "program_worker = \<lparr>wa_id = 0, wa_io_concurrency = 4, wa_queue_eventfd = 4, wa_quit_eventfd = 3, wa_verify = False\<rparr>"

lemma program_stat:
  obtains a a' d where "parse_env (cli_args_init (re_nprocs program_env)) program_argv = Inr a"
    "cstr (watch_path a) = ''a''" "ride_stat (re_stat program_env) (re_realpath program_env) a = Inr (a', d)"
    "threads a' = 1" "io_concurrency a' = 4" "verify a' = False"
proof -
  let ?a = "(cli_args_init 4)\<lparr>threads := 1, io_concurrency := 4, watch_path := ''a'' @ replicate 127 NUL\<rparr>"
  have "(strncpy (replicate 128 NUL) ''a'' 128)[127 := NUL] = ''a'' @ replicate 127 NUL"
    using strncpy_pad [of "replicate 128 NUL" "''a''"] by simp
  then have p: "parse_env (cli_args_init (re_nprocs program_env)) program_argv = Inr ?a"
    using parse_env_options [of 1 4 "''a''" 4 "''ride''"]
    by (simp add: program_argv_def program_env_def sample_env_def is_operand_def)
  have c: "cstr (watch_path ?a) = ''a''" by (simp add: cstr_def)
  obtain d where d: "ride_stat (re_stat program_env) (re_realpath program_env) ?a =
      Inr (?a\<lparr>watch_path := ''a'' @ replicate 127 NUL, watch_path_len := 1, cli_watch_path_type := WATCH_FILE\<rparr>, d)"
    using ride_stat_path [of ?a "re_stat program_env" "0x81A4" WATCH_FILE "re_realpath program_env" "''a''"] c
    by (auto simp: program_env_def sample_env_def MAX_FILENAME_LEN_def stat_type_def stat_watch_def)
  from that [OF p c d] show thesis by (simp add: cli_args_init_def)
qed

lemma program_start:
  assumes "threads a = 1" "io_concurrency a = 4" "verify a = False"
  shows "ride_start program_env a = Inr (ride_rodata a 42, sample_started [4], [program_worker])"
    "eventfds_new program_env (unat (threads a))"
  using assms
  by (simp_all add: ride_start_def program_env_def sample_env_def Let_def sample_started_def program_worker_def
      eventfds_new_def lessThan_Suc)

text \<open>The feed after the event has been handled.\<close>

definition program_fed :: feed where
  "program_fed = (sample_started [4])\<lparr>
     fd_queue := \<lparr>q_events = (\<lambda>_. event_zero)(0 := run_event), q_head = 1, q_tail = 0\<rparr>, fd_next := 1,
     fd_fds := [3 \<mapsto> \<lparr>efd_count = 0, efd_semaphore = False\<rparr>, 4 \<mapsto> \<lparr>efd_count = 1, efd_semaphore = True\<rparr>]\<rparr>"

lemma program_handle: "ride_ringbuf_handle run_event (sample_started [4]) = Inr (0, program_fed)"
  by (simp add: ride_ringbuf_handle_def sample_started_def program_fed_def eventfd_write_def queue_add_def
      queue_init_def QUEUE_SIZE_def)

lemma program_run:
  "(case thread_start sample_quic program_env program_worker (sample_started [4]) of
      Inl _ \<Rightarrow> False
    | Inr p \<Rightarrow>
        (case acts sum_hash sample_quic connect_script (proc_upd (share (sample_started [4])) (sys_start p)) of
           None \<Rightarrow> False
         | Some t \<Rightarrow> p_queue (s_proc t) = fd_queue (sample_started [4]) \<and> p_fds (s_proc t) = fd_fds (sample_started [4]) \<and>
             (case acts sum_hash sample_quic (tl open_script @ read_script @ [K_Reap]) (proc_upd (share program_fed) t) of
                None \<Rightarrow> False
              | Some t' \<Rightarrow> s_opened t' = [(''a'', [1, 2, 3])] \<and> p_stdout (s_proc t') \<noteq> [])))"
  by (simp add: thread_start_def program_env_def program_worker_def share_def sample_started_def program_fed_def queue_init_def
      connect_script_def open_script_def read_script_def run_event_def run_buf_def
      start_simps connect_simps file_simps eof_simps show_nat.simps [of 0] show_nat.simps [of "Suc 0"])

lemma program_event:
  assumes "parse_env (cli_args_init (re_nprocs program_env)) program_argv = Inr a" "cstr (watch_path a) = ''a''"
    and rs: "ride_stat (re_stat program_env) (re_realpath program_env) a = Inr (a', d)"
  shows "run_event \<in> reported sample_d_path (ride_rodata a' 42)"
proof -
  have env: "re_stat program_env ''a'' = Some 0x81A4" "re_realpath program_env ''a'' = Some ''a''"
    by (simp_all add: program_env_def sample_env_def)
  have st: "stat_type 0x81A4 = Some WATCH_FILE" by (simp add: stat_type_def)
  have y: "d_path_yields sample_d_path (f_path (sample_file ''a'')) ''a''"
    by (simp add: sample_file_def sample_d_path_yields)
  have z: "event_ok event_zero" by simp
  have "drop_bit 32 (7 * 2 ^ 32 :: u64) = 7" by (simp add: drop_bit_eq_div)
  then have "\<not> hook_ignores (ride_rodata a' 42) (7 * 2 ^ 32) (sample_file ''a'')"
    by (simp add: hook_ignores_def sample_file_def ride_rodata_def S_ISREG_def S_IFMT_def S_IFREG_def
        fs_requires_dev_def FS_REQUIRES_DEV_def)
  then obtain buf where r: "ride (ride_rodata a' 42) sample_d_path (7 * 2 ^ 32) (sample_file ''a'') (Some event_zero)
      = Inr (0, [Rb_Submit \<lparr>ev_path = buf, ev_path_len = 1\<rparr>])"
    using watch_select [OF parse_env_ok [OF assms(1), THEN conjunct1] _ st _ _ _ rs y z, of "''a''" 42 "7 * 2 ^ 32"] env assms(2) by auto
  have "buf = CHR ''a'' # replicate 127 NUL"
    using ride_submit_path [OF r]
    by (simp add: sample_d_path_def sample_file_def MAX_FILENAME_LEN_def list_update_same_conv)
  then have "\<lparr>ev_path = buf, ev_path_len = 1\<rparr> = run_event"
    by (simp add: run_event_def event_zero_def MAX_FILENAME_LEN_def)
  then show ?thesis using reportedI [OF y z r] by simp
qed

lemma program_fresh: "threads_fresh program_env"
  using sample_fresh by (simp add: threads_fresh_def program_env_def)

lemma program_reaches:
  assumes "run_event \<in> V"
  obtains S t where "(ride_step sum_hash sample_quic program_env [program_worker] V)\<^sup>*\<^sup>*
      (ride_sys_start (sample_started [4]) [program_worker]) S" "rd_threads S = [Some t]"
    "s_opened t = [(''a'', [1, 2, 3])]" "p_stdout (s_proc t) \<noteq> []"
proof -
  let ?step = "ride_step sum_hash sample_quic program_env [program_worker] V" and ?f = "sample_started [4]"
  let ?S0 = "ride_sys_start ?f [program_worker] :: (u8 list, u8 list list) ride_sys"
  from program_run obtain p t t' where p: "thread_start sample_quic program_env program_worker ?f = Inr p"
    and t: "acts sum_hash sample_quic connect_script (proc_upd (share ?f) (sys_start p)) = Some t"
      "p_queue (s_proc t) = fd_queue ?f" "p_fds (s_proc t) = fd_fds ?f"
    and t': "acts sum_hash sample_quic (tl open_script @ read_script @ [K_Reap]) (proc_upd (share program_fed) t) = Some t'"
      "s_opened t' = [(''a'', [1, 2, 3])]" "p_stdout (s_proc t') \<noteq> []"
    by (auto split: sum.splits option.splits)
  let ?S1 = "?S0\<lparr>rd_threads := [Some (sys_start p)]\<rparr>"
  have "?step ?S0 ?S1"
    using ride_step.Start [of 0 "[program_worker]" ?S0 sample_quic program_env p sum_hash V] p by (simp add: ride_sys_start_def)
  moreover obtain S2 where "?step\<^sup>*\<^sup>* ?S1 S2" and S2: "rd_threads S2 = [Some t]" "rd_feed S2 = ?f"
    using run_acts [of sum_hash sample_quic "hd connect_script" "tl connect_script" ?S1 "sys_start p" t 0 "[program_worker]"
        program_env V] t by (auto simp: connect_script_def own_action_def ride_sys_start_def unshare_def)
  moreover let ?S3 = "S2\<lparr>rd_feed := program_fed, rd_accepted := rd_accepted S2 @ handled run_event (fd_queue ?f)\<rparr>"
  have "?step S2 ?S3" using ride_step.Handle [OF assms, of S2 0 program_fed] program_handle S2(2) by simp
  moreover obtain S4 where "?step\<^sup>*\<^sup>* ?S3 S4" and S4: "rd_threads S4 = [Some t']"
    using run_acts [of sum_hash sample_quic "hd (tl open_script)" "tl (tl open_script) @ read_script @ [K_Reap]" ?S3 t t' 0
        "[program_worker]" program_env V] t' S2 by (auto simp: open_script_def read_script_def own_action_def)
  ultimately have "?step\<^sup>*\<^sup>* ?S0 S4" by (meson converse_rtranclp_into_rtranclp rtranclp.rtrancl_into_rtrancl rtranclp_trans)
  from that [OF this S4 t'(2,3)] show thesis .
qed

end
