(* ===== verification/Kernel_Layout.thy ===== *)
theory Kernel_Layout
  imports Ride_Prelude
begin

text \<open>
  C types and their layout in memory.  \<open>vmlinux.h\<close> declares the kernel structures that the BPF program
  reads and the io_uring structures shared with the kernel; what a member access reads depends on
  the layout the compiler gives them.  A type is described by a value of \<open>ctype\<close>; sizes, alignments and
  positions follow the System V ABI for x86-64.  Positions are counted in bits, since bit-fields
  share bytes.
\<close>

section \<open>Types\<close>

text \<open>
  Integers by their size in bytes, enumerations with their constants, named and unnamed bit-fields
  with the size of the declared type and the width, pointers with what they point to, arrays,
  structures and unions.  A member without a name is an anonymous structure or union.
\<close>

datatype ctype =
    Sint nat
  | Uint nat
  | Enum nat "(string \<times> int) list"
  | Bits nat nat
  | Pad nat nat
  | Ptr string
  | Arr nat ctype
  | Struct "(string \<times> ctype) list"
  | Union "(string \<times> ctype) list"

type_synonym fields = "(string \<times> ctype) list"

definition align_up :: "nat \<Rightarrow> nat \<Rightarrow> nat" where
  "align_up n a = (n + a - 1) div a * a"

fun align_of :: "ctype \<Rightarrow> nat" and fields_align :: "fields \<Rightarrow> nat" where
  "align_of (Sint n) = n"
| "align_of (Uint n) = n"
| "align_of (Enum n cs) = n"
| "align_of (Bits b w) = b"
| "align_of (Pad b w) = 1"
| "align_of (Ptr s) = 8"
| "align_of (Arr n t) = align_of t"
| "align_of (Struct fs) = fields_align fs"
| "align_of (Union fs) = fields_align fs"
| "fields_align [] = 1"
| "fields_align (f # fs) = max (align_of (snd f)) (fields_align fs)"

text \<open>
  Where a member starts, given the first free bit: a bit-field continues in the current unit of its
  declared type if it fits, everything else starts at the next multiple of its alignment.
\<close>

definition bits_at :: "nat \<Rightarrow> nat \<Rightarrow> nat \<Rightarrow> nat" where
  "bits_at pos b w = (if pos mod (8 * b) + w \<le> 8 * b then pos else align_up pos (8 * b))"

fun place :: "nat \<Rightarrow> ctype \<Rightarrow> nat" where
  "place pos (Bits b w) = bits_at pos b w"
| "place pos (Pad b w) = bits_at pos b w"
| "place pos t = align_up pos (8 * align_of t)"

fun size_of :: "ctype \<Rightarrow> nat" and width :: "ctype \<Rightarrow> nat"
  and fields_end :: "nat \<Rightarrow> fields \<Rightarrow> nat" and fields_max :: "fields \<Rightarrow> nat" where
  "size_of (Sint n) = n"
| "size_of (Uint n) = n"
| "size_of (Enum n cs) = n"
| "size_of (Bits b w) = b"
| "size_of (Pad b w) = b"
| "size_of (Ptr s) = 8"
| "size_of (Arr n t) = n * size_of t"
| "size_of (Struct fs) = align_up (fields_end 0 fs) (8 * fields_align fs) div 8"
| "size_of (Union fs) = align_up (fields_max fs) (8 * fields_align fs) div 8"
| "width (Bits b w) = w"
| "width (Pad b w) = w"
| "width (Sint n) = 8 * n"
| "width (Uint n) = 8 * n"
| "width (Enum n cs) = 8 * n"
| "width (Ptr s) = 64"
| "width (Arr n t) = 8 * (n * size_of t)"
| "width (Struct fs) = align_up (fields_end 0 fs) (8 * fields_align fs)"
| "width (Union fs) = align_up (fields_max fs) (8 * fields_align fs)"
| "fields_end pos [] = pos"
| "fields_end pos (f # fs) = fields_end (place pos (snd f) + width (snd f)) fs"
| "fields_max [] = 0"
| "fields_max (f # fs) = max (width (snd f)) (fields_max fs)"

fun is_bits :: "ctype \<Rightarrow> bool" where
  "is_bits (Bits b w) = True"
| "is_bits (Pad b w) = True"
| "is_bits t = False"

text \<open>The members of a structure with their positions.\<close>

fun layout :: "nat \<Rightarrow> fields \<Rightarrow> (string \<times> nat \<times> ctype) list" where
  "layout pos [] = []"
| "layout pos (f # fs) = (fst f, place pos (snd f), snd f) # layout (place pos (snd f) + width (snd f)) fs"

text \<open>The position and type of a member by its name, also inside anonymous members.\<close>

definition shift :: "nat \<Rightarrow> (nat \<times> ctype) option \<Rightarrow> (nat \<times> ctype) option" where
  "shift k r = (case r of None \<Rightarrow> None | Some (pos, t) \<Rightarrow> Some (k + pos, t))"

definition or_else :: "'a option \<Rightarrow> 'a option \<Rightarrow> 'a option" where
  "or_else r r' = (case r of None \<Rightarrow> r' | Some x \<Rightarrow> Some x)"

fun field :: "string \<Rightarrow> ctype \<Rightarrow> (nat \<times> ctype) option"
  and struct_field :: "string \<Rightarrow> nat \<Rightarrow> fields \<Rightarrow> (nat \<times> ctype) option"
  and union_field :: "string \<Rightarrow> fields \<Rightarrow> (nat \<times> ctype) option" where
  "field x (Struct fs) = struct_field x 0 fs"
| "field x (Union fs) = union_field x fs"
| "field x (Sint n) = None"
| "field x (Uint n) = None"
| "field x (Enum n cs) = None"
| "field x (Bits b w) = None"
| "field x (Pad b w) = None"
| "field x (Ptr s) = None"
| "field x (Arr n t) = None"
| "struct_field x pos [] = None"
| "struct_field x pos (f # fs) =
     (if fst f = x then Some (place pos (snd f), snd f)
      else or_else (if fst f = [] then shift (place pos (snd f)) (field x (snd f)) else None)
             (struct_field x (place pos (snd f) + width (snd f)) fs))"
| "union_field x [] = None"
| "union_field x (f # fs) =
     (if fst f = x then Some (0, snd f)
      else or_else (if fst f = [] then field x (snd f) else None) (union_field x fs))"

text \<open>A designator \<open>a.b.c\<close>.\<close>

fun designator :: "string list \<Rightarrow> ctype \<Rightarrow> (nat \<times> ctype) option" where
  "designator [] t = Some (0, t)"
| "designator (x # xs) t = Option.bind (field x t) (\<lambda>(pos, t'). shift pos (designator xs t'))"

section \<open>Well-formed types\<close>

abbreviation scalar_size :: "nat \<Rightarrow> bool" where
  "scalar_size n \<equiv> n = 1 \<or> n = 2 \<or> n = 4 \<or> n = 8"

fun wf_type :: "ctype \<Rightarrow> bool" and wf_fields :: "fields \<Rightarrow> bool" where
  "wf_type (Sint n) = scalar_size n"
| "wf_type (Uint n) = scalar_size n"
| "wf_type (Enum n cs) = scalar_size n"
| "wf_type (Bits b w) = (scalar_size b \<and> 0 < w \<and> w \<le> 8 * b)"
| "wf_type (Pad b w) = (scalar_size b \<and> 0 < w \<and> w \<le> 8 * b)"
| "wf_type (Ptr s) = True"
| "wf_type (Arr n t) = (wf_type t \<and> \<not> is_bits t)"
| "wf_type (Struct fs) = wf_fields fs"
| "wf_type (Union fs) = wf_fields fs"
| "wf_fields [] = True"
| "wf_fields (f # fs) = (wf_type (snd f) \<and> wf_fields fs)"

lemma align_up_ge: "0 < a \<Longrightarrow> n \<le> align_up n a"
proof -
  assume "0 < a"
  moreover have "n + a - 1 = (n + a - 1) div a * a + (n + a - 1) mod a" by simp
  ultimately show ?thesis using mod_less_divisor [of a "n + a - 1"] unfolding align_up_def by linarith
qed

lemma align_up_dvd: "a dvd align_up n a"
  by (simp add: align_up_def)

lemma align_scalar: "wf_type t \<Longrightarrow> scalar_size (align_of t)" "wf_fields fs \<Longrightarrow> scalar_size (fields_align fs)"
  by (induction t and fs rule: align_of_fields_align.induct) (auto simp: max_def)

lemma align_pos: "wf_type t \<Longrightarrow> 0 < align_of t"
  using align_scalar(1) [of t] by auto

lemma fields_align_dvd: "wf_fields fs \<Longrightarrow> f \<in> set fs \<Longrightarrow> align_of (snd f) dvd fields_align fs"
proof (induction fs)
  case (Cons g fs)
  have "scalar_size a \<Longrightarrow> scalar_size b \<Longrightarrow> a dvd max a b \<and> b dvd max a b" for a b :: nat by auto
  from this [OF align_scalar(1) [of "snd g"] align_scalar(2) [of fs]] Cons show ?case by (auto intro: dvd_trans)
qed simp

lemma width_size: "\<not> is_bits t \<Longrightarrow> width t = 8 * size_of t"
  by (cases t) (simp_all add: align_up_def)

lemma place_ge: "wf_type t \<Longrightarrow> pos \<le> place pos t"
  by (cases t) (auto simp: bits_at_def intro!: align_up_ge dest: align_scalar)

lemma place_dvd: "\<not> is_bits t \<Longrightarrow> 8 * align_of t dvd place pos t"
  by (cases t) (simp_all add: align_up_dvd del: align_of.simps)

lemma align_up_least: "0 < a \<Longrightarrow> align_up n a < n + a"
proof -
  assume "0 < a"
  moreover have "(n + a - 1) div a * a \<le> n + a - 1" by simp
  ultimately show ?thesis unfolding align_up_def by linarith
qed

text \<open>
  The layout of a declared type is computed once and kept in \<open>kernel_layout\<close>; the rules below use it
  without unfolding the declaration.
\<close>

named_theorems kernel_layout

lemma place_align: "\<not> is_bits t \<Longrightarrow> place pos t = align_up pos (8 * align_of t)"
  by (cases t) simp_all

lemmas layout_rules = place_align width_size align_up_def bits_at_def

text \<open>Long runs of padding words.\<close>

lemma fields_append [kernel_layout]:
  "fields_align (fs @ gs) = max (fields_align fs) (fields_align gs)"
  "fields_end pos (fs @ gs) = fields_end (fields_end pos fs) gs"
  "wf_fields (fs @ gs) \<longleftrightarrow> wf_fields fs \<and> wf_fields gs"
proof -
  have "1 \<le> fields_align gs" by (induction gs) (auto simp: max_def)
  then show "fields_align (fs @ gs) = max (fields_align fs) (fields_align gs)" by (induction fs) auto
qed (induction fs arbitrary: pos; simp)+

lemma pads_layout [kernel_layout]:
  "fields_align (replicate n (x, Pad b w)) = 1"
  "wf_type (Pad b w) \<Longrightarrow> wf_fields (replicate n (x, Pad b w))"
  by (induction n) auto

lemma pads_end [kernel_layout]:
  "fields_end pos (replicate n (x, Pad 8 64)) = (if n = 0 then pos else align_up pos 64 + 64 * n)"
proof (induction n arbitrary: pos)
  case (Suc n)
  have b: "bits_at pos 8 64 = align_up pos 64" for pos
    by (auto simp: bits_at_def align_up_def elim!: dvdE)
  have "align_up (align_up pos 64 + 64) 64 = align_up pos 64 + 64" by (simp add: align_up_def)
  with Suc b show ?case by simp
qed simp

section \<open>Members lie inside their object, aligned and apart\<close>

lemma fields_end_ge: "wf_fields fs \<Longrightarrow> pos \<le> fields_end pos fs"
proof (induction fs arbitrary: pos)
  case (Cons f fs)
  from place_ge [of "snd f" pos] Cons.IH [of "place pos (snd f) + width (snd f)"] Cons.prems show ?case by auto
qed simp

lemma shift_Some: "shift k r = Some (pos, t) \<longleftrightarrow> (\<exists>pos'. r = Some (pos', t) \<and> pos = k + pos')"
  by (auto simp: shift_def split: option.splits)

lemma or_else_Some: "or_else r r' = Some x \<longleftrightarrow> r = Some x \<or> r = None \<and> r' = Some x"
  by (auto simp: or_else_def split: option.splits)

definition inside :: "nat \<Rightarrow> ctype \<Rightarrow> nat \<Rightarrow> nat \<Rightarrow> bool" where
  "inside pos t lo hi \<longleftrightarrow> lo \<le> pos \<and> pos + width t \<le> hi \<and> wf_type t \<and> (\<not> is_bits t \<longrightarrow> 8 * align_of t dvd pos)"

lemma inside_nested:
  assumes "inside pos t 0 (width u)" "lo \<le> k" "k + width u \<le> hi" "8 * align_of t dvd k \<or> is_bits t"
  shows "inside (k + pos) t lo hi"
  using assms by (auto simp: inside_def intro: dvd_add)

text \<open>The alignment of a member divides that of the whole object.\<close>

lemma field_align:
  "wf_type t \<Longrightarrow> field x t = Some (pos, u) \<Longrightarrow> \<not> is_bits u \<Longrightarrow> align_of u dvd align_of t"
  "wf_fields fs \<Longrightarrow> struct_field x p fs = Some (pos, u) \<Longrightarrow> \<not> is_bits u \<Longrightarrow> align_of u dvd fields_align fs"
  "wf_fields fs \<Longrightarrow> union_field x fs = Some (pos, u) \<Longrightarrow> \<not> is_bits u \<Longrightarrow> align_of u dvd fields_align fs"
proof (induction x t and x p fs and x fs arbitrary: pos u and pos u and pos u rule: field_struct_field_union_field.induct)
  case (11 x p f fs)
  have d: "align_of (snd f) dvd fields_align (f # fs)" "fields_align fs dvd fields_align (f # fs)"
    using 11(3) fields_align_dvd [of "f # fs" f] align_scalar(1) [of "snd f"] align_scalar(2) [of fs] by auto
  from 11 d show ?case
    by (auto simp del: fields_align.simps simp: or_else_Some shift_Some split: if_splits intro: dvd_trans)
next
  case (13 x f fs)
  have d: "align_of (snd f) dvd fields_align (f # fs)" "fields_align fs dvd fields_align (f # fs)"
    using 13(3) fields_align_dvd [of "f # fs" f] align_scalar(1) [of "snd f"] align_scalar(2) [of fs] by auto
  from 13 d show ?case
    by (auto simp del: fields_align.simps simp: or_else_Some split: if_splits intro: dvd_trans)
qed simp_all

lemma field_not_bits: "field x t = Some r \<Longrightarrow> \<not> is_bits t"
  by (cases t) simp_all

lemma inside_mono: "inside pos t lo hi \<Longrightarrow> lo' \<le> lo \<Longrightarrow> hi \<le> hi' \<Longrightarrow> inside pos t lo' hi'"
  by (auto simp: inside_def)

lemma align_up_mono_ge: "wf_fields fs \<Longrightarrow> n \<le> align_up n (8 * fields_align fs)"
  using align_scalar(2) [of fs] by (intro align_up_ge) auto

lemma field_inside:
  "wf_type t \<Longrightarrow> field x t = Some (pos, u) \<Longrightarrow> inside pos u 0 (width t)"
  "wf_fields fs \<Longrightarrow> struct_field x p fs = Some (pos, u) \<Longrightarrow> inside pos u p (fields_end p fs)"
  "wf_fields fs \<Longrightarrow> union_field x fs = Some (pos, u) \<Longrightarrow> inside pos u 0 (fields_max fs)"
proof (induction x t and x p fs and x fs arbitrary: pos u and pos u and pos u rule: field_struct_field_union_field.induct)
  case (1 x fs)
  then show ?case using align_up_mono_ge [of fs "fields_end 0 fs"] by (auto elim: inside_mono)
next
  case (2 x fs)
  then show ?case using align_up_mono_ge [of fs "fields_max fs"] by (auto elim: inside_mono)
next
  case (11 x p f fs)
  let ?k = "place p (snd f)"
  have wf: "wf_type (snd f)" "wf_fields fs" using 11(3) by simp_all
  note ge = place_ge [OF wf(1), of p] and fe = fields_end_ge [OF wf(2), of "?k + width (snd f)"]
  consider "(pos, u) = (?k, snd f)" | pos' where "fst f = []" "fst f \<noteq> x" "field x (snd f) = Some (pos', u)" "pos = ?k + pos'"
    | "fst f \<noteq> x" "struct_field x (?k + width (snd f)) fs = Some (pos, u)"
    using 11(4) by (auto simp: or_else_Some shift_Some split: if_splits)
  then show ?case
  proof cases
    case 1
    with ge fe wf place_dvd [of "snd f" p] show ?thesis by (auto simp: inside_def)
  next
    case 2
    from 11(1) [OF _ _ wf(1) 2(3)] 2 have i: "inside pos' u 0 (width (snd f))" by simp
    have "8 * align_of u dvd ?k \<or> is_bits u"
      using field_align(1) [OF wf(1) 2(3)] place_dvd [OF field_not_bits [OF 2(3)], of p]
      by (auto intro: dvd_trans mult_dvd_mono)
    from inside_nested [OF i ge _ this, of "fields_end p (f # fs)"] fe 2(4) show ?thesis by simp
  next
    case 3
    from 11(2) [OF 3(1) wf(2) 3(2)] ge show ?thesis by (auto elim: inside_mono)
  qed
next
  case (13 x f fs)
  have wf: "wf_type (snd f)" "wf_fields fs" using 13(3) by simp_all
  from 13(4) consider "(pos, u) = (0, snd f)" | "fst f = []" "fst f \<noteq> x" "field x (snd f) = Some (pos, u)"
    | "fst f \<noteq> x" "union_field x fs = Some (pos, u)"
    by (auto simp: or_else_Some split: if_splits)
  then show ?case
  proof cases
    case 1
    with wf show ?thesis by (simp add: inside_def)
  next
    case 2
    from 13(1) [OF 2(2,1) wf(1) 2(3)] show ?thesis by (auto elim: inside_mono)
  next
    case 3
    from 13(2) [OF 3(1) wf(2) 3(2)] show ?thesis by (auto elim: inside_mono)
  qed
qed simp_all

lemma designator_inside:
  "wf_type t \<Longrightarrow> designator xs t = Some (pos, u) \<Longrightarrow> inside pos u 0 (width t) \<and> (\<not> is_bits u \<longrightarrow> align_of u dvd align_of t)"
proof (induction xs arbitrary: t pos)
  case Nil
  then show ?case by (auto simp: inside_def)
next
  case (Cons x xs)
  from Cons.prems(2) obtain k t' pos' where f: "field x t = Some (k, t')" and d: "designator xs t' = Some (pos', u)"
    and pos: "pos = k + pos'" by (auto simp: bind_eq_Some_conv shift_Some)
  note i = field_inside(1) [OF Cons.prems(1) f]
  then have wf: "wf_type t'" by (simp add: inside_def)
  from Cons.IH [OF wf d] have IH: "inside pos' u 0 (width t')" "\<not> is_bits u \<Longrightarrow> align_of u dvd align_of t'" by auto
  show ?case
  proof (cases "is_bits t'")
    case True
    with d have "xs = []" by (cases xs; cases t') auto
    with d pos i True show ?thesis by (auto simp: inside_def)
  next
    case False
    from i False have "8 * align_of t' dvd k" by (simp add: inside_def)
    with IH(2) have "8 * align_of u dvd k \<or> is_bits u" by (auto intro: dvd_trans mult_dvd_mono)
    from inside_nested [OF IH(1) _ _ this, of 0 "width t"] i pos have "inside pos u 0 (width t)" by (simp add: inside_def)
    with IH(2) field_align(1) [OF Cons.prems(1) f False] show ?thesis by (auto intro: dvd_trans)
  qed
qed

text \<open>The members of a structure follow each other without overlap.\<close>

lemma layout_apart:
  "wf_fields fs \<Longrightarrow> sorted_wrt (\<lambda>(_, pos, t) (_, pos', _). pos + width t \<le> pos') (layout p fs)
     \<and> (\<forall>(_, pos, _) \<in> set (layout p fs). p \<le> pos)"
proof (induction fs arbitrary: p)
  case (Cons f fs)
  from Cons.IH [of "place p (snd f) + width (snd f)"] Cons.prems place_ge [of "snd f" p] show ?case by fastforce
qed simp

text \<open>Looking up a member of a long structure, one declaration at a time.\<close>

lemma member_here:
  "fst f = x \<Longrightarrow> place pos (snd f) = pos' \<Longrightarrow> snd f = t \<Longrightarrow> struct_field x pos (f # fs) = Some (pos', t)"
  by simp

lemma member_skip:
  "fst f \<noteq> x \<Longrightarrow> fst f \<noteq> [] \<Longrightarrow> place pos (snd f) + width (snd f) = pos' \<Longrightarrow> struct_field x pos' fs = r \<Longrightarrow>
     struct_field x pos (f # fs) = r"
  by (simp add: or_else_def)

lemma member_skip_anon:
  "fst f = [] \<Longrightarrow> x \<noteq> [] \<Longrightarrow> field x (snd f) = None \<Longrightarrow> place pos (snd f) + width (snd f) = pos' \<Longrightarrow>
     struct_field x pos' fs = r \<Longrightarrow> struct_field x pos (f # fs) = r"
  by (simp add: or_else_def shift_def)

lemma designator_field: "field x t = Some (pos, u) \<Longrightarrow> designator [x] t = Some (pos, u)"
  by (simp add: shift_def)

section \<open>Memory\<close>

type_synonym mem = "nat \<Rightarrow> u8"

text \<open>Little-endian loads and stores of \<open>n\<close> bytes, and \<open>memset\<close> to zero.\<close>

fun load :: "nat \<Rightarrow> mem \<Rightarrow> nat \<Rightarrow> nat" where
  "load 0 m a = 0"
| "load (Suc n) m a = unat (m a) + 256 * load n m (Suc a)"

fun store :: "nat \<Rightarrow> nat \<Rightarrow> mem \<Rightarrow> nat \<Rightarrow> mem" where
  "store 0 v m a = m"
| "store (Suc n) v m a = store n (v div 256) (m(a := of_nat v)) (Suc a)"

definition memzero :: "nat \<Rightarrow> mem \<Rightarrow> nat \<Rightarrow> mem" where
  "memzero n m a = (\<lambda>b. if a \<le> b \<and> b < a + n then 0 else m b)"

lemma store_outside: "b < a \<or> a + n \<le> b \<Longrightarrow> store n v m a b = m b"
  by (induction n v m a rule: store.induct) auto

lemma load_cong: "(\<And>b. a \<le> b \<Longrightarrow> b < a + n \<Longrightarrow> m b = m' b) \<Longrightarrow> load n m a = load n m' a"
  by (induction n m a rule: load.induct) auto

lemma load_store_same: "load n (store n v m a) a = v mod 256 ^ n"
proof (induction n arbitrary: v m a)
  case (Suc n)
  have "unat (store n (v div 256) (m(a := of_nat v)) (Suc a) a) = v mod 256"
    by (simp add: store_outside unat_of_nat)
  with Suc show ?case by (simp add: mod_mult2_eq)
qed simp

lemma load_store_other: "b + k \<le> a \<or> a + n \<le> b \<Longrightarrow> load k (store n v m a) b = load k m b"
  by (rule load_cong) (auto intro!: store_outside)

lemma load_memzero: "a \<le> b \<Longrightarrow> b + k \<le> a + n \<Longrightarrow> load k (memzero n m a) b = 0"
  by (induction k "memzero n m a" b rule: load.induct) (auto simp: memzero_def)

lemma load_less: "load n m a < 256 ^ n"
proof (induction n m a rule: load.induct)
  case (2 n m a)
  have "unat (m a) < 256" using unsigned_less [of "m a"] by simp
  with 2 show ?case by simp
qed simp

text \<open>Access to a member of the object of type \<open>t\<close> at \<open>a\<close>; bit-fields are not accessed.\<close>

definition get :: "ctype \<Rightarrow> string list \<Rightarrow> mem \<Rightarrow> nat \<Rightarrow> nat" where
  "get t xs m a =
     (case designator xs t of Some (pos, u) \<Rightarrow> load (size_of u) m (a + pos div 8) | None \<Rightarrow> 0)"

definition put :: "ctype \<Rightarrow> string list \<Rightarrow> nat \<Rightarrow> mem \<Rightarrow> nat \<Rightarrow> mem" where
  "put t xs v m a =
     (case designator xs t of Some (pos, u) \<Rightarrow> store (size_of u) v m (a + pos div 8) | None \<Rightarrow> m)"

definition has_member :: "ctype \<Rightarrow> string list \<Rightarrow> nat \<Rightarrow> bool" where
  "has_member t xs n \<longleftrightarrow> (case designator xs t of Some (pos, u) \<Rightarrow> \<not> is_bits u \<and> size_of u = n | None \<Rightarrow> False)"

lemma get_put_same:
  "has_member t xs n \<Longrightarrow> get t xs (put t xs v m a) a = v mod 256 ^ n"
  by (auto simp: has_member_def get_def put_def load_store_same split: option.splits prod.splits)

lemma member_bytes:
  assumes "wf_type t" "designator xs t = Some (pos, u)" "\<not> is_bits u"
  shows "8 dvd pos" "pos div 8 + size_of u \<le> size_of t"
proof -
  from designator_inside [OF assms(1,2)] assms(3) have "8 * align_of u dvd pos" "pos + width u \<le> width t"
    by (auto simp: inside_def)
  then show d: "8 dvd pos" by (meson dvd_mult_left)
  have "\<not> is_bits t" using assms(2,3) by (cases xs; cases t) auto
  with \<open>pos + width u \<le> width t\<close> d assms(3) show "pos div 8 + size_of u \<le> size_of t"
    by (auto simp: width_size elim!: dvdE)
qed

text \<open>Writing a member changes no byte outside of the object.\<close>

definition is_member :: "ctype \<Rightarrow> string list \<Rightarrow> bool" where
  "is_member t xs \<longleftrightarrow> (case designator xs t of Some (pos, u) \<Rightarrow> \<not> is_bits u | None \<Rightarrow> False)"

lemma has_is_member: "has_member t xs n \<Longrightarrow> is_member t xs"
  by (auto simp: has_member_def is_member_def split: option.splits)

lemma is_memberE:
  assumes "is_member t xs"
  obtains pos u where "designator xs t = Some (pos, u)" "\<not> is_bits u"
  using assms by (auto simp: is_member_def split: option.splits)

lemma put_outside:
  assumes "wf_type t" "is_member t xs" "b < a \<or> a + size_of t \<le> b"
  shows "put t xs v m a b = m b"
proof -
  from assms(2) obtain pos u where d: "designator xs t = Some (pos, u)" "\<not> is_bits u" by (rule is_memberE)
  from member_bytes [OF assms(1) d] assms(3) d show ?thesis by (auto simp: put_def intro!: store_outside)
qed

definition objects_apart :: "nat \<Rightarrow> ctype \<Rightarrow> nat \<Rightarrow> ctype \<Rightarrow> bool" where
  "objects_apart a t b u \<longleftrightarrow> a + size_of t \<le> b \<or> b + size_of u \<le> a"

lemma get_put_object:
  assumes "objects_apart a t b u \<or> objects_apart b u a t" "wf_type t" "is_member t xs" "wf_type u" "is_member u ys"
  shows "get u ys (put t xs v m a) b = get u ys m b"
proof -
  from assms(5) obtain pos w where d: "designator ys u = Some (pos, w)" "\<not> is_bits w" by (rule is_memberE)
  from member_bytes [OF assms(4) d] assms(1) d show ?thesis
    by (auto simp: get_def objects_apart_def intro!: load_cong put_outside [OF assms(2,3)])
qed

text \<open>Two members of one object that do not overlap.\<close>

definition apart :: "ctype \<Rightarrow> string list \<Rightarrow> string list \<Rightarrow> bool" where
  "apart t xs ys \<longleftrightarrow> (case (designator xs t, designator ys t) of
     (Some (pos, u), Some (pos', u')) \<Rightarrow> pos div 8 + size_of u \<le> pos' div 8 \<or> pos' div 8 + size_of u' \<le> pos div 8
   | _ \<Rightarrow> False)"

lemma get_put_apart: "apart t xs ys \<Longrightarrow> get t ys (put t xs v m a) a = get t ys m a"
  by (auto simp: apart_def get_def put_def split: option.splits intro!: load_store_other)

declare designator.simps [simp del] load.simps [simp del] store.simps [simp del]

end
