(* ===== verification/Kernel_Fs.thy ===== *)
theory Kernel_Fs
  imports Kernel_Layout
begin

text \<open>
  The file system types of \<open>vmlinux.h\<close>: what the \<open>file_open\<close> hook gets as its argument, the types it
  follows pointers to, and those of the path that \<open>bpf_path_d_path\<close> prints, with every type they
  contain.  Each declaration is followed by its layout.
\<close>

definition struct_path :: ctype where
  "struct_path = Struct [
    (''mnt'', Ptr ''struct vfsmount''),
    (''dentry'', Ptr ''struct dentry'')]"

lemma struct_path_layout [kernel_layout]:
  "is_bits struct_path = False" "size_of struct_path = 16" "align_of struct_path = 8" "wf_type struct_path"
  by (simp_all add: struct_path_def kernel_layout layout_rules)

definition t_atomic_t :: ctype where
  "t_atomic_t = Struct [
    (''counter'', Sint 4)]"

lemma t_atomic_t_layout [kernel_layout]:
  "is_bits t_atomic_t = False" "size_of t_atomic_t = 4" "align_of t_atomic_t = 4" "wf_type t_atomic_t"
  by (simp_all add: t_atomic_t_def kernel_layout layout_rules)

definition t___u8 :: ctype where
  "t___u8 = Uint 1"

lemma t___u8_layout [kernel_layout]:
  "is_bits t___u8 = False" "size_of t___u8 = 1" "align_of t___u8 = 1" "wf_type t___u8"
  by (simp_all add: t___u8_def kernel_layout layout_rules)

definition t_u8 :: ctype where
  "t_u8 = t___u8"

lemma t_u8_layout [kernel_layout]:
  "is_bits t_u8 = False" "size_of t_u8 = 1" "align_of t_u8 = 1" "wf_type t_u8"
  by (simp_all add: t_u8_def kernel_layout layout_rules)

definition t___u16 :: ctype where
  "t___u16 = Uint 2"

lemma t___u16_layout [kernel_layout]:
  "is_bits t___u16 = False" "size_of t___u16 = 2" "align_of t___u16 = 2" "wf_type t___u16"
  by (simp_all add: t___u16_def kernel_layout layout_rules)

definition t_u16 :: ctype where
  "t_u16 = t___u16"

lemma t_u16_layout [kernel_layout]:
  "is_bits t_u16 = False" "size_of t_u16 = 2" "align_of t_u16 = 2" "wf_type t_u16"
  by (simp_all add: t_u16_def kernel_layout layout_rules)

definition struct_qspinlock :: ctype where
  "struct_qspinlock = Struct [
    ('''', Union [
      (''val'', t_atomic_t),
      ('''', Struct [
        (''locked'', t_u8),
        (''pending'', t_u8)]),
      ('''', Struct [
        (''locked_pending'', t_u16),
        (''tail'', t_u16)])])]"

lemma struct_qspinlock_layout [kernel_layout]:
  "is_bits struct_qspinlock = False" "size_of struct_qspinlock = 4" "align_of struct_qspinlock = 4" "wf_type struct_qspinlock"
  by (simp_all add: struct_qspinlock_def kernel_layout layout_rules)

definition t_arch_spinlock_t :: ctype where
  "t_arch_spinlock_t = struct_qspinlock"

lemma t_arch_spinlock_t_layout [kernel_layout]:
  "is_bits t_arch_spinlock_t = False" "size_of t_arch_spinlock_t = 4" "align_of t_arch_spinlock_t = 4" "wf_type t_arch_spinlock_t"
  by (simp_all add: t_arch_spinlock_t_def kernel_layout layout_rules)

definition struct_raw_spinlock :: ctype where
  "struct_raw_spinlock = Struct [
    (''raw_lock'', t_arch_spinlock_t)]"

lemma struct_raw_spinlock_layout [kernel_layout]:
  "is_bits struct_raw_spinlock = False" "size_of struct_raw_spinlock = 4" "align_of struct_raw_spinlock = 4" "wf_type struct_raw_spinlock"
  by (simp_all add: struct_raw_spinlock_def kernel_layout layout_rules)

definition struct_spinlock :: ctype where
  "struct_spinlock = Struct [
    ('''', Union [
      (''rlock'', struct_raw_spinlock)])]"

lemma struct_spinlock_layout [kernel_layout]:
  "is_bits struct_spinlock = False" "size_of struct_spinlock = 4" "align_of struct_spinlock = 4" "wf_type struct_spinlock"
  by (simp_all add: struct_spinlock_def kernel_layout layout_rules)

definition t_spinlock_t :: ctype where
  "t_spinlock_t = struct_spinlock"

lemma t_spinlock_t_layout [kernel_layout]:
  "is_bits t_spinlock_t = False" "size_of t_spinlock_t = 4" "align_of t_spinlock_t = 4" "wf_type t_spinlock_t"
  by (simp_all add: t_spinlock_t_def kernel_layout layout_rules)

definition t_fmode_t :: ctype where
  "t_fmode_t = Uint 4"

lemma t_fmode_t_layout [kernel_layout]:
  "is_bits t_fmode_t = False" "size_of t_fmode_t = 4" "align_of t_fmode_t = 4" "wf_type t_fmode_t"
  by (simp_all add: t_fmode_t_def kernel_layout layout_rules)

definition t___s64 :: ctype where
  "t___s64 = Sint 8"

lemma t___s64_layout [kernel_layout]:
  "is_bits t___s64 = False" "size_of t___s64 = 8" "align_of t___s64 = 8" "wf_type t___s64"
  by (simp_all add: t___s64_def kernel_layout layout_rules)

definition t_s64 :: ctype where
  "t_s64 = t___s64"

lemma t_s64_layout [kernel_layout]:
  "is_bits t_s64 = False" "size_of t_s64 = 8" "align_of t_s64 = 8" "wf_type t_s64"
  by (simp_all add: t_s64_def kernel_layout layout_rules)

definition t_atomic64_t :: ctype where
  "t_atomic64_t = Struct [
    (''counter'', t_s64)]"

lemma t_atomic64_t_layout [kernel_layout]:
  "is_bits t_atomic64_t = False" "size_of t_atomic64_t = 8" "align_of t_atomic64_t = 8" "wf_type t_atomic64_t"
  by (simp_all add: t_atomic64_t_def kernel_layout layout_rules)

definition t_atomic_long_t :: ctype where
  "t_atomic_long_t = t_atomic64_t"

lemma t_atomic_long_t_layout [kernel_layout]:
  "is_bits t_atomic_long_t = False" "size_of t_atomic_long_t = 8" "align_of t_atomic_long_t = 8" "wf_type t_atomic_long_t"
  by (simp_all add: t_atomic_long_t_def kernel_layout layout_rules)

definition t_raw_spinlock_t :: ctype where
  "t_raw_spinlock_t = struct_raw_spinlock"

lemma t_raw_spinlock_t_layout [kernel_layout]:
  "is_bits t_raw_spinlock_t = False" "size_of t_raw_spinlock_t = 4" "align_of t_raw_spinlock_t = 4" "wf_type t_raw_spinlock_t"
  by (simp_all add: t_raw_spinlock_t_def kernel_layout layout_rules)

definition struct_optimistic_spin_queue :: ctype where
  "struct_optimistic_spin_queue = Struct [
    (''tail'', t_atomic_t)]"

lemma struct_optimistic_spin_queue_layout [kernel_layout]:
  "is_bits struct_optimistic_spin_queue = False" "size_of struct_optimistic_spin_queue = 4" "align_of struct_optimistic_spin_queue = 4" "wf_type struct_optimistic_spin_queue"
  by (simp_all add: struct_optimistic_spin_queue_def kernel_layout layout_rules)

definition struct_mutex :: ctype where
  "struct_mutex = Struct [
    (''owner'', t_atomic_long_t),
    (''wait_lock'', t_raw_spinlock_t),
    (''osq'', struct_optimistic_spin_queue),
    (''first_waiter'', Ptr ''struct mutex_waiter'')]"

lemma struct_mutex_layout [kernel_layout]:
  "is_bits struct_mutex = False" "size_of struct_mutex = 24" "align_of struct_mutex = 8" "wf_type struct_mutex"
  by (simp_all add: struct_mutex_def kernel_layout layout_rules)

definition t___u64 :: ctype where
  "t___u64 = Uint 8"

lemma t___u64_layout [kernel_layout]:
  "is_bits t___u64 = False" "size_of t___u64 = 8" "align_of t___u64 = 8" "wf_type t___u64"
  by (simp_all add: t___u64_def kernel_layout layout_rules)

definition t_u64 :: ctype where
  "t_u64 = t___u64"

lemma t_u64_layout [kernel_layout]:
  "is_bits t_u64 = False" "size_of t_u64 = 8" "align_of t_u64 = 8" "wf_type t_u64"
  by (simp_all add: t_u64_def kernel_layout layout_rules)

definition t___kernel_loff_t :: ctype where
  "t___kernel_loff_t = Sint 8"

lemma t___kernel_loff_t_layout [kernel_layout]:
  "is_bits t___kernel_loff_t = False" "size_of t___kernel_loff_t = 8" "align_of t___kernel_loff_t = 8" "wf_type t___kernel_loff_t"
  by (simp_all add: t___kernel_loff_t_def kernel_layout layout_rules)

definition t_loff_t :: ctype where
  "t_loff_t = t___kernel_loff_t"

lemma t_loff_t_layout [kernel_layout]:
  "is_bits t_loff_t = False" "size_of t_loff_t = 8" "align_of t_loff_t = 8" "wf_type t_loff_t"
  by (simp_all add: t_loff_t_def kernel_layout layout_rules)

definition t___u32 :: ctype where
  "t___u32 = Uint 4"

lemma t___u32_layout [kernel_layout]:
  "is_bits t___u32 = False" "size_of t___u32 = 4" "align_of t___u32 = 4" "wf_type t___u32"
  by (simp_all add: t___u32_def kernel_layout layout_rules)

definition t_u32 :: ctype where
  "t_u32 = t___u32"

lemma t_u32_layout [kernel_layout]:
  "is_bits t_u32 = False" "size_of t_u32 = 4" "align_of t_u32 = 4" "wf_type t_u32"
  by (simp_all add: t_u32_def kernel_layout layout_rules)

definition t_errseq_t :: ctype where
  "t_errseq_t = t_u32"

lemma t_errseq_t_layout [kernel_layout]:
  "is_bits t_errseq_t = False" "size_of t_errseq_t = 4" "align_of t_errseq_t = 4" "wf_type t_errseq_t"
  by (simp_all add: t_errseq_t_def kernel_layout layout_rules)

definition struct_callback_head :: ctype where
  "struct_callback_head = Struct [
    (''next'', Ptr ''struct callback_head''),
    (''func'', Ptr ''function'')]"

lemma struct_callback_head_layout [kernel_layout]:
  "is_bits struct_callback_head = False" "size_of struct_callback_head = 16" "align_of struct_callback_head = 8" "wf_type struct_callback_head"
  by (simp_all add: struct_callback_head_def kernel_layout layout_rules)

definition struct_llist_node :: ctype where
  "struct_llist_node = Struct [
    (''next'', Ptr ''struct llist_node'')]"

lemma struct_llist_node_layout [kernel_layout]:
  "is_bits struct_llist_node = False" "size_of struct_llist_node = 8" "align_of struct_llist_node = 8" "wf_type struct_llist_node"
  by (simp_all add: struct_llist_node_def kernel_layout layout_rules)

definition struct_file_ra_state :: ctype where
  "struct_file_ra_state = Struct [
    (''start'', Uint 8),
    (''size'', Uint 4),
    (''async_size'', Uint 4),
    (''ra_pages'', Uint 4),
    (''order'', Uint 2),
    (''mmap_miss'', Uint 2),
    (''prev_pos'', t_loff_t)]"

lemma struct_file_ra_state_layout [kernel_layout]:
  "is_bits struct_file_ra_state = False" "size_of struct_file_ra_state = 32" "align_of struct_file_ra_state = 8" "wf_type struct_file_ra_state"
  by (simp_all add: struct_file_ra_state_def kernel_layout layout_rules)

definition t_freeptr_t :: ctype where
  "t_freeptr_t = Struct [
    (''v'', Uint 8)]"

lemma t_freeptr_t_layout [kernel_layout]:
  "is_bits t_freeptr_t = False" "size_of t_freeptr_t = 8" "align_of t_freeptr_t = 8" "wf_type t_freeptr_t"
  by (simp_all add: t_freeptr_t_def kernel_layout layout_rules)

definition t_file_ref_t :: ctype where
  "t_file_ref_t = Struct [
    (''refcnt'', t_atomic64_t)]"

lemma t_file_ref_t_layout [kernel_layout]:
  "is_bits t_file_ref_t = False" "size_of t_file_ref_t = 8" "align_of t_file_ref_t = 8" "wf_type t_file_ref_t"
  by (simp_all add: t_file_ref_t_def kernel_layout layout_rules)

definition struct_file :: ctype where
  "struct_file = Struct [
    (''f_lock'', t_spinlock_t),
    (''f_mode'', t_fmode_t),
    (''f_op'', Ptr ''struct file_operations''),
    (''f_mapping'', Ptr ''struct address_space''),
    (''private_data'', Ptr ''void''),
    (''f_inode'', Ptr ''struct inode''),
    (''f_flags'', Uint 4),
    (''f_iocb_flags'', Uint 4),
    (''f_cred'', Ptr ''struct cred''),
    (''f_owner'', Ptr ''struct fown_struct''),
    ('''', Union [
      (''f_path'', struct_path),
      (''__f_path'', struct_path)]),
    ('''', Union [
      (''f_pos_lock'', struct_mutex),
      (''f_pipe'', t_u64)]),
    (''f_pos'', t_loff_t),
    (''f_security'', Ptr ''void''),
    (''f_wb_err'', t_errseq_t),
    (''f_sb_err'', t_errseq_t),
    (''f_ep'', Ptr ''struct hlist_head''),
    ('''', Union [
      (''f_task_work'', struct_callback_head),
      (''f_llist'', struct_llist_node),
      (''f_ra'', struct_file_ra_state),
      (''f_freeptr'', t_freeptr_t)]),
    (''f_ref'', t_file_ref_t)]"

lemma struct_file_layout [kernel_layout]:
  "is_bits struct_file = False" "size_of struct_file = 176" "align_of struct_file = 8" "wf_type struct_file"
  by (simp_all add: struct_file_def kernel_layout layout_rules)

definition t_umode_t :: ctype where
  "t_umode_t = Uint 2"

lemma t_umode_t_layout [kernel_layout]:
  "is_bits t_umode_t = False" "size_of t_umode_t = 2" "align_of t_umode_t = 2" "wf_type t_umode_t"
  by (simp_all add: t_umode_t_def kernel_layout layout_rules)

definition t___kernel_uid32_t :: ctype where
  "t___kernel_uid32_t = Uint 4"

lemma t___kernel_uid32_t_layout [kernel_layout]:
  "is_bits t___kernel_uid32_t = False" "size_of t___kernel_uid32_t = 4" "align_of t___kernel_uid32_t = 4" "wf_type t___kernel_uid32_t"
  by (simp_all add: t___kernel_uid32_t_def kernel_layout layout_rules)

definition t_uid_t :: ctype where
  "t_uid_t = t___kernel_uid32_t"

lemma t_uid_t_layout [kernel_layout]:
  "is_bits t_uid_t = False" "size_of t_uid_t = 4" "align_of t_uid_t = 4" "wf_type t_uid_t"
  by (simp_all add: t_uid_t_def kernel_layout layout_rules)

definition t_kuid_t :: ctype where
  "t_kuid_t = Struct [
    (''val'', t_uid_t)]"

lemma t_kuid_t_layout [kernel_layout]:
  "is_bits t_kuid_t = False" "size_of t_kuid_t = 4" "align_of t_kuid_t = 4" "wf_type t_kuid_t"
  by (simp_all add: t_kuid_t_def kernel_layout layout_rules)

definition t___kernel_gid32_t :: ctype where
  "t___kernel_gid32_t = Uint 4"

lemma t___kernel_gid32_t_layout [kernel_layout]:
  "is_bits t___kernel_gid32_t = False" "size_of t___kernel_gid32_t = 4" "align_of t___kernel_gid32_t = 4" "wf_type t___kernel_gid32_t"
  by (simp_all add: t___kernel_gid32_t_def kernel_layout layout_rules)

definition t_gid_t :: ctype where
  "t_gid_t = t___kernel_gid32_t"

lemma t_gid_t_layout [kernel_layout]:
  "is_bits t_gid_t = False" "size_of t_gid_t = 4" "align_of t_gid_t = 4" "wf_type t_gid_t"
  by (simp_all add: t_gid_t_def kernel_layout layout_rules)

definition t_kgid_t :: ctype where
  "t_kgid_t = Struct [
    (''val'', t_gid_t)]"

lemma t_kgid_t_layout [kernel_layout]:
  "is_bits t_kgid_t = False" "size_of t_kgid_t = 4" "align_of t_kgid_t = 4" "wf_type t_kgid_t"
  by (simp_all add: t_kgid_t_def kernel_layout layout_rules)

definition t___kernel_dev_t :: ctype where
  "t___kernel_dev_t = t_u32"

lemma t___kernel_dev_t_layout [kernel_layout]:
  "is_bits t___kernel_dev_t = False" "size_of t___kernel_dev_t = 4" "align_of t___kernel_dev_t = 4" "wf_type t___kernel_dev_t"
  by (simp_all add: t___kernel_dev_t_def kernel_layout layout_rules)

definition t_dev_t :: ctype where
  "t_dev_t = t___kernel_dev_t"

lemma t_dev_t_layout [kernel_layout]:
  "is_bits t_dev_t = False" "size_of t_dev_t = 4" "align_of t_dev_t = 4" "wf_type t_dev_t"
  by (simp_all add: t_dev_t_def kernel_layout layout_rules)

definition t_time64_t :: ctype where
  "t_time64_t = t___s64"

lemma t_time64_t_layout [kernel_layout]:
  "is_bits t_time64_t = False" "size_of t_time64_t = 8" "align_of t_time64_t = 8" "wf_type t_time64_t"
  by (simp_all add: t_time64_t_def kernel_layout layout_rules)

definition enum_rw_hint :: ctype where
  "enum_rw_hint = Enum 1 [(''WRITE_LIFE_NOT_SET'', 0),
    (''WRITE_LIFE_NONE'', 1),
    (''WRITE_LIFE_SHORT'', 2),
    (''WRITE_LIFE_MEDIUM'', 3),
    (''WRITE_LIFE_LONG'', 4),
    (''WRITE_LIFE_EXTREME'', 5),
    (''WRITE_LIFE_HINT_NR'', 6)]"

lemma enum_rw_hint_layout [kernel_layout]:
  "is_bits enum_rw_hint = False" "size_of enum_rw_hint = 1" "align_of enum_rw_hint = 1" "wf_type enum_rw_hint"
  by (simp_all add: enum_rw_hint_def kernel_layout layout_rules)

definition t_blkcnt_t :: ctype where
  "t_blkcnt_t = t_u64"

lemma t_blkcnt_t_layout [kernel_layout]:
  "is_bits t_blkcnt_t = False" "size_of t_blkcnt_t = 8" "align_of t_blkcnt_t = 8" "wf_type t_blkcnt_t"
  by (simp_all add: t_blkcnt_t_def kernel_layout layout_rules)

definition enum_inode_state_flags_enum :: ctype where
  "enum_inode_state_flags_enum = Enum 4 [(''I_NEW'', 1),
    (''I_SYNC'', 2),
    (''I_LRU_ISOLATING'', 4),
    (''I_DIRTY_SYNC'', 16),
    (''I_DIRTY_DATASYNC'', 32),
    (''I_DIRTY_PAGES'', 64),
    (''I_WILL_FREE'', 128),
    (''I_FREEING'', 256),
    (''I_CLEAR'', 512),
    (''I_REFERENCED'', 1024),
    (''I_LINKABLE'', 2048),
    (''I_DIRTY_TIME'', 4096),
    (''I_WB_SWITCH'', 8192),
    (''I_OVL_INUSE'', 16384),
    (''I_CREATING'', 32768),
    (''I_DONTCACHE'', 65536),
    (''I_SYNC_QUEUED'', 131072),
    (''I_PINNING_NETFS_WB'', 262144)]"

lemma enum_inode_state_flags_enum_layout [kernel_layout]:
  "is_bits enum_inode_state_flags_enum = False" "size_of enum_inode_state_flags_enum = 4" "align_of enum_inode_state_flags_enum = 4" "wf_type enum_inode_state_flags_enum"
  by (simp_all add: enum_inode_state_flags_enum_def kernel_layout layout_rules)

definition struct_inode_state_flags :: ctype where
  "struct_inode_state_flags = Struct [
    (''__state'', enum_inode_state_flags_enum)]"

lemma struct_inode_state_flags_layout [kernel_layout]:
  "is_bits struct_inode_state_flags = False" "size_of struct_inode_state_flags = 4" "align_of struct_inode_state_flags = 4" "wf_type struct_inode_state_flags"
  by (simp_all add: struct_inode_state_flags_def kernel_layout layout_rules)

definition struct_rw_semaphore :: ctype where
  "struct_rw_semaphore = Struct [
    (''count'', t_atomic_long_t),
    (''owner'', t_atomic_long_t),
    (''osq'', struct_optimistic_spin_queue),
    (''wait_lock'', t_raw_spinlock_t),
    (''first_waiter'', Ptr ''struct rwsem_waiter'')]"

lemma struct_rw_semaphore_layout [kernel_layout]:
  "is_bits struct_rw_semaphore = False" "size_of struct_rw_semaphore = 32" "align_of struct_rw_semaphore = 8" "wf_type struct_rw_semaphore"
  by (simp_all add: struct_rw_semaphore_def kernel_layout layout_rules)

definition struct_hlist_node :: ctype where
  "struct_hlist_node = Struct [
    (''next'', Ptr ''struct hlist_node''),
    (''pprev'', Ptr ''struct hlist_node *'')]"

lemma struct_hlist_node_layout [kernel_layout]:
  "is_bits struct_hlist_node = False" "size_of struct_hlist_node = 16" "align_of struct_hlist_node = 8" "wf_type struct_hlist_node"
  by (simp_all add: struct_hlist_node_def kernel_layout layout_rules)

definition struct_list_head :: ctype where
  "struct_list_head = Struct [
    (''next'', Ptr ''struct list_head''),
    (''prev'', Ptr ''struct list_head'')]"

lemma struct_list_head_layout [kernel_layout]:
  "is_bits struct_list_head = False" "size_of struct_list_head = 16" "align_of struct_list_head = 8" "wf_type struct_list_head"
  by (simp_all add: struct_list_head_def kernel_layout layout_rules)

definition struct_hlist_head :: ctype where
  "struct_hlist_head = Struct [
    (''first'', Ptr ''struct hlist_node'')]"

lemma struct_hlist_head_layout [kernel_layout]:
  "is_bits struct_hlist_head = False" "size_of struct_hlist_head = 8" "align_of struct_hlist_head = 8" "wf_type struct_hlist_head"
  by (simp_all add: struct_hlist_head_def kernel_layout layout_rules)

definition t_gfp_t :: ctype where
  "t_gfp_t = Uint 4"

lemma t_gfp_t_layout [kernel_layout]:
  "is_bits t_gfp_t = False" "size_of t_gfp_t = 4" "align_of t_gfp_t = 4" "wf_type t_gfp_t"
  by (simp_all add: t_gfp_t_def kernel_layout layout_rules)

definition struct_xarray :: ctype where
  "struct_xarray = Struct [
    (''xa_lock'', t_spinlock_t),
    (''xa_flags'', t_gfp_t),
    (''xa_head'', Ptr ''void'')]"

lemma struct_xarray_layout [kernel_layout]:
  "is_bits struct_xarray = False" "size_of struct_xarray = 16" "align_of struct_xarray = 8" "wf_type struct_xarray"
  by (simp_all add: struct_xarray_def kernel_layout layout_rules)

definition struct_rb_root :: ctype where
  "struct_rb_root = Struct [
    (''rb_node'', Ptr ''struct rb_node'')]"

lemma struct_rb_root_layout [kernel_layout]:
  "is_bits struct_rb_root = False" "size_of struct_rb_root = 8" "align_of struct_rb_root = 8" "wf_type struct_rb_root"
  by (simp_all add: struct_rb_root_def kernel_layout layout_rules)

definition struct_rb_root_cached :: ctype where
  "struct_rb_root_cached = Struct [
    (''rb_root'', struct_rb_root),
    (''rb_leftmost'', Ptr ''struct rb_node'')]"

lemma struct_rb_root_cached_layout [kernel_layout]:
  "is_bits struct_rb_root_cached = False" "size_of struct_rb_root_cached = 16" "align_of struct_rb_root_cached = 8" "wf_type struct_rb_root_cached"
  by (simp_all add: struct_rb_root_cached_def kernel_layout layout_rules)

definition struct_address_space :: ctype where
  "struct_address_space = Struct [
    (''host'', Ptr ''struct inode''),
    (''i_pages'', struct_xarray),
    (''invalidate_lock'', struct_rw_semaphore),
    (''gfp_mask'', t_gfp_t),
    (''i_mmap_writable'', t_atomic_t),
    (''i_mmap'', struct_rb_root_cached),
    (''nrpages'', Uint 8),
    (''writeback_index'', Uint 8),
    (''a_ops'', Ptr ''struct address_space_operations''),
    (''flags'', Uint 8),
    (''wb_err'', t_errseq_t),
    (''i_private_lock'', t_spinlock_t),
    (''i_mmap_rwsem'', struct_rw_semaphore)]"

lemma struct_address_space_layout [kernel_layout]:
  "is_bits struct_address_space = False" "size_of struct_address_space = 152" "align_of struct_address_space = 8" "wf_type struct_address_space"
  by (simp_all add: struct_address_space_def kernel_layout layout_rules)

definition struct_inode :: ctype where
  "struct_inode = Struct [
    (''i_mode'', t_umode_t),
    (''i_opflags'', Uint 2),
    (''i_flags'', Uint 4),
    (''i_acl'', Ptr ''struct posix_acl''),
    (''i_default_acl'', Ptr ''struct posix_acl''),
    (''i_uid'', t_kuid_t),
    (''i_gid'', t_kgid_t),
    (''i_op'', Ptr ''struct inode_operations''),
    (''i_sb'', Ptr ''struct super_block''),
    (''i_mapping'', Ptr ''struct address_space''),
    (''i_security'', Ptr ''void''),
    (''i_ino'', t_u64),
    ('''', Union [
      (''i_nlink'', Uint 4),
      (''__i_nlink'', Uint 4)]),
    (''i_rdev'', t_dev_t),
    (''i_size'', t_loff_t),
    (''i_atime_sec'', t_time64_t),
    (''i_mtime_sec'', t_time64_t),
    (''i_ctime_sec'', t_time64_t),
    (''i_atime_nsec'', t_u32),
    (''i_mtime_nsec'', t_u32),
    (''i_ctime_nsec'', t_u32),
    (''i_generation'', t_u32),
    (''i_lock'', t_spinlock_t),
    (''i_bytes'', Uint 2),
    (''i_blkbits'', t_u8),
    (''i_write_hint'', enum_rw_hint),
    (''i_blocks'', t_blkcnt_t),
    (''i_state'', struct_inode_state_flags),
    (''i_rwsem'', struct_rw_semaphore),
    (''dirtied_when'', Uint 8),
    (''dirtied_time_when'', Uint 8),
    (''i_hash'', struct_hlist_node),
    (''i_io_list'', struct_list_head),
    (''i_wb'', Ptr ''struct bdi_writeback''),
    (''i_wb_frn_winner'', Sint 4),
    (''i_wb_frn_avg_time'', t_u16),
    (''i_wb_frn_history'', t_u16),
    (''i_lru'', struct_list_head),
    (''i_sb_list'', struct_list_head),
    (''i_wb_list'', struct_list_head),
    ('''', Union [
      (''i_dentry'', struct_hlist_head),
      (''i_rcu'', struct_callback_head)]),
    (''i_version'', t_atomic64_t),
    (''i_sequence'', t_atomic64_t),
    (''i_count'', t_atomic_t),
    (''i_dio_count'', t_atomic_t),
    (''i_writecount'', t_atomic_t),
    (''i_readcount'', t_atomic_t),
    ('''', Union [
      (''i_fop'', Ptr ''struct file_operations''),
      (''free_inode'', Ptr ''function'')]),
    (''i_flctx'', Ptr ''struct file_lock_context''),
    (''i_data'', struct_address_space),
    ('''', Union [
      (''i_devices'', struct_list_head),
      (''i_linklen'', Sint 4)]),
    ('''', Union [
      (''i_pipe'', Ptr ''struct pipe_inode_info''),
      (''i_cdev'', Ptr ''struct cdev''),
      (''i_link'', Ptr ''char''),
      (''i_dir_seq'', Uint 4)]),
    (''i_fsnotify_mask'', t___u32),
    (''i_fsnotify_marks'', Ptr ''struct fsnotify_mark_connector''),
    (''i_private'', Ptr ''void'')]"

lemma struct_inode_layout [kernel_layout]:
  "is_bits struct_inode = False" "size_of struct_inode = 560" "align_of struct_inode = 8" "wf_type struct_inode"
  by (simp_all add: struct_inode_def kernel_layout layout_rules)

definition struct_lock_class_key :: ctype where
  "struct_lock_class_key = Struct []"

lemma struct_lock_class_key_layout [kernel_layout]:
  "is_bits struct_lock_class_key = False" "size_of struct_lock_class_key = 0" "align_of struct_lock_class_key = 1" "wf_type struct_lock_class_key"
  by (simp_all add: struct_lock_class_key_def kernel_layout layout_rules)

definition struct_file_system_type :: ctype where
  "struct_file_system_type = Struct [
    (''name'', Ptr ''char''),
    (''fs_flags'', Sint 4),
    (''init_fs_context'', Ptr ''function''),
    (''parameters'', Ptr ''struct fs_parameter_spec''),
    (''kill_sb'', Ptr ''function''),
    (''owner'', Ptr ''struct module''),
    (''next'', Ptr ''struct file_system_type''),
    (''fs_supers'', struct_hlist_head),
    (''s_lock_key'', struct_lock_class_key),
    (''s_umount_key'', struct_lock_class_key),
    (''s_vfs_rename_key'', struct_lock_class_key),
    (''s_writers_key'', Arr 3 struct_lock_class_key),
    (''i_lock_key'', struct_lock_class_key),
    (''i_mutex_key'', struct_lock_class_key),
    (''invalidate_lock_key'', struct_lock_class_key),
    (''i_mutex_dir_key'', struct_lock_class_key)]"

lemma struct_file_system_type_layout [kernel_layout]:
  "is_bits struct_file_system_type = False" "size_of struct_file_system_type = 64" "align_of struct_file_system_type = 8" "wf_type struct_file_system_type"
  by (simp_all add: struct_file_system_type_def kernel_layout layout_rules)

definition struct_hlist_bl_head :: ctype where
  "struct_hlist_bl_head = Struct [
    (''first'', Ptr ''struct hlist_bl_node'')]"

lemma struct_hlist_bl_head_layout [kernel_layout]:
  "is_bits struct_hlist_bl_head = False" "size_of struct_hlist_bl_head = 8" "align_of struct_hlist_bl_head = 8" "wf_type struct_hlist_bl_head"
  by (simp_all add: struct_hlist_bl_head_def kernel_layout layout_rules)

definition t_qsize_t :: ctype where
  "t_qsize_t = Sint 8"

lemma t_qsize_t_layout [kernel_layout]:
  "is_bits t_qsize_t = False" "size_of t_qsize_t = 8" "align_of t_qsize_t = 8" "wf_type t_qsize_t"
  by (simp_all add: t_qsize_t_def kernel_layout layout_rules)

definition struct_mem_dqinfo :: ctype where
  "struct_mem_dqinfo = Struct [
    (''dqi_format'', Ptr ''struct quota_format_type''),
    (''dqi_fmt_id'', Sint 4),
    (''dqi_dirty_list'', struct_list_head),
    (''dqi_flags'', Uint 8),
    (''dqi_bgrace'', Uint 4),
    (''dqi_igrace'', Uint 4),
    (''dqi_max_spc_limit'', t_qsize_t),
    (''dqi_max_ino_limit'', t_qsize_t),
    (''dqi_priv'', Ptr ''void'')]"

lemma struct_mem_dqinfo_layout [kernel_layout]:
  "is_bits struct_mem_dqinfo = False" "size_of struct_mem_dqinfo = 72" "align_of struct_mem_dqinfo = 8" "wf_type struct_mem_dqinfo"
  by (simp_all add: struct_mem_dqinfo_def kernel_layout layout_rules)

definition struct_quota_info :: ctype where
  "struct_quota_info = Struct [
    (''flags'', Uint 4),
    (''dqio_sem'', struct_rw_semaphore),
    (''files'', Arr 3 (Ptr ''struct inode'')),
    (''info'', Arr 3 struct_mem_dqinfo),
    (''ops'', Arr 3 (Ptr ''struct quota_format_ops''))]"

lemma struct_quota_info_layout [kernel_layout]:
  "is_bits struct_quota_info = False" "size_of struct_quota_info = 304" "align_of struct_quota_info = 8" "wf_type struct_quota_info"
  by (simp_all add: struct_quota_info_def kernel_layout layout_rules)

definition struct_wait_queue_head :: ctype where
  "struct_wait_queue_head = Struct [
    (''lock'', t_spinlock_t),
    (''head'', struct_list_head)]"

lemma struct_wait_queue_head_layout [kernel_layout]:
  "is_bits struct_wait_queue_head = False" "size_of struct_wait_queue_head = 24" "align_of struct_wait_queue_head = 8" "wf_type struct_wait_queue_head"
  by (simp_all add: struct_wait_queue_head_def kernel_layout layout_rules)

definition t_wait_queue_head_t :: ctype where
  "t_wait_queue_head_t = struct_wait_queue_head"

lemma t_wait_queue_head_t_layout [kernel_layout]:
  "is_bits t_wait_queue_head_t = False" "size_of t_wait_queue_head_t = 24" "align_of t_wait_queue_head_t = 8" "wf_type t_wait_queue_head_t"
  by (simp_all add: t_wait_queue_head_t_def kernel_layout layout_rules)

definition struct_rcu_sync :: ctype where
  "struct_rcu_sync = Struct [
    (''gp_state'', Sint 4),
    (''gp_count'', Sint 4),
    (''gp_wait'', t_wait_queue_head_t),
    (''cb_head'', struct_callback_head)]"

lemma struct_rcu_sync_layout [kernel_layout]:
  "is_bits struct_rcu_sync = False" "size_of struct_rcu_sync = 48" "align_of struct_rcu_sync = 8" "wf_type struct_rcu_sync"
  by (simp_all add: struct_rcu_sync_def kernel_layout layout_rules)

definition struct_rcuwait :: ctype where
  "struct_rcuwait = Struct [
    (''task'', Ptr ''struct task_struct'')]"

lemma struct_rcuwait_layout [kernel_layout]:
  "is_bits struct_rcuwait = False" "size_of struct_rcuwait = 8" "align_of struct_rcuwait = 8" "wf_type struct_rcuwait"
  by (simp_all add: struct_rcuwait_def kernel_layout layout_rules)

definition struct_percpu_rw_semaphore :: ctype where
  "struct_percpu_rw_semaphore = Struct [
    (''rss'', struct_rcu_sync),
    (''read_count'', Ptr ''unsigned int''),
    (''writer'', struct_rcuwait),
    (''waiters'', t_wait_queue_head_t),
    (''block'', t_atomic_t)]"

lemma struct_percpu_rw_semaphore_layout [kernel_layout]:
  "is_bits struct_percpu_rw_semaphore = False" "size_of struct_percpu_rw_semaphore = 96" "align_of struct_percpu_rw_semaphore = 8" "wf_type struct_percpu_rw_semaphore"
  by (simp_all add: struct_percpu_rw_semaphore_def kernel_layout layout_rules)

definition struct_sb_writers :: ctype where
  "struct_sb_writers = Struct [
    (''frozen'', Uint 2),
    (''freeze_kcount'', Sint 4),
    (''freeze_ucount'', Sint 4),
    (''freeze_owner'', Ptr ''void''),
    (''rw_sem'', Arr 3 struct_percpu_rw_semaphore)]"

lemma struct_sb_writers_layout [kernel_layout]:
  "is_bits struct_sb_writers = False" "size_of struct_sb_writers = 312" "align_of struct_sb_writers = 8" "wf_type struct_sb_writers"
  by (simp_all add: struct_sb_writers_def kernel_layout layout_rules)

definition t_uuid_t :: ctype where
  "t_uuid_t = Struct [
    (''b'', Arr 16 t___u8)]"

lemma t_uuid_t_layout [kernel_layout]:
  "is_bits t_uuid_t = False" "size_of t_uuid_t = 16" "align_of t_uuid_t = 1" "wf_type t_uuid_t"
  by (simp_all add: t_uuid_t_def kernel_layout layout_rules)

definition t_bool :: ctype where
  "t_bool = Uint 1"

lemma t_bool_layout [kernel_layout]:
  "is_bits t_bool = False" "size_of t_bool = 1" "align_of t_bool = 1" "wf_type t_bool"
  by (simp_all add: t_bool_def kernel_layout layout_rules)

definition struct_list_lru :: ctype where
  "struct_list_lru = Struct [
    (''node'', Ptr ''struct list_lru_node''),
    (''list'', struct_list_head),
    (''shrinker_id'', Sint 4),
    (''memcg_aware'', t_bool),
    (''xa'', struct_xarray)]"

lemma struct_list_lru_layout [kernel_layout]:
  "is_bits struct_list_lru = False" "size_of struct_list_lru = 48" "align_of struct_list_lru = 8" "wf_type struct_list_lru"
  by (simp_all add: struct_list_lru_def kernel_layout layout_rules)

definition t_work_func_t :: ctype where
  "t_work_func_t = Ptr ''function''"

lemma t_work_func_t_layout [kernel_layout]:
  "is_bits t_work_func_t = False" "size_of t_work_func_t = 8" "align_of t_work_func_t = 8" "wf_type t_work_func_t"
  by (simp_all add: t_work_func_t_def kernel_layout layout_rules)

definition struct_work_struct :: ctype where
  "struct_work_struct = Struct [
    (''data'', t_atomic_long_t),
    (''entry'', struct_list_head),
    (''func'', t_work_func_t)]"

lemma struct_work_struct_layout [kernel_layout]:
  "is_bits struct_work_struct = False" "size_of struct_work_struct = 32" "align_of struct_work_struct = 8" "wf_type struct_work_struct"
  by (simp_all add: struct_work_struct_def kernel_layout layout_rules)

definition struct_refcount_struct :: ctype where
  "struct_refcount_struct = Struct [
    (''refs'', t_atomic_t)]"

lemma struct_refcount_struct_layout [kernel_layout]:
  "is_bits struct_refcount_struct = False" "size_of struct_refcount_struct = 4" "align_of struct_refcount_struct = 4" "wf_type struct_refcount_struct"
  by (simp_all add: struct_refcount_struct_def kernel_layout layout_rules)

definition t_refcount_t :: ctype where
  "t_refcount_t = struct_refcount_struct"

lemma t_refcount_t_layout [kernel_layout]:
  "is_bits t_refcount_t = False" "size_of t_refcount_t = 4" "align_of t_refcount_t = 4" "wf_type t_refcount_t"
  by (simp_all add: t_refcount_t_def kernel_layout layout_rules)

definition struct_super_block :: ctype where
  "struct_super_block = Struct [
    (''s_list'', struct_list_head),
    (''s_dev'', t_dev_t),
    (''s_blocksize_bits'', Uint 1),
    (''s_blocksize'', Uint 8),
    (''s_maxbytes'', t_loff_t),
    (''s_type'', Ptr ''struct file_system_type''),
    (''s_op'', Ptr ''struct super_operations''),
    (''dq_op'', Ptr ''struct dquot_operations''),
    (''s_qcop'', Ptr ''struct quotactl_ops''),
    (''s_export_op'', Ptr ''struct export_operations''),
    (''s_flags'', Uint 8),
    (''s_iflags'', Uint 8),
    (''s_magic'', Uint 8),
    (''s_root'', Ptr ''struct dentry''),
    (''s_umount'', struct_rw_semaphore),
    (''s_count'', Sint 4),
    (''s_active'', t_atomic_t),
    (''s_security'', Ptr ''void''),
    (''s_xattr'', Ptr ''struct xattr_handler *''),
    (''s_cop'', Ptr ''struct fscrypt_operations''),
    (''s_master_keys'', Ptr ''struct fscrypt_keyring''),
    (''s_vop'', Ptr ''struct fsverity_operations''),
    (''s_encoding'', Ptr ''struct unicode_map''),
    (''s_encoding_flags'', t___u16),
    (''s_roots'', struct_hlist_bl_head),
    (''s_mounts'', Ptr ''struct mount''),
    (''s_bdev'', Ptr ''struct block_device''),
    (''s_bdev_file'', Ptr ''struct file''),
    (''s_bdi'', Ptr ''struct backing_dev_info''),
    (''s_mtd'', Ptr ''struct mtd_info''),
    (''s_instances'', struct_hlist_node),
    (''s_quota_types'', Uint 4),
    (''s_dquot'', struct_quota_info),
    (''s_writers'', struct_sb_writers),
    (''s_fs_info'', Ptr ''void''),
    (''s_time_gran'', t_u32),
    (''s_time_min'', t_time64_t),
    (''s_time_max'', t_time64_t),
    (''s_fsnotify_mask'', t_u32),
    (''s_fsnotify_info'', Ptr ''struct fsnotify_sb_info''),
    (''s_id'', Arr 32 (Sint 1)),
    (''s_uuid'', t_uuid_t),
    (''s_uuid_len'', t_u8),
    (''s_sysfs_name'', Arr 37 (Sint 1)),
    (''s_max_links'', Uint 4),
    (''s_d_flags'', Uint 4),
    (''s_vfs_rename_mutex'', struct_mutex),
    (''s_subtype'', Ptr ''char''),
    (''__s_d_op'', Ptr ''struct dentry_operations''),
    (''s_shrink'', Ptr ''struct shrinker''),
    (''s_remove_count'', t_atomic_long_t),
    (''s_readonly_remount'', Sint 4),
    (''s_wb_err'', t_errseq_t),
    (''s_dio_done_wq'', Ptr ''struct workqueue_struct''),
    (''s_pins'', struct_hlist_head),
    (''s_user_ns'', Ptr ''struct user_namespace''),
    (''s_dentry_lru'', struct_list_lru),
    (''s_inode_lru'', struct_list_lru),
    (''rcu'', struct_callback_head),
    (''destroy_work'', struct_work_struct),
    (''s_sync_lock'', struct_mutex),
    (''s_stack_depth'', Sint 4),
    ('''', Pad 8 64),
    ('''', Pad 8 64),
    ('''', Pad 8 64),
    ('''', Pad 8 64),
    ('''', Pad 8 64),
    (''s_inode_list_lock'', t_spinlock_t),
    (''s_inodes'', struct_list_head),
    (''s_inode_wblist_lock'', t_spinlock_t),
    (''s_inodes_wb'', struct_list_head),
    (''s_min_writeback_pages'', Sint 8),
    (''s_pending_errors'', t_refcount_t)]"

lemma struct_super_block_layout [kernel_layout]:
  "is_bits struct_super_block = False" "size_of struct_super_block = 1408" "align_of struct_super_block = 8" "wf_type struct_super_block"
  by (simp_all add: struct_super_block_def kernel_layout layout_rules)

definition struct_vfsmount :: ctype where
  "struct_vfsmount = Struct [
    (''mnt_root'', Ptr ''struct dentry''),
    (''mnt_sb'', Ptr ''struct super_block''),
    (''mnt_flags'', Sint 4),
    (''mnt_idmap'', Ptr ''struct mnt_idmap'')]"

lemma struct_vfsmount_layout [kernel_layout]:
  "is_bits struct_vfsmount = False" "size_of struct_vfsmount = 32" "align_of struct_vfsmount = 8" "wf_type struct_vfsmount"
  by (simp_all add: struct_vfsmount_def kernel_layout layout_rules)

definition struct_seqcount :: ctype where
  "struct_seqcount = Struct [
    (''sequence'', Uint 4)]"

lemma struct_seqcount_layout [kernel_layout]:
  "is_bits struct_seqcount = False" "size_of struct_seqcount = 4" "align_of struct_seqcount = 4" "wf_type struct_seqcount"
  by (simp_all add: struct_seqcount_def kernel_layout layout_rules)

definition t_seqcount_t :: ctype where
  "t_seqcount_t = struct_seqcount"

lemma t_seqcount_t_layout [kernel_layout]:
  "is_bits t_seqcount_t = False" "size_of t_seqcount_t = 4" "align_of t_seqcount_t = 4" "wf_type t_seqcount_t"
  by (simp_all add: t_seqcount_t_def kernel_layout layout_rules)

definition struct_seqcount_spinlock :: ctype where
  "struct_seqcount_spinlock = Struct [
    (''seqcount'', t_seqcount_t)]"

lemma struct_seqcount_spinlock_layout [kernel_layout]:
  "is_bits struct_seqcount_spinlock = False" "size_of struct_seqcount_spinlock = 4" "align_of struct_seqcount_spinlock = 4" "wf_type struct_seqcount_spinlock"
  by (simp_all add: struct_seqcount_spinlock_def kernel_layout layout_rules)

definition t_seqcount_spinlock_t :: ctype where
  "t_seqcount_spinlock_t = struct_seqcount_spinlock"

lemma t_seqcount_spinlock_t_layout [kernel_layout]:
  "is_bits t_seqcount_spinlock_t = False" "size_of t_seqcount_spinlock_t = 4" "align_of t_seqcount_spinlock_t = 4" "wf_type t_seqcount_spinlock_t"
  by (simp_all add: t_seqcount_spinlock_t_def kernel_layout layout_rules)

definition struct_hlist_bl_node :: ctype where
  "struct_hlist_bl_node = Struct [
    (''next'', Ptr ''struct hlist_bl_node''),
    (''pprev'', Ptr ''struct hlist_bl_node *'')]"

lemma struct_hlist_bl_node_layout [kernel_layout]:
  "is_bits struct_hlist_bl_node = False" "size_of struct_hlist_bl_node = 16" "align_of struct_hlist_bl_node = 8" "wf_type struct_hlist_bl_node"
  by (simp_all add: struct_hlist_bl_node_def kernel_layout layout_rules)

definition struct_qstr :: ctype where
  "struct_qstr = Struct [
    ('''', Union [
      ('''', Struct [
        (''hash'', t_u32),
        (''len'', t_u32)]),
      (''hash_len'', t_u64)]),
    (''name'', Ptr ''unsigned char'')]"

lemma struct_qstr_layout [kernel_layout]:
  "is_bits struct_qstr = False" "size_of struct_qstr = 16" "align_of struct_qstr = 8" "wf_type struct_qstr"
  by (simp_all add: struct_qstr_def kernel_layout layout_rules)

definition union_shortname_store :: ctype where
  "union_shortname_store = Union [
    (''string'', Arr 40 (Uint 1)),
    (''words'', Arr 5 (Uint 8))]"

lemma union_shortname_store_layout [kernel_layout]:
  "is_bits union_shortname_store = False" "size_of union_shortname_store = 40" "align_of union_shortname_store = 8" "wf_type union_shortname_store"
  by (simp_all add: union_shortname_store_def kernel_layout layout_rules)

definition struct_lockref :: ctype where
  "struct_lockref = Struct [
    ('''', Union [
      (''lock_count'', t___u64),
      ('''', Struct [
        (''lock'', t_spinlock_t),
        (''count'', Sint 4)])])]"

lemma struct_lockref_layout [kernel_layout]:
  "is_bits struct_lockref = False" "size_of struct_lockref = 8" "align_of struct_lockref = 8" "wf_type struct_lockref"
  by (simp_all add: struct_lockref_def kernel_layout layout_rules)

definition struct_dentry :: ctype where
  "struct_dentry = Struct [
    (''d_flags'', Uint 4),
    (''d_seq'', t_seqcount_spinlock_t),
    (''d_hash'', struct_hlist_bl_node),
    (''d_parent'', Ptr ''struct dentry''),
    ('''', Union [
      (''__d_name'', struct_qstr),
      (''d_name'', struct_qstr)]),
    (''d_inode'', Ptr ''struct inode''),
    (''d_shortname'', union_shortname_store),
    (''d_op'', Ptr ''struct dentry_operations''),
    (''d_sb'', Ptr ''struct super_block''),
    (''d_time'', Uint 8),
    (''d_fsdata'', Ptr ''void''),
    (''d_lockref'', struct_lockref),
    ('''', Union [
      (''d_lru'', struct_list_head),
      (''d_wait'', Ptr ''wait_queue_head_t'')]),
    (''d_sib'', struct_hlist_node),
    (''d_children'', struct_hlist_head),
    ('''', Union [
      (''d_alias'', struct_hlist_node),
      (''d_in_lookup_hash'', struct_hlist_bl_node),
      (''d_rcu'', struct_callback_head),
      (''waiters'', Ptr ''struct completion_list'')])]"

lemma struct_dentry_layout [kernel_layout]:
  "is_bits struct_dentry = False" "size_of struct_dentry = 192" "align_of struct_dentry = 8" "wf_type struct_dentry"
  by (simp_all add: struct_dentry_def kernel_layout layout_rules)

definition struct_rb_node :: ctype where
  "struct_rb_node = Struct [
    (''__rb_parent_color'', Uint 8),
    (''rb_right'', Ptr ''struct rb_node''),
    (''rb_left'', Ptr ''struct rb_node'')]"

lemma struct_rb_node_layout [kernel_layout]:
  "is_bits struct_rb_node = False" "size_of struct_rb_node = 24" "align_of struct_rb_node = 8" "wf_type struct_rb_node"
  by (simp_all add: struct_rb_node_def kernel_layout layout_rules)

definition struct_mount :: ctype where
  "struct_mount = Struct [
    (''mnt_hash'', struct_hlist_node),
    (''mnt_parent'', Ptr ''struct mount''),
    (''mnt_mountpoint'', Ptr ''struct dentry''),
    (''mnt'', struct_vfsmount),
    ('''', Union [
      (''mnt_node'', struct_rb_node),
      (''mnt_rcu'', struct_callback_head),
      (''mnt_llist'', struct_llist_node)]),
    (''mnt_pcp'', Ptr ''struct mnt_pcp''),
    (''mnt_mounts'', struct_list_head),
    (''mnt_child'', struct_list_head),
    (''mnt_next_for_sb'', Ptr ''struct mount''),
    (''mnt_pprev_for_sb'', Ptr ''struct mount *''),
    (''mnt_devname'', Ptr ''char''),
    (''mnt_list'', struct_list_head),
    (''mnt_expire'', struct_list_head),
    (''mnt_share'', struct_list_head),
    (''mnt_slave_list'', struct_hlist_head),
    (''mnt_slave'', struct_hlist_node),
    (''mnt_master'', Ptr ''struct mount''),
    (''mnt_ns'', Ptr ''struct mnt_namespace''),
    (''mnt_mp'', Ptr ''struct mountpoint''),
    ('''', Union [
      (''mnt_mp_list'', struct_hlist_node),
      (''mnt_umount'', struct_hlist_node)]),
    (''mnt_fsnotify_marks'', Ptr ''struct fsnotify_mark_connector''),
    (''mnt_fsnotify_mask'', t___u32),
    (''to_notify'', struct_list_head),
    (''prev_ns'', Ptr ''struct mnt_namespace''),
    (''mnt_t_flags'', Sint 4),
    (''mnt_id'', Sint 4),
    (''mnt_id_unique'', t_u64),
    (''mnt_group_id'', Sint 4),
    (''mnt_expiry_mark'', Sint 4),
    (''mnt_pins'', struct_hlist_head),
    (''mnt_stuck_children'', struct_hlist_head),
    (''overmount'', Ptr ''struct mount'')]"

lemma struct_mount_layout [kernel_layout]:
  "is_bits struct_mount = False" "size_of struct_mount = 352" "align_of struct_mount = 8" "wf_type struct_mount"
  by (simp_all add: struct_mount_def kernel_layout layout_rules)

end
