(* ===== verification/Kernel_Uring.thy ===== *)
theory Kernel_Uring
  imports Kernel_Fs
begin

text \<open>
  The types of the io_uring interface that the program shares with the kernel: queue entries, setup
  parameters, the opcodes, and the time and address structures that requests point to.
\<close>

definition t___s32 :: ctype where
  "t___s32 = Sint 4"

lemma t___s32_layout [kernel_layout]:
  "is_bits t___s32 = False" "size_of t___s32 = 4" "align_of t___s32 = 4" "wf_type t___s32"
  by (simp_all add: t___s32_def kernel_layout layout_rules)

definition struct_io_uring_sqe :: ctype where
  "struct_io_uring_sqe = Struct [
    (''opcode'', t___u8),
    (''flags'', t___u8),
    (''ioprio'', t___u16),
    (''fd'', t___s32),
    ('''', Union [
      (''off'', t___u64),
      (''addr2'', t___u64),
      ('''', Struct [
        (''cmd_op'', t___u32),
        (''__pad1'', t___u32)])]),
    ('''', Union [
      (''addr'', t___u64),
      (''splice_off_in'', t___u64),
      ('''', Struct [
        (''level'', t___u32),
        (''optname'', t___u32)])]),
    (''len'', t___u32),
    ('''', Union [
      (''rw_flags'', t___u32),
      (''fsync_flags'', t___u32),
      (''poll_events'', t___u16),
      (''poll32_events'', t___u32),
      (''sync_range_flags'', t___u32),
      (''msg_flags'', t___u32),
      (''timeout_flags'', t___u32),
      (''accept_flags'', t___u32),
      (''cancel_flags'', t___u32),
      (''open_flags'', t___u32),
      (''statx_flags'', t___u32),
      (''fadvise_advice'', t___u32),
      (''splice_flags'', t___u32),
      (''rename_flags'', t___u32),
      (''unlink_flags'', t___u32),
      (''hardlink_flags'', t___u32),
      (''xattr_flags'', t___u32),
      (''msg_ring_flags'', t___u32),
      (''uring_cmd_flags'', t___u32),
      (''waitid_flags'', t___u32),
      (''futex_flags'', t___u32),
      (''install_fd_flags'', t___u32),
      (''nop_flags'', t___u32),
      (''pipe_flags'', t___u32)]),
    (''user_data'', t___u64),
    ('''', Union [
      (''buf_index'', t___u16),
      (''buf_group'', t___u16)]),
    (''personality'', t___u16),
    ('''', Union [
      (''splice_fd_in'', t___s32),
      (''file_index'', t___u32),
      (''zcrx_ifq_idx'', t___u32),
      (''optlen'', t___u32),
      ('''', Struct [
        (''addr_len'', t___u16),
        (''__pad3'', Arr 1 t___u16)]),
      ('''', Struct [
        (''write_stream'', t___u8),
        (''__pad4'', Arr 3 t___u8)])]),
    ('''', Union [
      ('''', Struct [
        (''addr3'', t___u64),
        (''__pad2'', Arr 1 t___u64)]),
      ('''', Struct [
        (''attr_ptr'', t___u64),
        (''attr_type_mask'', t___u64)]),
      (''optval'', t___u64),
      (''cmd'', Arr 0 t___u8)])]"

lemma struct_io_uring_sqe_layout [kernel_layout]:
  "is_bits struct_io_uring_sqe = False" "size_of struct_io_uring_sqe = 64" "align_of struct_io_uring_sqe = 8" "wf_type struct_io_uring_sqe"
  by (simp_all add: struct_io_uring_sqe_def kernel_layout layout_rules)

definition struct_io_uring_cqe :: ctype where
  "struct_io_uring_cqe = Struct [
    (''user_data'', t___u64),
    (''res'', t___s32),
    (''flags'', t___u32),
    (''big_cqe'', Arr 0 t___u64)]"

lemma struct_io_uring_cqe_layout [kernel_layout]:
  "is_bits struct_io_uring_cqe = False" "size_of struct_io_uring_cqe = 16" "align_of struct_io_uring_cqe = 8" "wf_type struct_io_uring_cqe"
  by (simp_all add: struct_io_uring_cqe_def kernel_layout layout_rules)

definition struct_io_sqring_offsets :: ctype where
  "struct_io_sqring_offsets = Struct [
    (''head'', t___u32),
    (''tail'', t___u32),
    (''ring_mask'', t___u32),
    (''ring_entries'', t___u32),
    (''flags'', t___u32),
    (''dropped'', t___u32),
    (''array'', t___u32),
    (''resv1'', t___u32),
    (''user_addr'', t___u64)]"

lemma struct_io_sqring_offsets_layout [kernel_layout]:
  "is_bits struct_io_sqring_offsets = False" "size_of struct_io_sqring_offsets = 40" "align_of struct_io_sqring_offsets = 8" "wf_type struct_io_sqring_offsets"
  by (simp_all add: struct_io_sqring_offsets_def kernel_layout layout_rules)

definition struct_io_cqring_offsets :: ctype where
  "struct_io_cqring_offsets = Struct [
    (''head'', t___u32),
    (''tail'', t___u32),
    (''ring_mask'', t___u32),
    (''ring_entries'', t___u32),
    (''overflow'', t___u32),
    (''cqes'', t___u32),
    (''flags'', t___u32),
    (''resv1'', t___u32),
    (''user_addr'', t___u64)]"

lemma struct_io_cqring_offsets_layout [kernel_layout]:
  "is_bits struct_io_cqring_offsets = False" "size_of struct_io_cqring_offsets = 40" "align_of struct_io_cqring_offsets = 8" "wf_type struct_io_cqring_offsets"
  by (simp_all add: struct_io_cqring_offsets_def kernel_layout layout_rules)

definition struct_io_uring_params :: ctype where
  "struct_io_uring_params = Struct [
    (''sq_entries'', t___u32),
    (''cq_entries'', t___u32),
    (''flags'', t___u32),
    (''sq_thread_cpu'', t___u32),
    (''sq_thread_idle'', t___u32),
    (''features'', t___u32),
    (''wq_fd'', t___u32),
    (''resv'', Arr 3 t___u32),
    (''sq_off'', struct_io_sqring_offsets),
    (''cq_off'', struct_io_cqring_offsets)]"

lemma struct_io_uring_params_layout [kernel_layout]:
  "is_bits struct_io_uring_params = False" "size_of struct_io_uring_params = 120" "align_of struct_io_uring_params = 8" "wf_type struct_io_uring_params"
  by (simp_all add: struct_io_uring_params_def kernel_layout layout_rules)

definition t___kernel_time64_t :: ctype where
  "t___kernel_time64_t = Sint 8"

lemma t___kernel_time64_t_layout [kernel_layout]:
  "is_bits t___kernel_time64_t = False" "size_of t___kernel_time64_t = 8" "align_of t___kernel_time64_t = 8" "wf_type t___kernel_time64_t"
  by (simp_all add: t___kernel_time64_t_def kernel_layout layout_rules)

definition struct___kernel_timespec :: ctype where
  "struct___kernel_timespec = Struct [
    (''tv_sec'', t___kernel_time64_t),
    (''tv_nsec'', Sint 8)]"

lemma struct___kernel_timespec_layout [kernel_layout]:
  "is_bits struct___kernel_timespec = False" "size_of struct___kernel_timespec = 16" "align_of struct___kernel_timespec = 8" "wf_type struct___kernel_timespec"
  by (simp_all add: struct___kernel_timespec_def kernel_layout layout_rules)

definition t___kernel_sa_family_t :: ctype where
  "t___kernel_sa_family_t = Uint 2"

lemma t___kernel_sa_family_t_layout [kernel_layout]:
  "is_bits t___kernel_sa_family_t = False" "size_of t___kernel_sa_family_t = 2" "align_of t___kernel_sa_family_t = 2" "wf_type t___kernel_sa_family_t"
  by (simp_all add: t___kernel_sa_family_t_def kernel_layout layout_rules)

definition t___be16 :: ctype where
  "t___be16 = t___u16"

lemma t___be16_layout [kernel_layout]:
  "is_bits t___be16 = False" "size_of t___be16 = 2" "align_of t___be16 = 2" "wf_type t___be16"
  by (simp_all add: t___be16_def kernel_layout layout_rules)

definition t___be32 :: ctype where
  "t___be32 = t___u32"

lemma t___be32_layout [kernel_layout]:
  "is_bits t___be32 = False" "size_of t___be32 = 4" "align_of t___be32 = 4" "wf_type t___be32"
  by (simp_all add: t___be32_def kernel_layout layout_rules)

definition struct_in_addr :: ctype where
  "struct_in_addr = Struct [
    (''s_addr'', t___be32)]"

lemma struct_in_addr_layout [kernel_layout]:
  "is_bits struct_in_addr = False" "size_of struct_in_addr = 4" "align_of struct_in_addr = 4" "wf_type struct_in_addr"
  by (simp_all add: struct_in_addr_def kernel_layout layout_rules)

definition struct_sockaddr_in :: ctype where
  "struct_sockaddr_in = Struct [
    (''sin_family'', t___kernel_sa_family_t),
    (''sin_port'', t___be16),
    (''sin_addr'', struct_in_addr),
    (''__pad'', Arr 8 (Uint 1))]"

lemma struct_sockaddr_in_layout [kernel_layout]:
  "is_bits struct_sockaddr_in = False" "size_of struct_sockaddr_in = 16" "align_of struct_sockaddr_in = 4" "wf_type struct_sockaddr_in"
  by (simp_all add: struct_sockaddr_in_def kernel_layout layout_rules)

definition enum_io_uring_op :: ctype where
  "enum_io_uring_op = Enum 4 [(''IORING_OP_NOP'', 0),
    (''IORING_OP_READV'', 1),
    (''IORING_OP_WRITEV'', 2),
    (''IORING_OP_FSYNC'', 3),
    (''IORING_OP_READ_FIXED'', 4),
    (''IORING_OP_WRITE_FIXED'', 5),
    (''IORING_OP_POLL_ADD'', 6),
    (''IORING_OP_POLL_REMOVE'', 7),
    (''IORING_OP_SYNC_FILE_RANGE'', 8),
    (''IORING_OP_SENDMSG'', 9),
    (''IORING_OP_RECVMSG'', 10),
    (''IORING_OP_TIMEOUT'', 11),
    (''IORING_OP_TIMEOUT_REMOVE'', 12),
    (''IORING_OP_ACCEPT'', 13),
    (''IORING_OP_ASYNC_CANCEL'', 14),
    (''IORING_OP_LINK_TIMEOUT'', 15),
    (''IORING_OP_CONNECT'', 16),
    (''IORING_OP_FALLOCATE'', 17),
    (''IORING_OP_OPENAT'', 18),
    (''IORING_OP_CLOSE'', 19),
    (''IORING_OP_FILES_UPDATE'', 20),
    (''IORING_OP_STATX'', 21),
    (''IORING_OP_READ'', 22),
    (''IORING_OP_WRITE'', 23),
    (''IORING_OP_FADVISE'', 24),
    (''IORING_OP_MADVISE'', 25),
    (''IORING_OP_SEND'', 26),
    (''IORING_OP_RECV'', 27),
    (''IORING_OP_OPENAT2'', 28),
    (''IORING_OP_EPOLL_CTL'', 29),
    (''IORING_OP_SPLICE'', 30),
    (''IORING_OP_PROVIDE_BUFFERS'', 31),
    (''IORING_OP_REMOVE_BUFFERS'', 32),
    (''IORING_OP_TEE'', 33),
    (''IORING_OP_SHUTDOWN'', 34),
    (''IORING_OP_RENAMEAT'', 35),
    (''IORING_OP_UNLINKAT'', 36),
    (''IORING_OP_MKDIRAT'', 37),
    (''IORING_OP_SYMLINKAT'', 38),
    (''IORING_OP_LINKAT'', 39),
    (''IORING_OP_MSG_RING'', 40),
    (''IORING_OP_FSETXATTR'', 41),
    (''IORING_OP_SETXATTR'', 42),
    (''IORING_OP_FGETXATTR'', 43),
    (''IORING_OP_GETXATTR'', 44),
    (''IORING_OP_SOCKET'', 45),
    (''IORING_OP_URING_CMD'', 46),
    (''IORING_OP_SEND_ZC'', 47),
    (''IORING_OP_SENDMSG_ZC'', 48),
    (''IORING_OP_READ_MULTISHOT'', 49),
    (''IORING_OP_WAITID'', 50),
    (''IORING_OP_FUTEX_WAIT'', 51),
    (''IORING_OP_FUTEX_WAKE'', 52),
    (''IORING_OP_FUTEX_WAITV'', 53),
    (''IORING_OP_FIXED_FD_INSTALL'', 54),
    (''IORING_OP_FTRUNCATE'', 55),
    (''IORING_OP_BIND'', 56),
    (''IORING_OP_LISTEN'', 57),
    (''IORING_OP_RECV_ZC'', 58),
    (''IORING_OP_EPOLL_WAIT'', 59),
    (''IORING_OP_READV_FIXED'', 60),
    (''IORING_OP_WRITEV_FIXED'', 61),
    (''IORING_OP_PIPE'', 62),
    (''IORING_OP_NOP128'', 63),
    (''IORING_OP_URING_CMD128'', 64),
    (''IORING_OP_LAST'', 65)]"

lemma enum_io_uring_op_layout [kernel_layout]:
  "is_bits enum_io_uring_op = False" "size_of enum_io_uring_op = 4" "align_of enum_io_uring_op = 4" "wf_type enum_io_uring_op"
  by (simp_all add: enum_io_uring_op_def kernel_layout layout_rules)

end
