(* ===== verification/Kernel_Bpf.thy ===== *)
theory Kernel_Bpf
  imports Kernel_Uring
begin

text \<open>
  The BPF ring buffer through which the hook passes its events, and the map types.
\<close>

definition struct___call_single_node :: ctype where
  "struct___call_single_node = Struct [
    (''llist'', struct_llist_node),
    ('''', Union [
      (''u_flags'', Uint 4),
      (''a_flags'', t_atomic_t)]),
    (''src'', t_u16),
    (''dst'', t_u16)]"

lemma struct___call_single_node_layout [kernel_layout]:
  "is_bits struct___call_single_node = False" "size_of struct___call_single_node = 16" "align_of struct___call_single_node = 8" "wf_type struct___call_single_node"
  by (simp_all add: struct___call_single_node_def kernel_layout layout_rules)

definition struct_irq_work :: ctype where
  "struct_irq_work = Struct [
    (''node'', struct___call_single_node),
    (''func'', Ptr ''function''),
    (''irqwait'', struct_rcuwait)]"

lemma struct_irq_work_layout [kernel_layout]:
  "is_bits struct_irq_work = False" "size_of struct_irq_work = 32" "align_of struct_irq_work = 8" "wf_type struct_irq_work"
  by (simp_all add: struct_irq_work_def kernel_layout layout_rules)

definition t_rqspinlock_t :: ctype where
  "t_rqspinlock_t = struct_qspinlock"

lemma t_rqspinlock_t_layout [kernel_layout]:
  "is_bits t_rqspinlock_t = False" "size_of t_rqspinlock_t = 4" "align_of t_rqspinlock_t = 4" "wf_type t_rqspinlock_t"
  by (simp_all add: t_rqspinlock_t_def kernel_layout layout_rules)

definition struct_bpf_ringbuf :: ctype where
  "struct_bpf_ringbuf = Struct (
    [(''waitq'', t_wait_queue_head_t),
    (''work'', struct_irq_work),
    (''mask'', t_u64),
    (''pages'', Ptr ''struct page *''),
    (''nr_pages'', Sint 4),
    (''overwrite_mode'', t_bool),
    ('''', Pad 8 64),
    ('''', Pad 8 64),
    ('''', Pad 8 64),
    ('''', Pad 8 64),
    ('''', Pad 8 64),
    ('''', Pad 8 64),
    (''spinlock'', t_rqspinlock_t),
    ('''', Pad 8 64),
    ('''', Pad 8 64),
    ('''', Pad 8 64),
    ('''', Pad 8 64),
    ('''', Pad 8 64),
    ('''', Pad 8 64),
    ('''', Pad 8 64),
    (''busy'', t_atomic_t)] @
    replicate 487 ('''', Pad 8 64) @
    [(''consumer_pos'', Uint 8)] @
    replicate 511 ('''', Pad 8 64) @
    [(''producer_pos'', Uint 8),
    (''pending_pos'', Uint 8),
    (''overwrite_pos'', Uint 8)] @
    replicate 509 ('''', Pad 8 64) @
    [(''data'', Arr 0 (Sint 1))])"

lemma struct_bpf_ringbuf_layout [kernel_layout]:
  "is_bits struct_bpf_ringbuf = False" "size_of struct_bpf_ringbuf = 12288" "align_of struct_bpf_ringbuf = 8" "wf_type struct_bpf_ringbuf"
  by (simp_all add: struct_bpf_ringbuf_def kernel_layout layout_rules)

definition enum_bpf_map_type :: ctype where
  "enum_bpf_map_type = Enum 4 [(''BPF_MAP_TYPE_UNSPEC'', 0),
    (''BPF_MAP_TYPE_HASH'', 1),
    (''BPF_MAP_TYPE_ARRAY'', 2),
    (''BPF_MAP_TYPE_PROG_ARRAY'', 3),
    (''BPF_MAP_TYPE_PERF_EVENT_ARRAY'', 4),
    (''BPF_MAP_TYPE_PERCPU_HASH'', 5),
    (''BPF_MAP_TYPE_PERCPU_ARRAY'', 6),
    (''BPF_MAP_TYPE_STACK_TRACE'', 7),
    (''BPF_MAP_TYPE_CGROUP_ARRAY'', 8),
    (''BPF_MAP_TYPE_LRU_HASH'', 9),
    (''BPF_MAP_TYPE_LRU_PERCPU_HASH'', 10),
    (''BPF_MAP_TYPE_LPM_TRIE'', 11),
    (''BPF_MAP_TYPE_ARRAY_OF_MAPS'', 12),
    (''BPF_MAP_TYPE_HASH_OF_MAPS'', 13),
    (''BPF_MAP_TYPE_DEVMAP'', 14),
    (''BPF_MAP_TYPE_SOCKMAP'', 15),
    (''BPF_MAP_TYPE_CPUMAP'', 16),
    (''BPF_MAP_TYPE_XSKMAP'', 17),
    (''BPF_MAP_TYPE_SOCKHASH'', 18),
    (''BPF_MAP_TYPE_CGROUP_STORAGE_DEPRECATED'', 19),
    (''BPF_MAP_TYPE_CGROUP_STORAGE'', 19),
    (''BPF_MAP_TYPE_REUSEPORT_SOCKARRAY'', 20),
    (''BPF_MAP_TYPE_PERCPU_CGROUP_STORAGE_DEPRECATED'', 21),
    (''BPF_MAP_TYPE_PERCPU_CGROUP_STORAGE'', 21),
    (''BPF_MAP_TYPE_QUEUE'', 22),
    (''BPF_MAP_TYPE_STACK'', 23),
    (''BPF_MAP_TYPE_SK_STORAGE'', 24),
    (''BPF_MAP_TYPE_DEVMAP_HASH'', 25),
    (''BPF_MAP_TYPE_STRUCT_OPS'', 26),
    (''BPF_MAP_TYPE_RINGBUF'', 27),
    (''BPF_MAP_TYPE_INODE_STORAGE'', 28),
    (''BPF_MAP_TYPE_TASK_STORAGE'', 29),
    (''BPF_MAP_TYPE_BLOOM_FILTER'', 30),
    (''BPF_MAP_TYPE_USER_RINGBUF'', 31),
    (''BPF_MAP_TYPE_CGRP_STORAGE'', 32),
    (''BPF_MAP_TYPE_ARENA'', 33),
    (''BPF_MAP_TYPE_INSN_ARRAY'', 34),
    (''__MAX_BPF_MAP_TYPE'', 35)]"

lemma enum_bpf_map_type_layout [kernel_layout]:
  "is_bits enum_bpf_map_type = False" "size_of enum_bpf_map_type = 4" "align_of enum_bpf_map_type = 4" "wf_type enum_bpf_map_type"
  by (simp_all add: enum_bpf_map_type_def kernel_layout layout_rules)

end
