(* ===== verification/Kernel_Task.thy ===== *)
theory Kernel_Task
  imports Kernel_Bpf
begin

text \<open>
  The task structure of \<open>vmlinux.h\<close>, with every type it contains: \<open>bpf_get_current_pid_tgid\<close> takes the
  numbers the hook compares from here.
\<close>

definition struct_thread_info :: ctype where
  "struct_thread_info = Struct [
    (''flags'', Uint 8),
    (''syscall_work'', Uint 8),
    (''status'', t_u32),
    (''cpu'', t_u32)]"

lemma struct_thread_info_layout [kernel_layout]:
  "is_bits struct_thread_info = False" "size_of struct_thread_info = 24" "align_of struct_thread_info = 8" "wf_type struct_thread_info"
  by (simp_all add: struct_thread_info_def kernel_layout layout_rules)

definition struct_load_weight :: ctype where
  "struct_load_weight = Struct [
    (''weight'', Uint 8),
    (''inv_weight'', t_u32)]"

lemma struct_load_weight_layout [kernel_layout]:
  "is_bits struct_load_weight = False" "size_of struct_load_weight = 16" "align_of struct_load_weight = 8" "wf_type struct_load_weight"
  by (simp_all add: struct_load_weight_def kernel_layout layout_rules)

definition struct_sched_avg :: ctype where
  "struct_sched_avg = Struct [
    (''last_update_time'', t_u64),
    (''load_sum'', t_u64),
    (''runnable_sum'', t_u64),
    (''util_sum'', t_u32),
    (''period_contrib'', t_u32),
    (''load_avg'', Uint 8),
    (''runnable_avg'', Uint 8),
    (''util_avg'', Uint 8),
    (''util_est'', Uint 4)]"

lemma struct_sched_avg_layout [kernel_layout]:
  "is_bits struct_sched_avg = False" "size_of struct_sched_avg = 64" "align_of struct_sched_avg = 8" "wf_type struct_sched_avg"
  by (simp_all add: struct_sched_avg_def kernel_layout layout_rules)

definition struct_sched_entity :: ctype where
  "struct_sched_entity = Struct [
    (''load'', struct_load_weight),
    (''run_node'', struct_rb_node),
    (''deadline'', t_u64),
    (''min_vruntime'', t_u64),
    (''min_slice'', t_u64),
    (''max_slice'', t_u64),
    (''group_node'', struct_list_head),
    (''on_rq'', Uint 1),
    (''sched_delayed'', Uint 1),
    (''rel_deadline'', Uint 1),
    (''custom_slice'', Uint 1),
    (''exec_start'', t_u64),
    (''sum_exec_runtime'', t_u64),
    (''prev_sum_exec_runtime'', t_u64),
    (''vruntime'', t_u64),
    (''vlag'', t_s64),
    (''vprot'', t_u64),
    (''slice'', t_u64),
    (''nr_migrations'', t_u64),
    (''depth'', Sint 4),
    (''parent'', Ptr ''struct sched_entity''),
    (''cfs_rq'', Ptr ''struct cfs_rq''),
    (''my_q'', Ptr ''struct cfs_rq''),
    (''runnable_weight'', Uint 8),
    ('''', Pad 8 64),
    ('''', Pad 8 64),
    ('''', Pad 8 64),
    ('''', Pad 8 64),
    ('''', Pad 8 64),
    ('''', Pad 8 64),
    ('''', Pad 8 64),
    (''avg'', struct_sched_avg)]"

lemma struct_sched_entity_layout [kernel_layout]:
  "is_bits struct_sched_entity = False" "size_of struct_sched_entity = 320" "align_of struct_sched_entity = 8" "wf_type struct_sched_entity"
  by (simp_all add: struct_sched_entity_def kernel_layout layout_rules)

definition struct_sched_rt_entity :: ctype where
  "struct_sched_rt_entity = Struct [
    (''run_list'', struct_list_head),
    (''timeout'', Uint 8),
    (''watchdog_stamp'', Uint 8),
    (''time_slice'', Uint 4),
    (''on_rq'', Uint 2),
    (''on_list'', Uint 2),
    (''back'', Ptr ''struct sched_rt_entity'')]"

lemma struct_sched_rt_entity_layout [kernel_layout]:
  "is_bits struct_sched_rt_entity = False" "size_of struct_sched_rt_entity = 48" "align_of struct_sched_rt_entity = 8" "wf_type struct_sched_rt_entity"
  by (simp_all add: struct_sched_rt_entity_def kernel_layout layout_rules)

definition struct_rb_node_linked :: ctype where
  "struct_rb_node_linked = Struct [
    (''node'', struct_rb_node),
    (''prev'', Ptr ''struct rb_node_linked''),
    (''next'', Ptr ''struct rb_node_linked'')]"

lemma struct_rb_node_linked_layout [kernel_layout]:
  "is_bits struct_rb_node_linked = False" "size_of struct_rb_node_linked = 40" "align_of struct_rb_node_linked = 8" "wf_type struct_rb_node_linked"
  by (simp_all add: struct_rb_node_linked_def kernel_layout layout_rules)

definition t_ktime_t :: ctype where
  "t_ktime_t = t_s64"

lemma t_ktime_t_layout [kernel_layout]:
  "is_bits t_ktime_t = False" "size_of t_ktime_t = 8" "align_of t_ktime_t = 8" "wf_type t_ktime_t"
  by (simp_all add: t_ktime_t_def kernel_layout layout_rules)

definition struct_timerqueue_linked_node :: ctype where
  "struct_timerqueue_linked_node = Struct [
    (''node'', struct_rb_node_linked),
    (''expires'', t_ktime_t)]"

lemma struct_timerqueue_linked_node_layout [kernel_layout]:
  "is_bits struct_timerqueue_linked_node = False" "size_of struct_timerqueue_linked_node = 48" "align_of struct_timerqueue_linked_node = 8" "wf_type struct_timerqueue_linked_node"
  by (simp_all add: struct_timerqueue_linked_node_def kernel_layout layout_rules)

definition struct_hrtimer :: ctype where
  "struct_hrtimer = Struct [
    (''node'', struct_timerqueue_linked_node),
    (''base'', Ptr ''struct hrtimer_clock_base''),
    (''is_queued'', t_bool),
    (''is_rel'', t_bool),
    (''is_soft'', t_bool),
    (''is_hard'', t_bool),
    (''is_lazy'', t_bool),
    (''_softexpires'', t_ktime_t),
    (''function'', Ptr ''function'')]"

lemma struct_hrtimer_layout [kernel_layout]:
  "is_bits struct_hrtimer = False" "size_of struct_hrtimer = 80" "align_of struct_hrtimer = 8" "wf_type struct_hrtimer"
  by (simp_all add: struct_hrtimer_def kernel_layout layout_rules)

definition t_dl_server_pick_f :: ctype where
  "t_dl_server_pick_f = Ptr ''function''"

lemma t_dl_server_pick_f_layout [kernel_layout]:
  "is_bits t_dl_server_pick_f = False" "size_of t_dl_server_pick_f = 8" "align_of t_dl_server_pick_f = 8" "wf_type t_dl_server_pick_f"
  by (simp_all add: t_dl_server_pick_f_def kernel_layout layout_rules)

definition struct_sched_dl_entity :: ctype where
  "struct_sched_dl_entity = Struct [
    (''rb_node'', struct_rb_node),
    (''dl_runtime'', t_u64),
    (''dl_deadline'', t_u64),
    (''dl_period'', t_u64),
    (''dl_bw'', t_u64),
    (''dl_density'', t_u64),
    (''runtime'', t_s64),
    (''deadline'', t_u64),
    (''flags'', Uint 4),
    (''dl_throttled'', Bits 4 1),
    (''dl_yielded'', Bits 4 1),
    (''dl_non_contending'', Bits 4 1),
    (''dl_overrun'', Bits 4 1),
    (''dl_server'', Bits 4 1),
    (''dl_server_active'', Bits 4 1),
    (''dl_defer'', Bits 4 1),
    (''dl_defer_armed'', Bits 4 1),
    (''dl_defer_running'', Bits 4 1),
    (''dl_defer_idle'', Bits 4 1),
    (''dl_timer'', struct_hrtimer),
    (''inactive_timer'', struct_hrtimer),
    (''rq'', Ptr ''struct rq''),
    (''server_pick_task'', t_dl_server_pick_f),
    (''pi_se'', Ptr ''struct sched_dl_entity'')]"

lemma struct_sched_dl_entity_layout [kernel_layout]:
  "is_bits struct_sched_dl_entity = False" "size_of struct_sched_dl_entity = 272" "align_of struct_sched_dl_entity = 8" "wf_type struct_sched_dl_entity"
  by (simp_all add: struct_sched_dl_entity_def kernel_layout layout_rules)

definition struct_scx_dsq_list_node :: ctype where
  "struct_scx_dsq_list_node = Struct [
    (''node'', struct_list_head),
    (''flags'', t_u32),
    (''priv'', t_u32)]"

lemma struct_scx_dsq_list_node_layout [kernel_layout]:
  "is_bits struct_scx_dsq_list_node = False" "size_of struct_scx_dsq_list_node = 24" "align_of struct_scx_dsq_list_node = 8" "wf_type struct_scx_dsq_list_node"
  by (simp_all add: struct_scx_dsq_list_node_def kernel_layout layout_rules)

definition t_s32 :: ctype where
  "t_s32 = t___s32"

lemma t_s32_layout [kernel_layout]:
  "is_bits t_s32 = False" "size_of t_s32 = 4" "align_of t_s32 = 4" "wf_type t_s32"
  by (simp_all add: t_s32_def kernel_layout layout_rules)

definition struct_sched_ext_entity :: ctype where
  "struct_sched_ext_entity = Struct [
    (''sched'', Ptr ''struct scx_sched''),
    (''dsq'', Ptr ''struct scx_dispatch_q''),
    (''ops_state'', t_atomic_long_t),
    (''ddsp_dsq_id'', t_u64),
    (''ddsp_enq_flags'', t_u64),
    (''dsq_list'', struct_scx_dsq_list_node),
    (''dsq_priq'', struct_rb_node),
    (''dsq_seq'', t_u32),
    (''dsq_flags'', t_u32),
    (''flags'', t_u32),
    (''weight'', t_u32),
    (''sticky_cpu'', t_s32),
    (''holding_cpu'', t_s32),
    (''selected_cpu'', t_s32),
    (''kf_tasks'', Arr 2 (Ptr ''struct task_struct'')),
    (''runnable_node'', struct_list_head),
    (''runnable_at'', Uint 8),
    (''core_sched_at'', t_u64),
    (''slice'', t_u64),
    (''dsq_vtime'', t_u64),
    (''disallow'', t_bool),
    (''cgrp_moving_from'', Ptr ''struct cgroup''),
    (''tasks_node'', struct_list_head)]"

lemma struct_sched_ext_entity_layout [kernel_layout]:
  "is_bits struct_sched_ext_entity = False" "size_of struct_sched_ext_entity = 216" "align_of struct_sched_ext_entity = 8" "wf_type struct_sched_ext_entity"
  by (simp_all add: struct_sched_ext_entity_def kernel_layout layout_rules)

definition struct_uclamp_se :: ctype where
  "struct_uclamp_se = Struct [
    (''value'', Bits 4 11),
    (''bucket_id'', Bits 4 3),
    (''active'', Bits 4 1),
    (''user_defined'', Bits 4 1)]"

lemma struct_uclamp_se_layout [kernel_layout]:
  "is_bits struct_uclamp_se = False" "size_of struct_uclamp_se = 4" "align_of struct_uclamp_se = 4" "wf_type struct_uclamp_se"
  by (simp_all add: struct_uclamp_se_def kernel_layout layout_rules)

definition struct_sched_statistics :: ctype where
  "struct_sched_statistics = Struct [
    (''wait_start'', t_u64),
    (''wait_max'', t_u64),
    (''wait_count'', t_u64),
    (''wait_sum'', t_u64),
    (''iowait_count'', t_u64),
    (''iowait_sum'', t_u64),
    (''sleep_start'', t_u64),
    (''sleep_max'', t_u64),
    (''sum_sleep_runtime'', t_s64),
    (''block_start'', t_u64),
    (''block_max'', t_u64),
    (''sum_block_runtime'', t_s64),
    (''exec_max'', t_s64),
    (''slice_max'', t_u64),
    (''nr_migrations_cold'', t_u64),
    (''nr_failed_migrations_affine'', t_u64),
    (''nr_failed_migrations_running'', t_u64),
    (''nr_failed_migrations_hot'', t_u64),
    (''nr_forced_migrations'', t_u64),
    (''nr_wakeups'', t_u64),
    (''nr_wakeups_sync'', t_u64),
    (''nr_wakeups_migrate'', t_u64),
    (''nr_wakeups_local'', t_u64),
    (''nr_wakeups_remote'', t_u64),
    (''nr_wakeups_affine'', t_u64),
    (''nr_wakeups_affine_attempts'', t_u64),
    (''nr_wakeups_passive'', t_u64),
    (''nr_wakeups_idle'', t_u64),
    (''core_forceidle_sum'', t_u64),
    ('''', Pad 8 64),
    ('''', Pad 8 64),
    ('''', Pad 8 64)]"

lemma struct_sched_statistics_layout [kernel_layout]:
  "is_bits struct_sched_statistics = False" "size_of struct_sched_statistics = 256" "align_of struct_sched_statistics = 8" "wf_type struct_sched_statistics"
  by (simp_all add: struct_sched_statistics_def kernel_layout layout_rules)

definition struct_cpumask :: ctype where
  "struct_cpumask = Struct [
    (''bits'', Arr 6 (Uint 8))]"

lemma struct_cpumask_layout [kernel_layout]:
  "is_bits struct_cpumask = False" "size_of struct_cpumask = 48" "align_of struct_cpumask = 8" "wf_type struct_cpumask"
  by (simp_all add: struct_cpumask_def kernel_layout layout_rules)

definition t_cpumask_t :: ctype where
  "t_cpumask_t = struct_cpumask"

lemma t_cpumask_t_layout [kernel_layout]:
  "is_bits t_cpumask_t = False" "size_of t_cpumask_t = 48" "align_of t_cpumask_t = 8" "wf_type t_cpumask_t"
  by (simp_all add: t_cpumask_t_def kernel_layout layout_rules)

definition union_rcu_special :: ctype where
  "union_rcu_special = Union [
    (''b'', Struct [
      (''blocked'', t_u8),
      (''need_qs'', t_u8),
      (''exp_hint'', t_u8),
      (''need_mb'', t_u8)]),
    (''s'', t_u32)]"

lemma union_rcu_special_layout [kernel_layout]:
  "is_bits union_rcu_special = False" "size_of union_rcu_special = 4" "align_of union_rcu_special = 4" "wf_type union_rcu_special"
  by (simp_all add: union_rcu_special_def kernel_layout layout_rules)

definition struct_timespec64 :: ctype where
  "struct_timespec64 = Struct [
    (''tv_sec'', t_time64_t),
    (''tv_nsec'', Sint 8)]"

lemma struct_timespec64_layout [kernel_layout]:
  "is_bits struct_timespec64 = False" "size_of struct_timespec64 = 16" "align_of struct_timespec64 = 8" "wf_type struct_timespec64"
  by (simp_all add: struct_timespec64_def kernel_layout layout_rules)

definition struct_sched_info :: ctype where
  "struct_sched_info = Struct [
    (''pcount'', Uint 8),
    (''run_delay'', Uint 8),
    (''max_run_delay'', Uint 8),
    (''min_run_delay'', Uint 8),
    (''last_arrival'', Uint 8),
    (''last_queued'', Uint 8),
    (''max_run_delay_ts'', struct_timespec64)]"

lemma struct_sched_info_layout [kernel_layout]:
  "is_bits struct_sched_info = False" "size_of struct_sched_info = 64" "align_of struct_sched_info = 8" "wf_type struct_sched_info"
  by (simp_all add: struct_sched_info_def kernel_layout layout_rules)

definition struct_plist_node :: ctype where
  "struct_plist_node = Struct [
    (''prio'', Sint 4),
    (''prio_list'', struct_list_head),
    (''node_list'', struct_list_head)]"

lemma struct_plist_node_layout [kernel_layout]:
  "is_bits struct_plist_node = False" "size_of struct_plist_node = 40" "align_of struct_plist_node = 8" "wf_type struct_plist_node"
  by (simp_all add: struct_plist_node_def kernel_layout layout_rules)

definition t___kernel_clockid_t :: ctype where
  "t___kernel_clockid_t = Sint 4"

lemma t___kernel_clockid_t_layout [kernel_layout]:
  "is_bits t___kernel_clockid_t = False" "size_of t___kernel_clockid_t = 4" "align_of t___kernel_clockid_t = 4" "wf_type t___kernel_clockid_t"
  by (simp_all add: t___kernel_clockid_t_def kernel_layout layout_rules)

definition t_clockid_t :: ctype where
  "t_clockid_t = t___kernel_clockid_t"

lemma t_clockid_t_layout [kernel_layout]:
  "is_bits t_clockid_t = False" "size_of t_clockid_t = 4" "align_of t_clockid_t = 4" "wf_type t_clockid_t"
  by (simp_all add: t_clockid_t_def kernel_layout layout_rules)

definition enum_timespec_type :: ctype where
  "enum_timespec_type = Enum 4 [(''TT_NONE'', 0),
    (''TT_NATIVE'', 1),
    (''TT_COMPAT'', 2)]"

lemma enum_timespec_type_layout [kernel_layout]:
  "is_bits enum_timespec_type = False" "size_of enum_timespec_type = 4" "align_of enum_timespec_type = 4" "wf_type enum_timespec_type"
  by (simp_all add: enum_timespec_type_def kernel_layout layout_rules)

definition struct_restart_block :: ctype where
  "struct_restart_block = Struct [
    (''arch_data'', Uint 8),
    (''fn'', Ptr ''function''),
    ('''', Union [
      (''futex'', Struct [
        (''uaddr'', Ptr ''u32''),
        (''val'', t_u32),
        (''flags'', t_u32),
        (''bitset'', t_u32),
        (''time'', t_ktime_t),
        (''uaddr2'', Ptr ''u32'')]),
      (''nanosleep'', Struct [
        (''clockid'', t_clockid_t),
        (''type'', enum_timespec_type),
        ('''', Union [
          (''rmtp'', Ptr ''struct __kernel_timespec''),
          (''compat_rmtp'', Ptr ''struct old_timespec32'')]),
        (''expires'', t_ktime_t)]),
      (''poll'', Struct [
        (''ufds'', Ptr ''struct pollfd''),
        (''nfds'', Sint 4),
        (''has_timeout'', Sint 4),
        (''end_time'', struct_timespec64)])])]"

lemma struct_restart_block_layout [kernel_layout]:
  "is_bits struct_restart_block = False" "size_of struct_restart_block = 56" "align_of struct_restart_block = 8" "wf_type struct_restart_block"
  by (simp_all add: struct_restart_block_def kernel_layout layout_rules)

definition t___kernel_pid_t :: ctype where
  "t___kernel_pid_t = Sint 4"

lemma t___kernel_pid_t_layout [kernel_layout]:
  "is_bits t___kernel_pid_t = False" "size_of t___kernel_pid_t = 4" "align_of t___kernel_pid_t = 4" "wf_type t___kernel_pid_t"
  by (simp_all add: t___kernel_pid_t_def kernel_layout layout_rules)

definition t_pid_t :: ctype where
  "t_pid_t = t___kernel_pid_t"

lemma t_pid_t_layout [kernel_layout]:
  "is_bits t_pid_t = False" "size_of t_pid_t = 4" "align_of t_pid_t = 4" "wf_type t_pid_t"
  by (simp_all add: t_pid_t_def kernel_layout layout_rules)

definition struct_prev_cputime :: ctype where
  "struct_prev_cputime = Struct [
    (''utime'', t_u64),
    (''stime'', t_u64),
    (''lock'', t_raw_spinlock_t)]"

lemma struct_prev_cputime_layout [kernel_layout]:
  "is_bits struct_prev_cputime = False" "size_of struct_prev_cputime = 24" "align_of struct_prev_cputime = 8" "wf_type struct_prev_cputime"
  by (simp_all add: struct_prev_cputime_def kernel_layout layout_rules)

definition enum_vtime_state :: ctype where
  "enum_vtime_state = Enum 4 [(''VTIME_INACTIVE'', 0),
    (''VTIME_IDLE'', 1),
    (''VTIME_SYS'', 2),
    (''VTIME_USER'', 3),
    (''VTIME_GUEST'', 4)]"

lemma enum_vtime_state_layout [kernel_layout]:
  "is_bits enum_vtime_state = False" "size_of enum_vtime_state = 4" "align_of enum_vtime_state = 4" "wf_type enum_vtime_state"
  by (simp_all add: enum_vtime_state_def kernel_layout layout_rules)

definition struct_vtime :: ctype where
  "struct_vtime = Struct [
    (''seqcount'', t_seqcount_t),
    (''starttime'', Uint 8),
    (''state'', enum_vtime_state),
    (''cpu'', Uint 4),
    (''utime'', t_u64),
    (''stime'', t_u64),
    (''gtime'', t_u64)]"

lemma struct_vtime_layout [kernel_layout]:
  "is_bits struct_vtime = False" "size_of struct_vtime = 48" "align_of struct_vtime = 8" "wf_type struct_vtime"
  by (simp_all add: struct_vtime_def kernel_layout layout_rules)

definition struct_timerqueue_head :: ctype where
  "struct_timerqueue_head = Struct [
    (''rb_root'', struct_rb_root_cached)]"

lemma struct_timerqueue_head_layout [kernel_layout]:
  "is_bits struct_timerqueue_head = False" "size_of struct_timerqueue_head = 16" "align_of struct_timerqueue_head = 8" "wf_type struct_timerqueue_head"
  by (simp_all add: struct_timerqueue_head_def kernel_layout layout_rules)

definition struct_posix_cputimer_base :: ctype where
  "struct_posix_cputimer_base = Struct [
    (''nextevt'', t_u64),
    (''tqhead'', struct_timerqueue_head)]"

lemma struct_posix_cputimer_base_layout [kernel_layout]:
  "is_bits struct_posix_cputimer_base = False" "size_of struct_posix_cputimer_base = 24" "align_of struct_posix_cputimer_base = 8" "wf_type struct_posix_cputimer_base"
  by (simp_all add: struct_posix_cputimer_base_def kernel_layout layout_rules)

definition struct_posix_cputimers :: ctype where
  "struct_posix_cputimers = Struct [
    (''bases'', Arr 3 struct_posix_cputimer_base),
    (''timers_active'', Uint 4),
    (''expiry_active'', Uint 4)]"

lemma struct_posix_cputimers_layout [kernel_layout]:
  "is_bits struct_posix_cputimers = False" "size_of struct_posix_cputimers = 80" "align_of struct_posix_cputimers = 8" "wf_type struct_posix_cputimers"
  by (simp_all add: struct_posix_cputimers_def kernel_layout layout_rules)

definition struct_posix_cputimers_work :: ctype where
  "struct_posix_cputimers_work = Struct [
    (''work'', struct_callback_head),
    (''mutex'', struct_mutex),
    (''scheduled'', Uint 4)]"

lemma struct_posix_cputimers_work_layout [kernel_layout]:
  "is_bits struct_posix_cputimers_work = False" "size_of struct_posix_cputimers_work = 48" "align_of struct_posix_cputimers_work = 8" "wf_type struct_posix_cputimers_work"
  by (simp_all add: struct_posix_cputimers_work_def kernel_layout layout_rules)

definition struct_sysv_sem :: ctype where
  "struct_sysv_sem = Struct [
    (''undo_list'', Ptr ''struct sem_undo_list'')]"

lemma struct_sysv_sem_layout [kernel_layout]:
  "is_bits struct_sysv_sem = False" "size_of struct_sysv_sem = 8" "align_of struct_sysv_sem = 8" "wf_type struct_sysv_sem"
  by (simp_all add: struct_sysv_sem_def kernel_layout layout_rules)

definition struct_sysv_shm :: ctype where
  "struct_sysv_shm = Struct [
    (''shm_clist'', struct_list_head)]"

lemma struct_sysv_shm_layout [kernel_layout]:
  "is_bits struct_sysv_shm = False" "size_of struct_sysv_shm = 16" "align_of struct_sysv_shm = 8" "wf_type struct_sysv_shm"
  by (simp_all add: struct_sysv_shm_def kernel_layout layout_rules)

definition t_sigset_t :: ctype where
  "t_sigset_t = Struct [
    (''sig'', Arr 1 (Uint 8))]"

lemma t_sigset_t_layout [kernel_layout]:
  "is_bits t_sigset_t = False" "size_of t_sigset_t = 8" "align_of t_sigset_t = 8" "wf_type t_sigset_t"
  by (simp_all add: t_sigset_t_def kernel_layout layout_rules)

definition struct_sigpending :: ctype where
  "struct_sigpending = Struct [
    (''list'', struct_list_head),
    (''signal'', t_sigset_t)]"

lemma struct_sigpending_layout [kernel_layout]:
  "is_bits struct_sigpending = False" "size_of struct_sigpending = 24" "align_of struct_sigpending = 8" "wf_type struct_sigpending"
  by (simp_all add: struct_sigpending_def kernel_layout layout_rules)

definition t___kernel_ulong_t :: ctype where
  "t___kernel_ulong_t = Uint 8"

lemma t___kernel_ulong_t_layout [kernel_layout]:
  "is_bits t___kernel_ulong_t = False" "size_of t___kernel_ulong_t = 8" "align_of t___kernel_ulong_t = 8" "wf_type t___kernel_ulong_t"
  by (simp_all add: t___kernel_ulong_t_def kernel_layout layout_rules)

definition t___kernel_size_t :: ctype where
  "t___kernel_size_t = t___kernel_ulong_t"

lemma t___kernel_size_t_layout [kernel_layout]:
  "is_bits t___kernel_size_t = False" "size_of t___kernel_size_t = 8" "align_of t___kernel_size_t = 8" "wf_type t___kernel_size_t"
  by (simp_all add: t___kernel_size_t_def kernel_layout layout_rules)

definition t_size_t :: ctype where
  "t_size_t = t___kernel_size_t"

lemma t_size_t_layout [kernel_layout]:
  "is_bits t_size_t = False" "size_of t_size_t = 8" "align_of t_size_t = 8" "wf_type t_size_t"
  by (simp_all add: t_size_t_def kernel_layout layout_rules)

definition struct_seccomp :: ctype where
  "struct_seccomp = Struct [
    (''mode'', Sint 4),
    (''filter_count'', t_atomic_t),
    (''filter'', Ptr ''struct seccomp_filter'')]"

lemma struct_seccomp_layout [kernel_layout]:
  "is_bits struct_seccomp = False" "size_of struct_seccomp = 16" "align_of struct_seccomp = 8" "wf_type struct_seccomp"
  by (simp_all add: struct_seccomp_def kernel_layout layout_rules)

definition struct_syscall_user_dispatch :: ctype where
  "struct_syscall_user_dispatch = Struct [
    (''selector'', Ptr ''char''),
    (''offset'', Uint 8),
    (''len'', Uint 8),
    (''on_dispatch'', t_bool)]"

lemma struct_syscall_user_dispatch_layout [kernel_layout]:
  "is_bits struct_syscall_user_dispatch = False" "size_of struct_syscall_user_dispatch = 32" "align_of struct_syscall_user_dispatch = 8" "wf_type struct_syscall_user_dispatch"
  by (simp_all add: struct_syscall_user_dispatch_def kernel_layout layout_rules)

definition struct_wake_q_node :: ctype where
  "struct_wake_q_node = Struct [
    (''next'', Ptr ''struct wake_q_node'')]"

lemma struct_wake_q_node_layout [kernel_layout]:
  "is_bits struct_wake_q_node = False" "size_of struct_wake_q_node = 8" "align_of struct_wake_q_node = 8" "wf_type struct_wake_q_node"
  by (simp_all add: struct_wake_q_node_def kernel_layout layout_rules)

definition struct_task_io_accounting :: ctype where
  "struct_task_io_accounting = Struct [
    (''rchar'', t_u64),
    (''wchar'', t_u64),
    (''syscr'', t_u64),
    (''syscw'', t_u64),
    (''read_bytes'', t_u64),
    (''write_bytes'', t_u64),
    (''cancelled_write_bytes'', t_u64)]"

lemma struct_task_io_accounting_layout [kernel_layout]:
  "is_bits struct_task_io_accounting = False" "size_of struct_task_io_accounting = 56" "align_of struct_task_io_accounting = 8" "wf_type struct_task_io_accounting"
  by (simp_all add: struct_task_io_accounting_def kernel_layout layout_rules)

definition t_nodemask_t :: ctype where
  "t_nodemask_t = Struct [
    (''bits'', Arr 1 (Uint 8))]"

lemma t_nodemask_t_layout [kernel_layout]:
  "is_bits t_nodemask_t = False" "size_of t_nodemask_t = 8" "align_of t_nodemask_t = 8" "wf_type t_nodemask_t"
  by (simp_all add: t_nodemask_t_def kernel_layout layout_rules)

definition struct_rseq_event :: ctype where
  "struct_rseq_event = Struct [
    ('''', Union [
      (''all'', t_u64),
      ('''', Struct [
        ('''', Union [
          (''events'', t_u32),
          ('''', Struct [
            (''sched_switch'', t_u8),
            (''ids_changed'', t_u8),
            (''user_irq'', t_u8)])]),
        (''has_rseq'', t_u8),
        (''__pad'', t_u8),
        ('''', Union [
          (''error'', t_u16),
          ('''', Struct [
            (''fatal'', t_u8),
            (''slowpath'', t_u8)])])])])]"

lemma struct_rseq_event_layout [kernel_layout]:
  "is_bits struct_rseq_event = False" "size_of struct_rseq_event = 8" "align_of struct_rseq_event = 8" "wf_type struct_rseq_event"
  by (simp_all add: struct_rseq_event_def kernel_layout layout_rules)

definition struct_rseq_ids :: ctype where
  "struct_rseq_ids = Struct [
    ('''', Union [
      (''cpu_cid'', t_u64),
      ('''', Struct [
        (''cpu_id'', t_u32),
        (''mm_cid'', t_u32)])]),
    (''node_id'', t_u32)]"

lemma struct_rseq_ids_layout [kernel_layout]:
  "is_bits struct_rseq_ids = False" "size_of struct_rseq_ids = 16" "align_of struct_rseq_ids = 8" "wf_type struct_rseq_ids"
  by (simp_all add: struct_rseq_ids_def kernel_layout layout_rules)

definition struct_rseq_data :: ctype where
  "struct_rseq_data = Struct [
    (''usrptr'', Ptr ''struct rseq''),
    (''len'', t_u32),
    (''sig'', t_u32),
    (''event'', struct_rseq_event),
    (''ids'', struct_rseq_ids)]"

lemma struct_rseq_data_layout [kernel_layout]:
  "is_bits struct_rseq_data = False" "size_of struct_rseq_data = 40" "align_of struct_rseq_data = 8" "wf_type struct_rseq_data"
  by (simp_all add: struct_rseq_data_def kernel_layout layout_rules)

definition struct_sched_mm_cid :: ctype where
  "struct_sched_mm_cid = Struct [
    (''active'', Uint 4),
    (''cid'', Uint 4),
    (''node'', struct_hlist_node)]"

lemma struct_sched_mm_cid_layout [kernel_layout]:
  "is_bits struct_sched_mm_cid = False" "size_of struct_sched_mm_cid = 24" "align_of struct_sched_mm_cid = 8" "wf_type struct_sched_mm_cid"
  by (simp_all add: struct_sched_mm_cid_def kernel_layout layout_rules)

definition struct_arch_tlbflush_unmap_batch :: ctype where
  "struct_arch_tlbflush_unmap_batch = Struct [
    (''cpumask'', struct_cpumask),
    (''unmapped_pages'', t_bool)]"

lemma struct_arch_tlbflush_unmap_batch_layout [kernel_layout]:
  "is_bits struct_arch_tlbflush_unmap_batch = False" "size_of struct_arch_tlbflush_unmap_batch = 56" "align_of struct_arch_tlbflush_unmap_batch = 8" "wf_type struct_arch_tlbflush_unmap_batch"
  by (simp_all add: struct_arch_tlbflush_unmap_batch_def kernel_layout layout_rules)

definition struct_tlbflush_unmap_batch :: ctype where
  "struct_tlbflush_unmap_batch = Struct [
    (''arch'', struct_arch_tlbflush_unmap_batch),
    (''flush_required'', t_bool),
    (''writable'', t_bool)]"

lemma struct_tlbflush_unmap_batch_layout [kernel_layout]:
  "is_bits struct_tlbflush_unmap_batch = False" "size_of struct_tlbflush_unmap_batch = 64" "align_of struct_tlbflush_unmap_batch = 8" "wf_type struct_tlbflush_unmap_batch"
  by (simp_all add: struct_tlbflush_unmap_batch_def kernel_layout layout_rules)

definition struct_page_frag :: ctype where
  "struct_page_frag = Struct [
    (''page'', Ptr ''struct page''),
    (''offset'', t___u32),
    (''size'', t___u32)]"

lemma struct_page_frag_layout [kernel_layout]:
  "is_bits struct_page_frag = False" "size_of struct_page_frag = 16" "align_of struct_page_frag = 8" "wf_type struct_page_frag"
  by (simp_all add: struct_page_frag_def kernel_layout layout_rules)

definition struct_lazy_mmu_state :: ctype where
  "struct_lazy_mmu_state = Struct [
    (''enable_count'', t_u8),
    (''pause_count'', t_u8)]"

lemma struct_lazy_mmu_state_layout [kernel_layout]:
  "is_bits struct_lazy_mmu_state = False" "size_of struct_lazy_mmu_state = 2" "align_of struct_lazy_mmu_state = 1" "wf_type struct_lazy_mmu_state"
  by (simp_all add: struct_lazy_mmu_state_def kernel_layout layout_rules)

definition struct_kmap_ctrl :: ctype where
  "struct_kmap_ctrl = Struct []"

lemma struct_kmap_ctrl_layout [kernel_layout]:
  "is_bits struct_kmap_ctrl = False" "size_of struct_kmap_ctrl = 0" "align_of struct_kmap_ctrl = 1" "wf_type struct_kmap_ctrl"
  by (simp_all add: struct_kmap_ctrl_def kernel_layout layout_rules)

definition struct_timer_list :: ctype where
  "struct_timer_list = Struct [
    (''entry'', struct_hlist_node),
    (''expires'', Uint 8),
    (''function'', Ptr ''function''),
    (''flags'', t_u32)]"

lemma struct_timer_list_layout [kernel_layout]:
  "is_bits struct_timer_list = False" "size_of struct_timer_list = 40" "align_of struct_timer_list = 8" "wf_type struct_timer_list"
  by (simp_all add: struct_timer_list_def kernel_layout layout_rules)

definition struct_llist_head :: ctype where
  "struct_llist_head = Struct [
    (''first'', Ptr ''struct llist_node'')]"

lemma struct_llist_head_layout [kernel_layout]:
  "is_bits struct_llist_head = False" "size_of struct_llist_head = 8" "align_of struct_llist_head = 8" "wf_type struct_llist_head"
  by (simp_all add: struct_llist_head_def kernel_layout layout_rules)

definition union_unwind_task_id :: ctype where
  "union_unwind_task_id = Union [
    ('''', Struct [
      (''cpu'', t_u32),
      (''cnt'', t_u32)]),
    (''id'', t_u64)]"

lemma union_unwind_task_id_layout [kernel_layout]:
  "is_bits union_unwind_task_id = False" "size_of union_unwind_task_id = 8" "align_of union_unwind_task_id = 8" "wf_type union_unwind_task_id"
  by (simp_all add: union_unwind_task_id_def kernel_layout layout_rules)

definition struct_unwind_task_info :: ctype where
  "struct_unwind_task_info = Struct [
    (''unwind_mask'', t_atomic_long_t),
    (''cache'', Ptr ''struct unwind_cache''),
    (''work'', struct_callback_head),
    (''id'', union_unwind_task_id)]"

lemma struct_unwind_task_info_layout [kernel_layout]:
  "is_bits struct_unwind_task_info = False" "size_of struct_unwind_task_info = 40" "align_of struct_unwind_task_info = 8" "wf_type struct_unwind_task_info"
  by (simp_all add: struct_unwind_task_info_def kernel_layout layout_rules)

definition struct_desc_struct :: ctype where
  "struct_desc_struct = Struct [
    (''limit0'', t_u16),
    (''base0'', t_u16),
    (''base1'', Bits 2 8),
    (''type'', Bits 2 4),
    (''s'', Bits 2 1),
    (''dpl'', Bits 2 2),
    (''p'', Bits 2 1),
    (''limit1'', Bits 2 4),
    (''avl'', Bits 2 1),
    (''l'', Bits 2 1),
    (''d'', Bits 2 1),
    (''g'', Bits 2 1),
    (''base2'', Bits 2 8)]"

lemma struct_desc_struct_layout [kernel_layout]:
  "is_bits struct_desc_struct = False" "size_of struct_desc_struct = 8" "align_of struct_desc_struct = 2" "wf_type struct_desc_struct"
  by (simp_all add: struct_desc_struct_def kernel_layout layout_rules)

definition struct_thread_shstk :: ctype where
  "struct_thread_shstk = Struct [
    (''base'', t_u64),
    (''size'', t_u64)]"

lemma struct_thread_shstk_layout [kernel_layout]:
  "is_bits struct_thread_shstk = False" "size_of struct_thread_shstk = 16" "align_of struct_thread_shstk = 8" "wf_type struct_thread_shstk"
  by (simp_all add: struct_thread_shstk_def kernel_layout layout_rules)

definition struct_thread_struct :: ctype where
  "struct_thread_struct = Struct [
    (''tls_array'', Arr 3 struct_desc_struct),
    (''sp'', Uint 8),
    (''es'', Uint 2),
    (''ds'', Uint 2),
    (''fsindex'', Uint 2),
    (''gsindex'', Uint 2),
    (''fsbase'', Uint 8),
    (''gsbase'', Uint 8),
    (''ptrace_bps'', Arr 4 (Ptr ''struct perf_event'')),
    (''virtual_dr6'', Uint 8),
    (''ptrace_dr7'', Uint 8),
    (''cr2'', Uint 8),
    (''trap_nr'', Uint 8),
    (''error_code'', Uint 8),
    (''io_bitmap'', Ptr ''struct io_bitmap''),
    (''iopl_emul'', Uint 8),
    (''iopl_warn'', Bits 4 1),
    (''pkru'', t_u32),
    (''features'', Uint 8),
    (''features_locked'', Uint 8),
    (''shstk'', struct_thread_shstk)]"

lemma struct_thread_struct_layout [kernel_layout]:
  "is_bits struct_thread_struct = False" "size_of struct_thread_struct = 184" "align_of struct_thread_struct = 8" "wf_type struct_thread_struct"
  by (simp_all add: struct_thread_struct_def kernel_layout layout_rules)

definition struct_task_struct :: ctype where
  "struct_task_struct = Struct [
    (''thread_info'', struct_thread_info),
    (''__state'', Uint 4),
    (''saved_state'', Uint 4),
    (''stack'', Ptr ''void''),
    (''usage'', t_refcount_t),
    (''flags'', Uint 4),
    (''ptrace'', Uint 4),
    (''alloc_tag'', Ptr ''struct alloc_tag''),
    (''on_cpu'', Sint 4),
    (''wake_entry'', struct___call_single_node),
    (''wakee_flips'', Uint 4),
    (''wakee_flip_decay_ts'', Uint 8),
    (''last_wakee'', Ptr ''struct task_struct''),
    (''recent_used_cpu'', Sint 4),
    (''wake_cpu'', Sint 4),
    (''on_rq'', Sint 4),
    (''prio'', Sint 4),
    (''static_prio'', Sint 4),
    (''normal_prio'', Sint 4),
    (''rt_priority'', Uint 4),
    ('''', Pad 8 64),
    ('''', Pad 8 64),
    ('''', Pad 8 64),
    ('''', Pad 8 64),
    ('''', Pad 8 64),
    ('''', Pad 8 64),
    (''se'', struct_sched_entity),
    (''rt'', struct_sched_rt_entity),
    (''dl'', struct_sched_dl_entity),
    (''dl_server'', Ptr ''struct sched_dl_entity''),
    (''scx'', struct_sched_ext_entity),
    (''sched_class'', Ptr ''struct sched_class''),
    (''core_node'', struct_rb_node),
    (''core_cookie'', Uint 8),
    (''core_occupation'', Uint 4),
    (''sched_task_group'', Ptr ''struct task_group''),
    (''sched_throttle_work'', struct_callback_head),
    (''throttle_node'', struct_list_head),
    (''throttled'', t_bool),
    (''uclamp_req'', Arr 2 struct_uclamp_se),
    (''uclamp'', Arr 2 struct_uclamp_se),
    ('''', Pad 8 64),
    ('''', Pad 8 64),
    ('''', Pad 8 64),
    ('''', Pad 8 64),
    ('''', Pad 8 64),
    ('''', Pad 8 64),
    (''stats'', struct_sched_statistics),
    (''preempt_notifiers'', struct_hlist_head),
    (''btrace_seq'', Uint 4),
    (''policy'', Uint 4),
    (''max_allowed_capacity'', Uint 8),
    (''nr_cpus_allowed'', Sint 4),
    (''cpus_ptr'', Ptr ''cpumask_t''),
    (''user_cpus_ptr'', Ptr ''cpumask_t''),
    (''cpus_mask'', t_cpumask_t),
    (''migration_pending'', Ptr ''void''),
    (''migration_disabled'', Uint 2),
    (''migration_flags'', Uint 2),
    (''rcu_read_lock_nesting'', Sint 4),
    (''rcu_read_unlock_special'', union_rcu_special),
    (''rcu_node_entry'', struct_list_head),
    (''rcu_blocked_node'', Ptr ''struct rcu_node''),
    (''rcu_tasks_nvcsw'', Uint 8),
    (''rcu_tasks_holdout'', t_u8),
    (''rcu_tasks_idx'', t_u8),
    (''rcu_tasks_idle_cpu'', Sint 4),
    (''rcu_tasks_holdout_list'', struct_list_head),
    (''rcu_tasks_exit_cpu'', Sint 4),
    (''rcu_tasks_exit_list'', struct_list_head),
    (''trc_reader_nesting'', Sint 4),
    (''trc_reader_scp'', Ptr ''struct srcu_ctr''),
    (''sched_info'', struct_sched_info),
    (''tasks'', struct_list_head),
    (''pushable_tasks'', struct_plist_node),
    (''pushable_dl_tasks'', struct_rb_node),
    (''mm'', Ptr ''struct mm_struct''),
    (''active_mm'', Ptr ''struct mm_struct''),
    (''exit_state'', Sint 4),
    (''exit_code'', Sint 4),
    (''exit_signal'', Sint 4),
    (''pdeath_signal'', Sint 4),
    (''jobctl'', Uint 8),
    (''personality'', Uint 4),
    (''sched_reset_on_fork'', Bits 4 1),
    (''sched_contributes_to_load'', Bits 4 1),
    (''sched_migrated'', Bits 4 1),
    (''sched_task_hot'', Bits 4 1),
    ('''', Pad 8 28),
    (''sched_remote_wakeup'', Bits 4 1),
    (''sched_rt_mutex'', Bits 4 1),
    (''user_dumpable'', Bits 4 1),
    (''in_execve'', Bits 4 1),
    (''in_iowait'', Bits 4 1),
    (''restore_sigmask'', Bits 4 1),
    (''in_lru_fault'', Bits 4 1),
    (''no_cgroup_migration'', Bits 4 1),
    (''frozen'', Bits 4 1),
    (''use_memdelay'', Bits 4 1),
    (''in_memstall'', Bits 4 1),
    (''in_eventfd'', Bits 4 1),
    (''pasid_activated'', Bits 4 1),
    (''reported_split_lock'', Bits 4 1),
    (''in_thrashing'', Bits 4 1),
    (''in_nf_duplicate'', Bits 4 1),
    (''atomic_flags'', Uint 8),
    (''restart_block'', struct_restart_block),
    (''pid'', t_pid_t),
    (''tgid'', t_pid_t),
    (''stack_canary'', Uint 8),
    (''real_parent'', Ptr ''struct task_struct''),
    (''parent'', Ptr ''struct task_struct''),
    (''children'', struct_list_head),
    (''sibling'', struct_list_head),
    (''group_leader'', Ptr ''struct task_struct''),
    (''ptraced'', struct_list_head),
    (''ptrace_entry'', struct_list_head),
    (''thread_pid'', Ptr ''struct pid''),
    (''pid_links'', Arr 4 struct_hlist_node),
    (''thread_node'', struct_list_head),
    (''vfork_done'', Ptr ''struct completion''),
    (''set_child_tid'', Ptr ''int''),
    (''clear_child_tid'', Ptr ''int''),
    (''worker_private'', Ptr ''void''),
    (''utime'', t_u64),
    (''stime'', t_u64),
    (''gtime'', t_u64),
    (''prev_cputime'', struct_prev_cputime),
    (''vtime'', struct_vtime),
    (''tick_dep_mask'', t_atomic_t),
    (''nvcsw'', Uint 8),
    (''nivcsw'', Uint 8),
    (''start_time'', t_u64),
    (''start_boottime'', t_u64),
    (''min_flt'', Uint 8),
    (''maj_flt'', Uint 8),
    (''posix_cputimers'', struct_posix_cputimers),
    (''posix_cputimers_work'', struct_posix_cputimers_work),
    (''ptracer_cred'', Ptr ''struct cred''),
    (''real_cred'', Ptr ''struct cred''),
    (''cred'', Ptr ''struct cred''),
    (''cached_requested_key'', Ptr ''struct key''),
    (''comm'', Arr 16 (Sint 1)),
    (''nameidata'', Ptr ''struct nameidata''),
    (''sysvsem'', struct_sysv_sem),
    (''sysvshm'', struct_sysv_shm),
    (''last_switch_count'', Uint 8),
    (''last_switch_time'', Uint 8),
    (''fs'', Ptr ''struct fs_struct''),
    (''files'', Ptr ''struct files_struct''),
    (''io_uring'', Ptr ''struct io_uring_task''),
    (''io_uring_restrict'', Ptr ''struct io_restriction''),
    (''nsproxy'', Ptr ''struct nsproxy''),
    (''signal'', Ptr ''struct signal_struct''),
    (''sighand'', Ptr ''struct sighand_struct''),
    (''blocked'', t_sigset_t),
    (''real_blocked'', t_sigset_t),
    (''saved_sigmask'', t_sigset_t),
    (''pending'', struct_sigpending),
    (''sas_ss_sp'', Uint 8),
    (''sas_ss_size'', t_size_t),
    (''sas_ss_flags'', Uint 4),
    (''task_works'', Ptr ''struct callback_head''),
    (''audit_context'', Ptr ''struct audit_context''),
    (''loginuid'', t_kuid_t),
    (''sessionid'', Uint 4),
    (''seccomp'', struct_seccomp),
    (''syscall_dispatch'', struct_syscall_user_dispatch),
    (''parent_exec_id'', t_u64),
    (''self_exec_id'', t_u64),
    (''alloc_lock'', t_spinlock_t),
    (''pi_lock'', t_raw_spinlock_t),
    (''wake_q'', struct_wake_q_node),
    (''pi_waiters'', struct_rb_root_cached),
    (''pi_top_task'', Ptr ''struct task_struct''),
    (''pi_blocked_on'', Ptr ''struct rt_mutex_waiter''),
    (''blocked_on'', Ptr ''struct mutex''),
    (''blocked_lock'', t_raw_spinlock_t),
    (''blocker'', Uint 8),
    (''journal_info'', Ptr ''void''),
    (''bio_list'', Ptr ''struct bio_list''),
    (''plug'', Ptr ''struct blk_plug''),
    (''reclaim_state'', Ptr ''struct reclaim_state''),
    (''io_context'', Ptr ''struct io_context''),
    (''capture_control'', Ptr ''struct capture_control''),
    (''ptrace_message'', Uint 8),
    (''last_siginfo'', Ptr ''kernel_siginfo_t''),
    (''ioac'', struct_task_io_accounting),
    (''psi_flags'', Uint 4),
    (''acct_rss_mem1'', t_u64),
    (''acct_vm_mem1'', t_u64),
    (''acct_timexpd'', t_u64),
    (''mems_allowed'', t_nodemask_t),
    (''mems_allowed_seq'', t_seqcount_spinlock_t),
    (''cpuset_mem_spread_rotor'', Sint 4),
    (''cgroups'', Ptr ''struct css_set''),
    (''cg_list'', struct_list_head),
    (''closid'', t_u32),
    (''rmid'', t_u32),
    (''robust_list'', Ptr ''struct robust_list_head''),
    (''compat_robust_list'', Ptr ''struct compat_robust_list_head''),
    (''pi_state_list'', struct_list_head),
    (''pi_state_cache'', Ptr ''struct futex_pi_state''),
    (''futex_exit_mutex'', struct_mutex),
    (''futex_state'', Uint 4),
    (''perf_recursion'', Arr 4 t_u8),
    (''perf_event_ctxp'', Ptr ''struct perf_event_context''),
    (''perf_event_mutex'', struct_mutex),
    (''perf_event_list'', struct_list_head),
    (''perf_ctx_data'', Ptr ''struct perf_ctx_data''),
    (''mempolicy'', Ptr ''struct mempolicy''),
    (''il_prev'', Sint 2),
    (''il_weight'', t_u8),
    (''pref_node_fork'', Sint 2),
    (''numa_scan_seq'', Sint 4),
    (''numa_scan_period'', Uint 4),
    (''numa_scan_period_max'', Uint 4),
    (''numa_preferred_nid'', Sint 4),
    (''numa_migrate_retry'', Uint 8),
    (''node_stamp'', t_u64),
    (''last_task_numa_placement'', t_u64),
    (''last_sum_exec_runtime'', t_u64),
    (''numa_work'', struct_callback_head),
    (''numa_group'', Ptr ''struct numa_group''),
    (''numa_faults'', Ptr ''long unsigned int''),
    (''total_numa_faults'', Uint 8),
    (''numa_faults_locality'', Arr 3 (Uint 8)),
    (''numa_pages_migrated'', Uint 8),
    (''rseq'', struct_rseq_data),
    (''mm_cid'', struct_sched_mm_cid),
    (''tlb_ubc'', struct_tlbflush_unmap_batch),
    (''splice_pipe'', Ptr ''struct pipe_inode_info''),
    (''task_frag'', struct_page_frag),
    (''lazy_mmu_state'', struct_lazy_mmu_state),
    (''delays'', Ptr ''struct task_delay_info''),
    (''nr_dirtied'', Sint 4),
    (''nr_dirtied_pause'', Sint 4),
    (''dirty_paused_when'', Uint 8),
    (''timer_slack_ns'', t_u64),
    (''default_timer_slack_ns'', t_u64),
    (''curr_ret_stack'', Sint 4),
    (''curr_ret_depth'', Sint 4),
    (''ret_stack'', Ptr ''long unsigned int''),
    (''ftrace_timestamp'', Uint 8),
    (''ftrace_sleeptime'', Uint 8),
    (''trace_overrun'', t_atomic_t),
    (''tracing_graph_pause'', t_atomic_t),
    (''trace_recursion'', Uint 8),
    (''memcg_nr_pages_over_high'', Uint 4),
    (''active_memcg'', Ptr ''struct mem_cgroup''),
    (''objcg'', Ptr ''struct obj_cgroup''),
    (''throttle_disk'', Ptr ''struct gendisk''),
    (''utask'', Ptr ''struct uprobe_task''),
    (''sequential_io'', Uint 4),
    (''sequential_io_avg'', Uint 4),
    (''kmap_ctrl'', struct_kmap_ctrl),
    (''rcu'', struct_callback_head),
    (''rcu_users'', t_refcount_t),
    (''pagefault_disabled'', Sint 4),
    (''oom_reaper_list'', Ptr ''struct task_struct''),
    (''oom_reaper_timer'', struct_timer_list),
    (''stack_vm_area'', Ptr ''struct vm_struct''),
    (''stack_refcount'', t_refcount_t),
    (''security'', Ptr ''void''),
    (''bpf_storage'', Ptr ''struct bpf_local_storage''),
    (''bpf_ctx'', Ptr ''struct bpf_run_ctx''),
    (''bpf_net_context'', Ptr ''struct bpf_net_context''),
    (''mce_vaddr'', Ptr ''void''),
    (''mce_kflags'', t___u64),
    (''mce_addr'', t_u64),
    (''mce_ripv'', Bits 8 1),
    (''mce_whole_page'', Bits 8 1),
    (''__mce_reserved'', Bits 8 62),
    (''mce_kill_me'', struct_callback_head),
    (''mce_count'', Sint 4),
    (''kretprobe_instances'', struct_llist_head),
    (''rethooks'', struct_llist_head),
    (''l1d_flush_kill'', struct_callback_head),
    (''unwind_info'', struct_unwind_task_info),
    (''thread'', struct_thread_struct)]"

lemma struct_task_struct_layout [kernel_layout]:
  "is_bits struct_task_struct = False" "size_of struct_task_struct = 4032" "align_of struct_task_struct = 8" "wf_type struct_task_struct"
  by (simp_all add: struct_task_struct_def kernel_layout layout_rules)

end
