(* ===== verification/Kernel_Abi.thy ===== *)
theory Kernel_Abi
  imports Kernel_Task Bpf_Filter Ev_Loop
begin

text \<open>
  What the layouts of \<open>vmlinux.h\<close> mean for the program: the hook's member accesses as loads from
  kernel memory, and the entry that \<open>ev_iou_req\<close> writes as bytes that the kernel reads through the
  members of the request's operation.
\<close>

section \<open>Layouts of the shared types\<close>

definition shared_types :: "ctype list" where
  "shared_types =
     [struct_file, struct_inode, struct_super_block, struct_file_system_type, struct_path,
      struct_dentry, struct_mount, struct_task_struct, struct_io_uring_sqe, struct_io_uring_cqe,
      struct_io_uring_params, struct___kernel_timespec, struct_sockaddr_in, struct_bpf_ringbuf]"

lemma shared_types_wf: "t \<in> set shared_types \<Longrightarrow> wf_type t"
  by (auto simp: shared_types_def kernel_layout)

text \<open>So every member that a designator reaches lies inside its object, at a multiple of its alignment.\<close>

lemma members_inside:
  assumes "t \<in> set shared_types" "designator xs t = Some (pos, u)" "\<not> is_bits u"
  shows "pos mod 8 = 0 \<and> pos div 8 + size_of u \<le> size_of t \<and> (pos div 8) mod align_of u = 0"
proof -
  note wf = shared_types_wf [OF assms(1)]
  from designator_inside [OF wf assms(2)] assms(3) have "8 * align_of u dvd pos" by (simp add: inside_def)
  then show ?thesis using member_bytes [OF wf assms(2,3)] by (auto elim!: dvdE)
qed

text \<open>The members the program uses.\<close>

lemma hook_members [kernel_layout]:
  "designator [''f_inode''] struct_file = Some (256, Ptr ''struct inode'')"
  "designator [''f_path''] struct_file = Some (512, struct_path)"
  "designator [''i_mode''] struct_inode = Some (0, t_umode_t)"
  "designator [''i_sb''] struct_inode = Some (320, Ptr ''struct super_block'')"
  "designator [''s_type''] struct_super_block = Some (320, Ptr ''struct file_system_type'')"
  "designator [''fs_flags''] struct_file_system_type = Some (64, Sint 4)"
  by (simp_all add: struct_file_def struct_inode_def struct_super_block_def struct_file_system_type_def
      kernel_layout layout_rules shift_def or_else_def designator.simps)

lemma task_pid [kernel_layout]: "designator [''pid''] struct_task_struct = Some (15616, t_pid_t)"
  unfolding struct_task_struct_def
  by (rule designator_field, unfold field.simps,
    ((rule member_here, (simp; fail), (simp add: kernel_layout layout_rules; fail), (simp; fail))
     | (rule member_skip, (simp; fail), (simp; fail), (simp add: kernel_layout layout_rules; fail))
     | (rule member_skip_anon, (simp; fail), (simp; fail),
         (simp add: kernel_layout layout_rules or_else_def shift_def; fail), (simp add: kernel_layout layout_rules; fail)))+)

lemma task_tgid [kernel_layout]: "designator [''tgid''] struct_task_struct = Some (15648, t_pid_t)"
  unfolding struct_task_struct_def
  by (rule designator_field, unfold field.simps,
    ((rule member_here, (simp; fail), (simp add: kernel_layout layout_rules; fail), (simp; fail))
     | (rule member_skip, (simp; fail), (simp; fail), (simp add: kernel_layout layout_rules; fail))
     | (rule member_skip_anon, (simp; fail), (simp; fail),
         (simp add: kernel_layout layout_rules or_else_def shift_def; fail), (simp add: kernel_layout layout_rules; fail)))+)

lemma sqe_members [kernel_layout]:
  "designator [''opcode''] struct_io_uring_sqe = Some (0, t___u8)"
  "designator [''flags''] struct_io_uring_sqe = Some (8, t___u8)"
  "designator [''ioprio''] struct_io_uring_sqe = Some (16, t___u16)"
  "designator [''fd''] struct_io_uring_sqe = Some (32, t___s32)"
  "designator [''off''] struct_io_uring_sqe = Some (64, t___u64)"
  "designator [''addr2''] struct_io_uring_sqe = Some (64, t___u64)"
  "designator [''addr''] struct_io_uring_sqe = Some (128, t___u64)"
  "designator [''len''] struct_io_uring_sqe = Some (192, t___u32)"
  "designator [''rw_flags''] struct_io_uring_sqe = Some (224, t___u32)"
  "designator [''open_flags''] struct_io_uring_sqe = Some (224, t___u32)"
  "designator [''timeout_flags''] struct_io_uring_sqe = Some (224, t___u32)"
  "designator [''poll32_events''] struct_io_uring_sqe = Some (224, t___u32)"
  "designator [''user_data''] struct_io_uring_sqe = Some (256, t___u64)"
  "designator [''buf_index''] struct_io_uring_sqe = Some (320, t___u16)"
  "designator [''personality''] struct_io_uring_sqe = Some (336, t___u16)"
  "designator [''file_index''] struct_io_uring_sqe = Some (352, t___u32)"
  "designator [''addr3''] struct_io_uring_sqe = Some (384, t___u64)"
  by (simp_all add: struct_io_uring_sqe_def kernel_layout layout_rules shift_def or_else_def designator.simps)

section \<open>The hook on kernel memory\<close>

text \<open>
  The types of the running kernel.  The accesses of the BPF program are relocated by member names
  when it is loaded, so they may differ from those of \<open>vmlinux.h\<close> it was compiled with.  The relocation
  is the work of libbpf, which is not code of the repository: that a member access of the loaded program
  reads the member of that name of the running kernel, at the offset and with the size it has there, is
  assumed by reading through \<open>kernel_types\<close> below.
\<close>

record kernel_types =
  kt_file :: ctype
  kt_inode :: ctype
  kt_super_block :: ctype
  kt_file_system_type :: ctype

definition vmlinux_types :: kernel_types where
  "vmlinux_types =
     \<lparr>kt_file = struct_file, kt_inode = struct_inode, kt_super_block = struct_super_block,
      kt_file_system_type = struct_file_system_type\<rparr>"

text \<open>\<open>&a->x\<close>.\<close>

definition addr_of :: "ctype \<Rightarrow> string \<Rightarrow> nat \<Rightarrow> nat" where
  "addr_of t x a = a + (case designator [x] t of Some (pos, _) \<Rightarrow> pos div 8 | None \<Rightarrow> 0)"

definition fs_requires_dev_mem :: "kernel_types \<Rightarrow> mem \<Rightarrow> nat \<Rightarrow> bool" where
  "fs_requires_dev_mem K m sb =
     (let s_type = get (kt_super_block K) [''s_type''] m sb in
      s_type \<noteq> 0 \<and>
      (of_nat (get (kt_file_system_type K) [''fs_flags''] m s_type) :: i32) AND FS_REQUIRES_DEV \<noteq> 0)"

definition ride_mem ::
  "kernel_types \<Rightarrow> bpf_rodata \<Rightarrow> (nat \<Rightarrow> string \<Rightarrow> i32 \<times> string) \<Rightarrow> u64 \<Rightarrow> mem \<Rightarrow> nat \<Rightarrow> event option
     \<Rightarrow> (i32 \<times> rb_action list) res" where
  "ride_mem K ro d_path pid_tgid m file reserve =
     (if drop_bit 32 pid_tgid = (scast (ro_userspace_pid ro) :: u64) then Inr (0, [])
      else
        let inode = get (kt_file K) [''f_inode''] m file in
        if \<not> S_ISREG (of_nat (get (kt_inode K) [''i_mode''] m inode))
           \<or> \<not> fs_requires_dev_mem K m (get (kt_inode K) [''i_sb''] m inode)
        then Inr (0, [])
        else case reserve of
               None \<Rightarrow> Inr (0, [Rb_Reserve_Failed])
             | Some ev \<Rightarrow>
                 (let (ret, path) = d_path (addr_of (kt_file K) ''f_path'' file) (ev_path ev);
                      plen = ret - 1;
                      ev1 = ev\<lparr>ev_path := path[MAX_FILENAME_LEN - 1 := NUL], ev_path_len := scast plen\<rparr>
                  in bind_res (in_watch_path ro (ev_path ev1) plen)
                       (\<lambda>hit. if \<not> hit then Inr (0, [Rb_Discard]) else Inr (0, [Rb_Submit ev1]))))"

text \<open>The objects in memory, as the values on which \<open>ride\<close> works.\<close>

definition super_block_at :: "kernel_types \<Rightarrow> mem \<Rightarrow> nat \<Rightarrow> super_block" where
  "super_block_at K m sb =
     (let t = get (kt_super_block K) [''s_type''] m sb in
      \<lparr>s_type = (if t = 0 then None
                 else Some \<lparr>fs_flags = of_nat (get (kt_file_system_type K) [''fs_flags''] m t)\<rparr>)\<rparr>)"

definition file_at :: "kernel_types \<Rightarrow> mem \<Rightarrow> nat \<Rightarrow> nat kfile" where
  "file_at K m file =
     (let inode = get (kt_file K) [''f_inode''] m file in
      \<lparr>f_inode = \<lparr>i_mode = of_nat (get (kt_inode K) [''i_mode''] m inode),
                  i_sb = super_block_at K m (get (kt_inode K) [''i_sb''] m inode)\<rparr>,
       f_path = addr_of (kt_file K) ''f_path'' file\<rparr>)"

lemma ride_mem_refines: "ride_mem K ro d_path pid_tgid m file reserve = ride ro d_path pid_tgid (file_at K m file) reserve"
proof -
  have "fs_requires_dev (i_sb (f_inode (file_at K m file))) =
      fs_requires_dev_mem K m (get (kt_inode K) [''i_sb''] m (get (kt_file K) [''f_inode''] m file))"
    by (simp add: fs_requires_dev_def fs_requires_dev_mem_def file_at_def super_block_at_def Let_def)
  moreover have "i_mode (f_inode (file_at K m file)) = of_nat (get (kt_inode K) [''i_mode''] m (get (kt_file K) [''f_inode''] m file))"
      "f_path (file_at K m file) = addr_of (kt_file K) ''f_path'' file"
    by (simp_all add: file_at_def Let_def)
  ultimately show ?thesis
    unfolding ride_mem_def ride_def Let_def
    by (auto simp: case_prod_beta split: option.splits intro!: arg_cong2 [where f = bind_res])
qed

text \<open>The kernel has filled in its objects; a super block may have no file system type.\<close>

record kernel_objects =
  ko_file :: u64
  ko_inode :: u64
  ko_super_block :: u64
  ko_file_system_type :: u64

definition kernel_fill :: "kernel_types \<Rightarrow> kernel_objects \<Rightarrow> u16 \<Rightarrow> i32 \<Rightarrow> mem \<Rightarrow> mem" where
  "kernel_fill K A mode fl m =
     (let m1 = (if ko_file_system_type A = 0 then m
                else put (kt_file_system_type K) [''fs_flags''] (unat fl) m (unat (ko_file_system_type A)));
          m2 = put (kt_super_block K) [''s_type''] (unat (ko_file_system_type A)) m1 (unat (ko_super_block A));
          m3 = put (kt_inode K) [''i_mode''] (unat mode) m2 (unat (ko_inode A));
          m4 = put (kt_inode K) [''i_sb''] (unat (ko_super_block A)) m3 (unat (ko_inode A))
      in put (kt_file K) [''f_inode''] (unat (ko_inode A)) m4 (unat (ko_file A)))"

text \<open>The members exist with the sizes the compiled accesses have, and the four objects do not overlap.\<close>

definition types_fit :: "kernel_types \<Rightarrow> bool" where
  "types_fit K \<longleftrightarrow> wf_type (kt_file K) \<and> wf_type (kt_inode K) \<and> wf_type (kt_super_block K)
     \<and> wf_type (kt_file_system_type K) \<and> has_member (kt_file K) [''f_inode''] 8
     \<and> has_member (kt_inode K) [''i_mode''] 2 \<and> has_member (kt_inode K) [''i_sb''] 8
     \<and> has_member (kt_super_block K) [''s_type''] 8 \<and> has_member (kt_file_system_type K) [''fs_flags''] 4
     \<and> apart (kt_inode K) [''i_sb''] [''i_mode'']"

definition objects_fit :: "kernel_types \<Rightarrow> kernel_objects \<Rightarrow> bool" where
  "objects_fit K A \<longleftrightarrow>
     objects_apart (unat (ko_file A)) (kt_file K) (unat (ko_inode A)) (kt_inode K)
     \<and> objects_apart (unat (ko_file A)) (kt_file K) (unat (ko_super_block A)) (kt_super_block K)
     \<and> objects_apart (unat (ko_inode A)) (kt_inode K) (unat (ko_super_block A)) (kt_super_block K)
     \<and> (ko_file_system_type A = 0
        \<or> objects_apart (unat (ko_file A)) (kt_file K) (unat (ko_file_system_type A)) (kt_file_system_type K)
        \<and> objects_apart (unat (ko_inode A)) (kt_inode K) (unat (ko_file_system_type A)) (kt_file_system_type K)
        \<and> objects_apart (unat (ko_super_block A)) (kt_super_block K)
            (unat (ko_file_system_type A)) (kt_file_system_type K))"

lemma get_put_word:
  "has_member t xs n \<Longrightarrow> LENGTH('a) = 8 * n \<Longrightarrow> get t xs (put t xs (unat (w :: 'a :: len word)) m a) a = unat w"
  using unsigned_less [of w, where 'a = nat] power_mult [of "2 :: nat" 8 n] by (simp add: get_put_same)

lemma get_fill:
  assumes "types_fit K" "objects_fit K A"
  shows "get (kt_file K) [''f_inode''] (kernel_fill K A mode fl m) (unat (ko_file A)) = unat (ko_inode A)"
    "get (kt_inode K) [''i_mode''] (kernel_fill K A mode fl m) (unat (ko_inode A)) = unat mode"
    "get (kt_inode K) [''i_sb''] (kernel_fill K A mode fl m) (unat (ko_inode A)) = unat (ko_super_block A)"
    "get (kt_super_block K) [''s_type''] (kernel_fill K A mode fl m) (unat (ko_super_block A)) = unat (ko_file_system_type A)"
    "ko_file_system_type A \<noteq> 0 \<Longrightarrow>
       get (kt_file_system_type K) [''fs_flags''] (kernel_fill K A mode fl m) (unat (ko_file_system_type A)) = unat fl"
proof -
  note f = assms [unfolded types_fit_def objects_fit_def]
  have mem: "is_member (kt_file K) [''f_inode'']" "is_member (kt_inode K) [''i_mode'']" "is_member (kt_inode K) [''i_sb'']"
    "is_member (kt_super_block K) [''s_type'']" "is_member (kt_file_system_type K) [''fs_flags'']"
    using f by (auto dest: has_is_member)
  have val: "get (kt_file K) [''f_inode''] (put (kt_file K) [''f_inode''] (unat (p :: u64)) m a) a = unat p"
    "get (kt_inode K) [''i_mode''] (put (kt_inode K) [''i_mode''] (unat mode) m a) a = unat mode"
    "get (kt_inode K) [''i_sb''] (put (kt_inode K) [''i_sb''] (unat p) m a) a = unat p"
    "get (kt_super_block K) [''s_type''] (put (kt_super_block K) [''s_type''] (unat p) m a) a = unat p"
    "get (kt_file_system_type K) [''fs_flags''] (put (kt_file_system_type K) [''fs_flags''] (unat fl) m a) a = unat fl"
    for p m a using f by (auto intro!: get_put_word)
  show "get (kt_file K) [''f_inode''] (kernel_fill K A mode fl m) (unat (ko_file A)) = unat (ko_inode A)"
    "get (kt_inode K) [''i_mode''] (kernel_fill K A mode fl m) (unat (ko_inode A)) = unat mode"
    "get (kt_inode K) [''i_sb''] (kernel_fill K A mode fl m) (unat (ko_inode A)) = unat (ko_super_block A)"
    "get (kt_super_block K) [''s_type''] (kernel_fill K A mode fl m) (unat (ko_super_block A)) = unat (ko_file_system_type A)"
    "ko_file_system_type A \<noteq> 0 \<Longrightarrow>
       get (kt_file_system_type K) [''fs_flags''] (kernel_fill K A mode fl m) (unat (ko_file_system_type A)) = unat fl"
    using f mem by (simp_all add: kernel_fill_def Let_def val get_put_object get_put_apart)
qed

section \<open>The current task\<close>

text \<open>\<open>bpf_get_current_pid_tgid\<close>, as documented: \<open>tgid\<close> in the upper and \<open>pid\<close> in the lower half.\<close>

definition pid_tgid_at :: "mem \<Rightarrow> nat \<Rightarrow> u64" where
  "pid_tgid_at m task =
     push_bit 32 (of_nat (get struct_task_struct [''tgid''] m task)) OR of_nat (get struct_task_struct [''pid''] m task)"

definition task_fill :: "i32 \<Rightarrow> i32 \<Rightarrow> mem \<Rightarrow> nat \<Rightarrow> mem" where
  "task_fill tgid pid m task =
     put struct_task_struct [''pid''] (unat pid) (put struct_task_struct [''tgid''] (unat tgid) m task) task"

lemma pid_tgid_fill: "pid_tgid_at (task_fill tgid pid m task) task = push_bit 32 (ucast tgid) OR ucast pid"
proof -
  have "has_member struct_task_struct [''tgid''] 4" "has_member struct_task_struct [''pid''] 4"
    "apart struct_task_struct [''pid''] [''tgid'']"
    by (simp_all add: has_member_def apart_def kernel_layout)
  then show ?thesis
    by (simp add: pid_tgid_at_def task_fill_def get_put_word get_put_apart)
qed

lemma upper_half: "drop_bit 32 (push_bit 32 (ucast (a :: u32)) OR ucast (b :: u32)) = (ucast a :: u64)"
  by (rule bit_eqI) (auto simp: bit_simps dest: bit_imp_le_length)

section \<open>Submission entries\<close>

definition uval_num :: "(obj \<Rightarrow> u64) \<Rightarrow> uval \<Rightarrow> u64" where
  "uval_num loc u = (case u of Num n \<Rightarrow> n | Addr x \<Rightarrow> loc x)"

text \<open>
  The stores of \<open>ev_iou_req\<close> into the entry at \<open>a\<close>, in order.  \<open>loc\<close> gives the addresses of the objects a
  request refers to, \<open>req_loc\<close> those of the requests.
  \<open>ev.c\<close> is compiled against the \<open>struct io_uring_sqe\<close> of the system's headers, which is part of the kernel's
  stable interface; the one of \<open>vmlinux.h\<close>, the only definition of it in the repository, stands for it here.
\<close>

definition write_sqe ::
  "(obj \<Rightarrow> u64) \<Rightarrow> (req_ptr \<Rightarrow> u64) \<Rightarrow> req_ptr \<Rightarrow> ev_io_req \<Rightarrow> mem \<Rightarrow> nat \<Rightarrow> mem" where
  "write_sqe loc req_loc p req m a =
     (let m0 = memzero (size_of struct_io_uring_sqe) m a;
          m1 = put struct_io_uring_sqe [''fd''] (unat (rq_fd req)) m0 a;
          m2 = put struct_io_uring_sqe [''opcode''] (unat (rq_opcode req)) m1 a;
          m3 = put struct_io_uring_sqe [''off''] (unat (uval_num loc (rq_off req))) m2 a;
          m4 = put struct_io_uring_sqe [''len''] (unat (rq_len req)) m3 a;
          m5 = put struct_io_uring_sqe [''addr''] (unat (uval_num loc (rq_addr req))) m4 a;
          m6 = put struct_io_uring_sqe [''poll32_events''] (unat (rq_flags req)) m5 a;
          m7 = put struct_io_uring_sqe [''user_data''] (unat (req_loc p)) m6 a
      in put struct_io_uring_sqe [''flags''] 0 m7 a)"

lemma unat_mod_width: "unat (w :: 'a :: len word) mod 2 ^ LENGTH('a) = unat w"
  using unsigned_less [of w, where 'a = nat] by simp

lemmas sqe_get = get_def put_def kernel_layout load_store_same load_store_other load_memzero
  unat_mod_width [where 'a = 8, simplified] unat_mod_width [where 'a = 32, simplified]
  unat_mod_width [where 'a = 64, simplified]

lemma write_sqe_get:
  "get struct_io_uring_sqe [''opcode''] (write_sqe loc req_loc p req m a) a = unat (rq_opcode req)"
  "get struct_io_uring_sqe [''flags''] (write_sqe loc req_loc p req m a) a = 0"
  "get struct_io_uring_sqe [''ioprio''] (write_sqe loc req_loc p req m a) a = 0"
  "get struct_io_uring_sqe [''fd''] (write_sqe loc req_loc p req m a) a = unat (rq_fd req)"
  "get struct_io_uring_sqe [''off''] (write_sqe loc req_loc p req m a) a = unat (uval_num loc (rq_off req))"
  "get struct_io_uring_sqe [''addr''] (write_sqe loc req_loc p req m a) a = unat (uval_num loc (rq_addr req))"
  "get struct_io_uring_sqe [''len''] (write_sqe loc req_loc p req m a) a = unat (rq_len req)"
  "get struct_io_uring_sqe [''poll32_events''] (write_sqe loc req_loc p req m a) a = unat (rq_flags req)"
  "get struct_io_uring_sqe [''user_data''] (write_sqe loc req_loc p req m a) a = unat (req_loc p)"
  "get struct_io_uring_sqe [''buf_index''] (write_sqe loc req_loc p req m a) a = 0"
  "get struct_io_uring_sqe [''personality''] (write_sqe loc req_loc p req m a) a = 0"
  "get struct_io_uring_sqe [''file_index''] (write_sqe loc req_loc p req m a) a = 0"
  "get struct_io_uring_sqe [''addr3''] (write_sqe loc req_loc p req m a) a = 0"
  by (simp_all add: write_sqe_def Let_def sqe_get)

lemma sqe_aliases:
  "get struct_io_uring_sqe [''addr2''] m a = get struct_io_uring_sqe [''off''] m a"
  "get struct_io_uring_sqe [''open_flags''] m a = get struct_io_uring_sqe [''poll32_events''] m a"
  "get struct_io_uring_sqe [''timeout_flags''] m a = get struct_io_uring_sqe [''poll32_events''] m a"
  "get struct_io_uring_sqe [''rw_flags''] m a = get struct_io_uring_sqe [''poll32_events''] m a"
  by (simp_all add: get_def kernel_layout)

lemma write_sqe_outside:
  "b < a \<or> a + 64 \<le> b \<Longrightarrow> write_sqe loc req_loc p req m a b = m b"
  by (auto simp: write_sqe_def Let_def put_def memzero_def kernel_layout store_outside)

section \<open>Properties\<close>

text \<open>
  C11.  The hook on kernel memory: whatever layout the running kernel gives its structures, as long as
  they have the members the program names, with the sizes it was compiled for, and a member access reads
  the member of that name, the hook does the following with an open by a process \<open>pid_tgid\<close> of a file whose
  inode, super block and file system type the kernel stored in memory.  It does nothing when the process is
  the one of user space, when the mode is not that of a regular file, when the super block has no file system
  type or when the type does not have \<open>FS_REQUIRES_DEV\<close>.  Otherwise it reserves a record; if it gets one, it
  asks for the path at the address of the member \<open>f_path\<close>, submits the record with what the helper left there if
  that matches the watch, and discards it if not.
\<close>

theorem hook_reads_relocated:
  assumes "types_fit K" "objects_fit K A" and "designator [''f_path''] (kt_file K) = Some (pos, u)"
    and "rodata_ok ro" "NUL \<notin> set (watched ro)"
    and d: "\<And>ev. reserve = Some ev \<Longrightarrow> d_path_result (d_path (unat (ko_file A) + pos div 8) (ev_path ev))"
  shows "ride_mem K ro d_path pid_tgid (kernel_fill K A mode fl m) (unat (ko_file A)) reserve =
      Inr (0,
        if drop_bit 32 pid_tgid = (scast (ro_userspace_pid ro) :: u64) \<or> mode AND S_IFMT \<noteq> S_IFREG
           \<or> ko_file_system_type A = 0 \<or> fl AND FS_REQUIRES_DEV = 0 then []
        else case reserve of
               None \<Rightarrow> [Rb_Reserve_Failed]
             | Some ev \<Rightarrow>
                 let (ret, b) = d_path (unat (ko_file A) + pos div 8) (ev_path ev); buf = b[MAX_FILENAME_LEN - 1 := NUL]
                 in if (case ro_watch_path_type ro of
                          WATCH_FILE \<Rightarrow> 0 < sint ret \<and> cstr buf = watched ro
                        | WATCH_DIRECRTORY \<Rightarrow> prefix (watched ro) (cstr buf))
                    then [Rb_Submit \<lparr>ev_path = buf, ev_path_len = scast (ret - 1)\<rparr>]
                    else [Rb_Discard])"
proof -
  let ?m = "kernel_fill K A mode fl m" and ?f = "unat (ko_file A)"
  let ?file = "file_at K ?m ?f"
  have path: "f_path ?file = ?f + pos div 8" using assms(3) by (simp add: file_at_def addr_of_def Let_def)
  have fields: "i_mode (f_inode ?file) = mode" "i_sb (f_inode ?file) = super_block_at K ?m (unat (ko_super_block A))"
    by (simp_all add: file_at_def Let_def get_fill [OF assms(1,2)])
  have "fs_requires_dev (super_block_at K ?m (unat (ko_super_block A)))
      \<longleftrightarrow> ko_file_system_type A \<noteq> 0 \<and> fl AND FS_REQUIRES_DEV \<noteq> 0"
    by (auto simp: fs_requires_dev_def super_block_at_def Let_def get_fill [OF assms(1,2)] unat_eq_0)
  then have ign: "hook_ignores ro pid_tgid ?file \<longleftrightarrow> drop_bit 32 pid_tgid = (scast (ro_userspace_pid ro) :: u64)
      \<or> mode AND S_IFMT \<noteq> S_IFREG \<or> ko_file_system_type A = 0 \<or> fl AND FS_REQUIRES_DEV = 0"
    by (auto simp: hook_ignores_def S_ISREG_def fields)
  show ?thesis
  proof (cases reserve)
    case None
    have "ride ro d_path pid_tgid ?file None =
        Inr (0, if hook_ignores ro pid_tgid ?file then [] else [Rb_Reserve_Failed])"
      by (simp add: ride_def hook_ignores_def)
    then show ?thesis unfolding ride_mem_refines None ign by simp
  next
    case (Some ev)
    obtain ret b where r: "d_path (?f + pos div 8) (ev_path ev) = (ret, b)" by fastforce
    have "d_path (f_path ?file) (ev_path ev) = (ret, b)" using r path by simp
    from ride_result [where d_path = d_path, OF assms(4,5) this d [OF Some, unfolded r] refl, of pid_tgid, unfolded ign]
    show ?thesis unfolding ride_mem_refines Some option.case r Let_def prod.case .
  qed
qed

definition sample_objects :: "u64 \<Rightarrow> kernel_objects" where
  "sample_objects t = \<lparr>ko_file = 0x1000, ko_inode = 0x2000, ko_super_block = 0x3000, ko_file_system_type = t\<rparr>"

definition sample_rodata :: bpf_rodata where
  "sample_rodata = \<lparr>ro_watch_path = CHR ''/'' # replicate 127 NUL, ro_watch_path_len = 1,
                    ro_watch_path_type = WATCH_DIRECRTORY, ro_userspace_pid = 42\<rparr>"

text \<open>A regular file \<open>/a\<close>, first on a file system with a device, then with no file system type at all.\<close>

abbreviation sample_hook :: "u64 \<Rightarrow> (i32 \<times> rb_action list) res" where
  "sample_hook t \<equiv> ride_mem vmlinux_types sample_rodata (\<lambda>_ _. (3, ''/a'' @ replicate 126 NUL)) 0
     (kernel_fill vmlinux_types (sample_objects t) S_IFREG 1 (\<lambda>_. 0xFF)) 0x1000 (Some event_zero)"

theorem hook_reads_relocated_witness:
  "sample_hook 0x4000 = Inr (0, [Rb_Submit \<lparr>ev_path = ''/a'' @ replicate 126 NUL, ev_path_len = 2\<rparr>])
   \<and> sample_hook 0 = Inr (0, [])"
proof -
  have fit: "types_fit vmlinux_types" "objects_fit vmlinux_types (sample_objects 0x4000)"
      "objects_fit vmlinux_types (sample_objects 0)" "designator [''f_path''] (kt_file vmlinux_types) = Some (512, struct_path)"
    by (simp_all add: types_fit_def objects_fit_def objects_apart_def vmlinux_types_def sample_objects_def has_member_def
      apart_def kernel_layout)
  have w: "watched sample_rodata = ''/''" "ro_watch_path_type sample_rodata = WATCH_DIRECRTORY"
      "ro_userspace_pid sample_rodata = 42"
    by (simp_all add: watched_def sample_rodata_def)
  then have ro: "rodata_ok sample_rodata" "NUL \<notin> set (watched sample_rodata)"
    by (simp_all add: rodata_ok_def sample_rodata_def MAX_FILENAME_LEN_def)
  have "cstr (''/a'' @ replicate 126 NUL) = ''/a''" by (rule cstr_pad) simp
  then have c: "cstr (CHR ''/'' # CHR ''a'' # replicate 126 NUL) = ''/a''" by simp
  have d: "d_path_result (3, ''/a'' @ replicate 126 NUL)"
    by (simp add: d_path_result_def MAX_FILENAME_LEN_def c)
  have upd: "(''/a'' @ replicate 126 NUL)[127 := NUL] = ''/a'' @ replicate 126 NUL"
    by (simp add: list_update_append)
  from hook_reads_relocated [where d_path = "\<lambda>_ _. (3, ''/a'' @ replicate 126 NUL)" and reserve = "Some event_zero", OF fit(1,2,4) ro d,
      of 0 S_IFREG 1 "\<lambda>_. 0xFF"]
    hook_reads_relocated [where d_path = "\<lambda>_ _. (3, ''/a'' @ replicate 126 NUL)" and reserve = "Some event_zero", OF fit(1,3,4) ro d,
      of 0 S_IFREG 1 "\<lambda>_. 0xFF"] c upd
  show ?thesis by (simp add: w sample_objects_def S_IFMT_def S_IFREG_def FS_REQUIRES_DEV_def MAX_FILENAME_LEN_def)
qed

text \<open>
  C12.  The program does not watch itself: when a thread of the process whose number user space
  stored opens a file, the hook does nothing, so hashing a file never causes an event.
\<close>

theorem own_opens_ignored:
  assumes "0 \<le> sint tgid" "ro_userspace_pid ro = tgid"
  shows "ride ro d_path (pid_tgid_at (task_fill tgid pid m task) task) file reserve = Inr (0, [])"
proof -
  have "drop_bit 32 (pid_tgid_at (task_fill tgid pid m task) task) = (scast tgid :: u64)"
    unfolding pid_tgid_fill upper_half using scast_nonneg_32 [OF assms(1)] by simp
  with assms(2) show ?thesis by (simp add: ride_def)
qed

theorem own_opens_ignored_witness:
  "ride sample_rodata (\<lambda>_ buf. (2, buf)) (pid_tgid_at (task_fill 42 43 (\<lambda>_. 0xFF) 0x1000) 0x1000)
     \<lparr>f_inode = \<lparr>i_mode = S_IFREG, i_sb = \<lparr>s_type = Some \<lparr>fs_flags = 1\<rparr>\<rparr>\<rparr>, f_path = ()\<rparr> None = Inr (0, [])"
  by (rule own_opens_ignored) (simp_all add: sample_rodata_def)

text \<open>
  C10.  The submission entry as bytes: what \<open>ev_iou_req\<close> writes into the 64 bytes of an entry is, read
  through the members the kernel uses for the different operations, the entry \<open>fill_sqe\<close> of the request.
  In particular the one word written as \<open>poll32_events\<close> is \<open>open_flags\<close>, \<open>rw_flags\<close> and \<open>timeout_flags\<close>, and \<open>off\<close>
  is \<open>addr2\<close>; everything the program does not set is zero, and no byte outside the entry changes.
\<close>

theorem sqe_bytes_refine:
  "let e = fill_sqe p req; m' = write_sqe loc req_loc p req m a; rd = (\<lambda>x. get struct_io_uring_sqe [x] m' a)
   in rd ''opcode'' = unat (sqe_opcode e) \<and> rd ''flags'' = unat (sqe_flags e) \<and> rd ''fd'' = unat (sqe_fd e)
    \<and> rd ''addr'' = unat (uval_num loc (sqe_addr e)) \<and> rd ''len'' = unat (sqe_len e)
    \<and> {rd ''off'', rd ''addr2''} = {unat (uval_num loc (sqe_off e))}
    \<and> {rd ''poll32_events'', rd ''open_flags'', rd ''rw_flags'', rd ''timeout_flags''} = {unat (sqe_poll32_events e)}
    \<and> Some (rd ''user_data'') = map_option (\<lambda>p. unat (req_loc p)) (sqe_user_data e)
    \<and> {rd ''ioprio'', rd ''buf_index'', rd ''personality'', rd ''file_index'', rd ''addr3''} = {0}
    \<and> (\<forall>b. b < a \<or> a + size_of struct_io_uring_sqe \<le> b \<longrightarrow> m' b = m b)"
  by (simp add: Let_def sqe_aliases write_sqe_get write_sqe_outside fill_sqe_def sqe_zero_def kernel_layout)

theorem sqe_bytes_refine_witness:
  "get struct_io_uring_sqe [''open_flags''] (write_sqe (\<lambda>_. 0x7000) (\<lambda>_. 0x8000) (Slab_Req 1)
     (ev_io_req_zero\<lparr>rq_opcode := IORING_OP_OPENAT, rq_flags := 5\<rparr>) (\<lambda>_. 0xFF) 0x100) 0x100 = 5
   \<and> write_sqe (\<lambda>_. 0x7000) (\<lambda>_. 0x8000) (Slab_Req 1)
     (ev_io_req_zero\<lparr>rq_opcode := IORING_OP_OPENAT, rq_flags := 5\<rparr>) (\<lambda>_. 0xFF) 0x100 0x140 = 0xFF"
  using sqe_bytes_refine [where p = "Slab_Req 1" and req = "ev_io_req_zero\<lparr>rq_opcode := IORING_OP_OPENAT, rq_flags := 5\<rparr>"
    and loc = "\<lambda>_. 0x7000" and req_loc = "\<lambda>_. 0x8000" and m = "\<lambda>_. 0xFF" and a = "0x100"]
  by (simp add: Let_def fill_sqe_def sqe_zero_def kernel_layout)

text \<open>The value of an enumeration constant.\<close>

definition enum_val :: "ctype \<Rightarrow> string \<Rightarrow> int option" where
  "enum_val t c = (case t of Enum _ cs \<Rightarrow> map_of cs c | _ \<Rightarrow> None)"

text \<open>
  The io_uring interface: the queue entries, the setup parameters and the structures requests
  point to have the sizes the kernel checks, the ring offsets of the parameters are where
  \<open>ev__setup_io_uring\<close> takes them from, and the opcodes of the program are those of the kernel.
\<close>

theorem uring_abi:
  "size_of struct_io_uring_sqe = 64 \<and> size_of struct_io_uring_cqe = 16 \<and> size_of struct_io_uring_params = 120
   \<and> size_of struct___kernel_timespec = 16 \<and> size_of struct_sockaddr_in = 16
   \<and> map (enum_val enum_io_uring_op) [''IORING_OP_POLL_ADD'', ''IORING_OP_TIMEOUT'', ''IORING_OP_TIMEOUT_REMOVE'',
        ''IORING_OP_CONNECT'', ''IORING_OP_OPENAT'', ''IORING_OP_READ'', ''IORING_OP_SOCKET'']
     = map (\<lambda>w. Some (uint w)) [IORING_OP_POLL_ADD, IORING_OP_TIMEOUT, IORING_OP_TIMEOUT_REMOVE,
        IORING_OP_CONNECT, IORING_OP_OPENAT, IORING_OP_READ, IORING_OP_SOCKET]"
  by (simp add: kernel_layout enum_val_def enum_io_uring_op_def opcode_defs)

end
