(* ===== verification/Verifier_Correct.thy ===== *)
theory Verifier_Correct
  imports Verifier
begin

text \<open>
  What the verifier client sends, and when it stops sending.  The hypotheses about ngtcp2 and the
  socket are those of their documentation: how many bytes of stream data a call of
  \<open>ngtcp2_conn_writev_stream\<close> accepts, and that a connection has finitely many packets to write.
\<close>

section \<open>Documented behaviour of the library\<close>

text \<open>
  \<open>wdatalen\<close> is the number of bytes accepted or \<open>-1\<close>.  \<open>NGTCP2_ERR_WRITE_MORE\<close> is negative, and
  returned only when stream data was given and accepted.
\<close>

definition writev_documented :: "'w quic \<Rightarrow> bool" where
  "writev_documented X \<longleftrightarrow> sint (NGTCP2_ERR_WRITE_MORE X) < 0
     \<and> (\<forall>sid fin datav ts w nwrite wdatalen pkt w'.
          ngtcp2_conn_writev_stream X sid fin datav ts w = ((nwrite, wdatalen, pkt), w') \<longrightarrow>
            sint wdatalen \<le> int (length datav)
            \<and> (nwrite = NGTCP2_ERR_WRITE_MORE X \<longrightarrow> sid \<noteq> - 1 \<and> 0 \<le> sint wdatalen))"

lemma world_advance: "v_world (slot_advance n v) = v_world v"
  by (simp add: slot_advance_def)

lemma writev_documentedD:
  assumes "writev_documented X"
    and "ngtcp2_conn_writev_stream X sid fin datav ts w = ((nwrite, wdatalen, pkt), w')"
  shows "sint wdatalen \<le> int (length datav)"
    "nwrite = NGTCP2_ERR_WRITE_MORE X \<longrightarrow> sid \<noteq> - 1 \<and> 0 \<le> sint wdatalen"
  using assms unfolding writev_documented_def by blast+

definition accepted :: "'w quic \<Rightarrow> i64 \<Rightarrow> i64 \<Rightarrow> u8 list \<Rightarrow> u8 list" where
  "accepted X nwrite wdatalen datav =
     (if 0 < sint nwrite \<or> nwrite = NGTCP2_ERR_WRITE_MORE X then take (nat (sint wdatalen)) datav else [])"

text \<open>
  \<open>acc w\<close> is the sequence of stream bytes the library has accepted in the world \<open>w\<close>.  Only writing
  to a stream changes it.
\<close>

definition counts_accepted :: "'w quic \<Rightarrow> ('w \<Rightarrow> u8 list) \<Rightarrow> bool" where
  "counts_accepted X acc \<longleftrightarrow>
     (\<forall>sid fin datav ts w nwrite wdatalen pkt w'.
        ngtcp2_conn_writev_stream X sid fin datav ts w = ((nwrite, wdatalen, pkt), w') \<longrightarrow>
          acc w' = acc w @ accepted X nwrite wdatalen datav)
     \<and> (\<forall>fd pkt w. acc (snd (sendmsg X fd pkt w)) = acc w)
     \<and> (\<forall>w. acc (snd (clock_gettime X w)) = acc w)
     \<and> (\<forall>w. acc (snd (ngtcp2_conn_open_bidi_stream X w)) = acc w)"

lemma counts_acceptedD:
  assumes "counts_accepted X acc"
  shows "ngtcp2_conn_writev_stream X sid fin datav ts w = ((nwrite, wdatalen, pkt), w') \<Longrightarrow>
      acc w' = acc w @ accepted X nwrite wdatalen datav"
    "acc (snd (sendmsg X fd pkt w)) = acc w" "acc (snd (clock_gettime X w)) = acc w"
    "acc (snd (ngtcp2_conn_open_bidi_stream X w)) = acc w"
  using assms unfolding counts_accepted_def by blast+

text \<open>
  \<open>left w\<close> bounds how many more packets the connection can write and how often sending can still be
  interrupted.
\<close>

definition finitely_many_packets :: "'w quic \<Rightarrow> ('w \<Rightarrow> nat) \<Rightarrow> bool" where
  "finitely_many_packets X left \<longleftrightarrow>
     (\<forall>sid fin datav ts w nwrite wdatalen pkt w'.
        ngtcp2_conn_writev_stream X sid fin datav ts w = ((nwrite, wdatalen, pkt), w') \<longrightarrow>
        0 < sint nwrite \<or> nwrite = NGTCP2_ERR_WRITE_MORE X \<longrightarrow> left w' < left w)
     \<and> (\<forall>fd pkt w. left (snd (sendmsg X fd pkt w)) \<le> left w)
     \<and> (\<forall>fd pkt w w'. sendmsg X fd pkt w = (Inl EINTR, w') \<longrightarrow> left w' < left w)"

section \<open>No byte is lost\<close>

lemma unat_sint_64:
  assumes nn: "0 \<le> sint (w :: i64)"
  shows "unat w = nat (sint w)"
proof -
  have lt: "sint w < 2 ^ 63" using sint_lt [of w] by simp
  have "uint w = uint (word_of_int (sint w) :: i64)" by simp
  also have "\<dots> = sint w mod 2 ^ 64" by (simp only: uint_word_of_int) simp
  also have "\<dots> = sint w" using nn lt by (intro mod_pos_pos_trivial) auto
  finally show ?thesis by (simp add: unat_eq_nat_uint)
qed

lemma sendmsg_retry_acc:
  assumes acc: "counts_accepted X acc" and run: "sendmsg_retry X fd pkt w = Some (r, w')"
  shows "acc w' = acc w"
proof -
  have "\<forall>r w'. y = (r, w') \<longrightarrow> counts_accepted X acc \<longrightarrow> acc w' = acc w"
    if "sendmsg_retry X fd pkt w = Some y" for y
  proof (rule sendmsg_retry.raw_induct [OF _ that], intro allI impI)
    fix loop and X :: "'a quic" and fd pkt w y r w'
    assume IH: "\<And>X fd pkt w y. loop X fd pkt w = Some y \<Longrightarrow>
        \<forall>r w'. y = (r, w') \<longrightarrow> counts_accepted X acc \<longrightarrow> acc w' = acc w"
      and step: "(case sendmsg X fd pkt w of
          (Inl errno, w') \<Rightarrow> if errno = EINTR then loop X fd pkt w' else Some (Inl errno, w')
        | (Inr n, w') \<Rightarrow> Some (Inr n, w')) = Some y"
      and y: "y = (r, w')" and acc: "counts_accepted X acc"
    obtain s w1 where s: "sendmsg X fd pkt w = (s, w1)" by force
    then have "acc w1 = acc w"
      using counts_acceptedD(2) [OF acc, of fd pkt w] by simp
    with step y s acc show "acc w' = acc w"
      by (cases s) (auto dest!: IH split: if_splits)
  qed
  with assms show ?thesis by blast
qed

lemma send_packet_unchanged:
  assumes "counts_accepted X acc" "verifier_send_packet X pkt v = Inr (r, v')"
  shows "acc (v_world v') = acc (v_world v) \<and> v_slots v' = v_slots v"
  using assms(2)
  by (auto simp: verifier_send_packet_def sendmsg_retry_acc [OF assms(1)] split: option.splits sum.splits)

lemma slot0_simps [simp]:
  "slot0 (v\<lparr>v_world := w\<rparr>) = slot0 v"
  "slot0 (v\<lparr>v_last_error := e\<rparr>) = slot0 v"
  "v_slots v \<noteq> [] \<Longrightarrow> slot0 (v\<lparr>v_slots := (v_slots v)[0 := s]\<rparr>) = s"
  by (simp_all add: slot0_def)

lemma slots_cong: "v_slots v' = v_slots v \<Longrightarrow> slots_ok v' = slots_ok v \<and> unsent v' = unsent v"
  by (simp add: slots_ok_def unsent_def slot0_def)

lemma slots_nonempty [simp]: "slots_ok v \<Longrightarrow> v_slots v \<noteq> []"
  by (auto simp: slots_ok_def MAX_CONCURRENT_WRITES_def)

lemma unsent_nonempty: "unsent v \<noteq> [] \<Longrightarrow> qs_nwrite (slot0 v) < qs_datalen (slot0 v)"
  by (auto simp: unsent_def word_less_nat_alt)

text \<open>What \<open>verifier_prep_vec\<close> hands over is what is unsent, and resetting the slot loses nothing.\<close>

lemma prep_vec_unsent:
  assumes ok: "slots_ok v" and run: "verifier_prep_vec 1 v = ((cnt, stream, fin, datav), v')"
  shows "slots_ok v' \<and> unsent v' = unsent v \<and> v_world v' = v_world v
    \<and> (stream \<longrightarrow> v' = v \<and> datav = unsent v \<and> qs_stream_id (slot0 v) \<noteq> - 1) \<and> (\<not> stream \<longrightarrow> datav = [])"
proof -
  let ?s = "slot0 v"
  have len: "unat (qs_datalen ?s - qs_nwrite ?s) = unat (qs_datalen ?s) - unat (qs_nwrite ?s)"
    using ok by (simp add: slots_ok_def unat_sub)
  show ?thesis
  proof (cases "qs_stream_id ?s = - 1 \<or> qs_nwrite ?s < qs_datalen ?s")
    case True
    then show ?thesis
      using ok run by (auto simp: verifier_prep_vec_def Let_def slot0_def [symmetric] unsent_def len drop_take
          split: if_splits)
  next
    case False
    then have "unsent v = []" using unsent_nonempty by blast
    with False ok run show ?thesis
      by (auto simp: verifier_prep_vec_def Let_def slot0_def [symmetric] slots_ok_def unsent_def)
  qed
qed

lemma slot_advance_unsent:
  assumes ok: "slots_ok v" and n: "0 \<le> sint n" "sint n \<le> int (length (unsent v))"
  shows "slots_ok (slot_advance n v) \<and> unsent (slot_advance n v) = drop (nat (sint n)) (unsent v)"
proof -
  let ?s = "slot0 v"
  have un: "unat n = nat (sint n)"
    using n(1) by (rule unat_sint_64)
  have s: "length (unsent v) = unat (qs_datalen ?s) - unat (qs_nwrite ?s)"
    "unat (qs_nwrite ?s) \<le> unat (qs_datalen ?s)" "unat (qs_datalen ?s) \<le> 256"
    using ok by (simp_all add: unsent_def slots_ok_def word_le_nat_alt STREAM_DATA_SIZE_def)
  have le: "unat (qs_nwrite ?s) + unat n \<le> unat (qs_datalen ?s)"
    using n(2) un s by linarith
  with s(3) have "unat (qs_nwrite ?s + n) = unat (qs_nwrite ?s) + unat n"
    by (subst unat_add_lem [symmetric]) simp
  with le show ?thesis
    using ok by (simp add: slot_advance_def slot0_def [symmetric] slots_ok_def unsent_def word_le_nat_alt un add.commute)
qed

text \<open>One round of sending, once the slot and the library have been asked.\<close>

lemma flush_step_eq:
  assumes "verifier_prep_vec 1 v = ((cnt, stream, fin, datav), v1)"
    and "ngtcp2_conn_writev_stream X (if stream then qs_stream_id (v_slots v1 ! 0) else - 1) fin datav ts (v_world v1)
      = ((nwrite, wdatalen, pkt), w')"
    and "v2 = v1\<lparr>v_world := w'\<rparr>"
  shows "flush_step X ts v =
     (if sint nwrite < 0 then
        (if nwrite = NGTCP2_ERR_WRITE_MORE X then
           (if stream then Inr (None, slot_advance wdatalen v2) else Inl Null_Deref)
         else Inr (Some (- 1), v2\<lparr>v_last_error := liberr_code X nwrite\<rparr>))
      else if nwrite = 0 then Inr (Some 0, v2)
      else if 0 < sint wdatalen \<and> \<not> stream then Inl Null_Deref
      else bind_res (verifier_send_packet X pkt (if 0 < sint wdatalen then slot_advance wdatalen v2 else v2))
             (\<lambda>(r, v4). if r \<noteq> 0 then Inr (Some 0, v4) else Inr (None, v4)))"
  by (simp only: flush_step_def assms prod.case Let_def)

text \<open>It moves bytes from the slot to the library, and never dereferences a null stream.\<close>

definition conserves :: "('w \<Rightarrow> u8 list) \<Rightarrow> 'w verifier \<Rightarrow> 'w verifier \<Rightarrow> bool" where
  "conserves acc v v' \<longleftrightarrow> slots_ok v' \<and> acc (v_world v') @ unsent v' = acc (v_world v) @ unsent v"

lemma conserves_trans: "conserves acc v v1 \<Longrightarrow> conserves acc v1 v2 \<Longrightarrow> conserves acc v v2"
  by (simp add: conserves_def)

lemma conserves_error [simp]: "conserves acc v (v'\<lparr>v_last_error := e\<rparr>) = conserves acc v v'"
  using slots_cong [of "v'\<lparr>v_last_error := e\<rparr>" v'] by (simp add: conserves_def)

lemma send_packet_conserves:
  assumes "counts_accepted X acc" "conserves acc v0 v"
  shows "wp (\<lambda>f. f = Diverges) (\<lambda>(_, v'). conserves acc v0 v') (verifier_send_packet X pkt v)"
proof (cases "verifier_send_packet X pkt v")
  case (Inl f)
  then show ?thesis
    by (auto simp: verifier_send_packet_def split: option.splits sum.splits)
next
  case (Inr z)
  then obtain r v' where z: "verifier_send_packet X pkt v = Inr (r, v')" by (cases z) simp
  from send_packet_unchanged [OF assms(1) z] slots_cong [of v' v] assms(2) show ?thesis by (simp add: z conserves_def)
qed

text \<open>The state after the library has accepted \<open>wdatalen\<close> bytes.\<close>

lemma writev_conserves:
  assumes doc: "writev_documented X" and acc: "counts_accepted X acc" and ok: "slots_ok v"
    and prep: "verifier_prep_vec 1 v = ((cnt, stream, fin, datav), v1)"
    and wr: "ngtcp2_conn_writev_stream X (if stream then qs_stream_id (v_slots v1 ! 0) else - 1) fin datav ts (v_world v1)
      = ((nwrite, wdatalen, pkt), w')"
  shows "0 < sint wdatalen \<Longrightarrow> stream"
    "nwrite = NGTCP2_ERR_WRITE_MORE X \<Longrightarrow> stream \<and> 0 \<le> sint wdatalen"
    "stream \<and> 0 \<le> sint wdatalen \<and> (0 < sint nwrite \<or> nwrite = NGTCP2_ERR_WRITE_MORE X) \<Longrightarrow>
       conserves acc v (slot_advance wdatalen (v1\<lparr>v_world := w'\<rparr>))"
    "\<not> 0 < sint nwrite \<or> \<not> 0 < sint wdatalen \<Longrightarrow> nwrite \<noteq> NGTCP2_ERR_WRITE_MORE X \<Longrightarrow>
       conserves acc v (v1\<lparr>v_world := w'\<rparr>)"
proof -
  note p = prep_vec_unsent [OF ok prep]
  have acc': "acc w' = acc (v_world v) @ accepted X nwrite wdatalen datav"
    using acc wr p by (simp add: counts_accepted_def)
  note d = writev_documentedD [OF doc wr]
  show "0 < sint wdatalen \<Longrightarrow> stream" using d(1) p by auto
  show "nwrite = NGTCP2_ERR_WRITE_MORE X \<Longrightarrow> stream \<and> 0 \<le> sint wdatalen"
    using d(2) by (auto split: if_splits)
  let ?v2 = "v1\<lparr>v_world := w'\<rparr>"
  have v2: "slots_ok ?v2" "unsent ?v2 = unsent v"
    using p slots_cong [of ?v2 v1] by simp_all
  show "conserves acc v (slot_advance wdatalen ?v2)"
    if "stream \<and> 0 \<le> sint wdatalen \<and> (0 < sint nwrite \<or> nwrite = NGTCP2_ERR_WRITE_MORE X)"
    using slot_advance_unsent [OF v2(1), of wdatalen] that d(1) p v2 acc'
    by (simp add: accepted_def conserves_def world_advance)
  show "conserves acc v ?v2"
    if "\<not> 0 < sint nwrite \<or> \<not> 0 < sint wdatalen" "nwrite \<noteq> NGTCP2_ERR_WRITE_MORE X"
    using that acc' v2 by (auto simp: accepted_def conserves_def)
qed

lemma flush_step_conserves:
  assumes doc: "writev_documented X" and acc: "counts_accepted X acc" and ok: "slots_ok v"
  shows "wp (\<lambda>f. f = Diverges) (\<lambda>(_, v'). conserves acc v v') (flush_step X ts v)"
proof -
  obtain cnt stream fin datav v1 where prep: "verifier_prep_vec 1 v = ((cnt, stream, fin, datav), v1)"
    by (metis surj_pair)
  obtain nwrite wdatalen pkt w' where wr: "ngtcp2_conn_writev_stream X
      (if stream then qs_stream_id (v_slots v1 ! 0) else - 1) fin datav ts (v_world v1) = ((nwrite, wdatalen, pkt), w')"
    by (metis surj_pair)
  note step = flush_step_eq [OF prep wr refl] and w = writev_conserves [OF doc acc ok prep wr]
  consider (neg) "sint nwrite < 0" | (zero) "nwrite = 0" | (pos) "0 < sint nwrite"
    by (metis linorder_neqE_linordered_idom sint_0 signed_word_eqI)
  then show ?thesis
  proof cases
    case neg
    then show ?thesis using w by (simp add: step)
  next
    case zero
    then have "nwrite \<noteq> NGTCP2_ERR_WRITE_MORE X" using doc by (auto simp: writev_documented_def)
    with zero show ?thesis using w(4) by (simp add: step)
  next
    case pos
    then have nz: "nwrite \<noteq> 0" "nwrite \<noteq> NGTCP2_ERR_WRITE_MORE X"
      using doc by (auto simp: writev_documented_def)
    let ?v3 = "if 0 < sint wdatalen then slot_advance wdatalen (v1\<lparr>v_world := w'\<rparr>) else v1\<lparr>v_world := w'\<rparr>"
    have "conserves acc v ?v3" using w pos nz by simp
    from send_packet_conserves [OF acc this, of pkt] pos nz w(1) show ?thesis
      by (auto simp: step elim!: wp_mono)
  qed
qed


lemma flush_loop_conserves:
  assumes "writev_documented X" "counts_accepted X acc" "slots_ok v" "flush_loop X ts v = Some y"
  shows "wp (\<lambda>f. f = Diverges) (\<lambda>(_, v'). conserves acc v v') y"
proof -
  have "writev_documented X \<and> counts_accepted X acc \<and> slots_ok v \<longrightarrow>
      wp (\<lambda>f. f = Diverges) (\<lambda>(_, v'). conserves acc v v') y"
  proof (rule flush_loop.raw_induct [OF _ assms(4)], intro impI, elim conjE)
    fix loop and X :: "'a quic" and ts v y
    assume IH: "\<And>X ts v y. loop X ts v = Some y \<Longrightarrow> writev_documented X \<and> counts_accepted X acc \<and> slots_ok v \<longrightarrow>
        wp (\<lambda>f. f = Diverges) (\<lambda>(_, v'). conserves acc v v') y"
      and step: "(case flush_step X ts v of Inl e \<Rightarrow> Some (Inl e) | Inr (Some r, v') \<Rightarrow> Some (Inr (r, v'))
          | Inr (None, v') \<Rightarrow> loop X ts v') = Some y"
      and hyps: "writev_documented X" "counts_accepted X acc" "slots_ok v"
    note c = flush_step_conserves [OF hyps, of ts]
    show "wp (\<lambda>f. f = Diverges) (\<lambda>(_, v'). conserves acc v v') y"
    proof (cases "flush_step X ts v")
      case (Inl f)
      with c step show ?thesis by auto
    next
      case (Inr z)
      then obtain r v' where z: "flush_step X ts v = Inr (r, v')" by (cases z) simp
      with c have v': "conserves acc v v'" by simp
      show ?thesis
      proof (cases r)
        case None
        with step z have "loop X ts v' = Some y" by simp
        from IH [OF this] hyps v' have "wp (\<lambda>f. f = Diverges) (\<lambda>(_, v''). conserves acc v' v'') y"
          by (simp add: conserves_def)
        then show ?thesis by (rule wp_mono) (auto intro: conserves_trans [OF v'])
      next
        case (Some r)
        with step z v' show ?thesis by auto
      qed
    qed
  qed
  with assms show ?thesis by blast
qed

section \<open>Sending ends\<close>

lemma finitely_many_packetsD:
  assumes "finitely_many_packets X left"
  shows "ngtcp2_conn_writev_stream X sid fin datav ts w = ((nwrite, wdatalen, pkt), w') \<Longrightarrow>
      0 < sint nwrite \<or> nwrite = NGTCP2_ERR_WRITE_MORE X \<Longrightarrow> left w' < left w"
    "sendmsg X fd pkt w = (r, w') \<Longrightarrow> left w' \<le> left w"
    "sendmsg X fd pkt w = (Inl EINTR, w') \<Longrightarrow> left w' < left w"
  using assms unfolding finitely_many_packets_def by (blast, metis snd_conv, blast)

lemma sendmsg_retry_returns:
  assumes fin: "finitely_many_packets X left"
  shows "\<exists>r w'. sendmsg_retry X fd pkt w = Some (r, w') \<and> left w' \<le> left w"
proof (induction "left w" arbitrary: w rule: less_induct)
  case less
  obtain r w1 where s: "sendmsg X fd pkt w = (r, w1)" by force
  note le = finitely_many_packetsD(2) [OF fin s]
  show ?case
  proof (cases "r = Inl EINTR")
    case True
    with s have lt: "left w1 < left w" using finitely_many_packetsD(3) [OF fin] by blast
    with less obtain r' w' where "sendmsg_retry X fd pkt w1 = Some (r', w')" "left w' \<le> left w1" by blast
    with True s lt show ?thesis by (subst sendmsg_retry.simps) simp
  next
    case False
    with s le show ?thesis by (subst sendmsg_retry.simps) (cases r; simp)
  qed
qed

lemma flush_step_left:
  assumes fin: "finitely_many_packets X left"
  shows "wp (\<lambda>f. f = Null_Deref) (\<lambda>(r, v'). r = None \<longrightarrow> left (v_world v') < left (v_world v)) (flush_step X ts v)"
proof -
  obtain cnt stream fin' datav v1 where prep: "verifier_prep_vec 1 v = ((cnt, stream, fin', datav), v1)"
    by (metis surj_pair)
  then have w1: "v_world v1 = v_world v"
    by (auto simp: verifier_prep_vec_def Let_def split: if_splits)
  obtain nwrite wdatalen pkt w' where wr: "ngtcp2_conn_writev_stream X
      (if stream then qs_stream_id (v_slots v1 ! 0) else - 1) fin' datav ts (v_world v1) = ((nwrite, wdatalen, pkt), w')"
    by (metis surj_pair)
  note lt = finitely_many_packetsD(1) [OF fin wr, unfolded w1]
  have sent: "wp (\<lambda>f. f = Null_Deref) (\<lambda>(r, v'). left (v_world v') \<le> left (v_world u)) (verifier_send_packet X pkt u)" for u
    using sendmsg_retry_returns [OF fin, of "v_sock_fd u" pkt "v_world u"]
    by (auto simp: verifier_send_packet_def split: sum.splits)
  have nz: "\<not> sint nwrite < 0 \<Longrightarrow> nwrite \<noteq> 0 \<Longrightarrow> 0 < sint nwrite"
    by (metis linorder_neqE_linordered_idom sint_0 signed_word_eqI)
  have "wp (\<lambda>f. f = Null_Deref) (\<lambda>(r, v'). r = 0 \<longrightarrow> left (v_world v') < left (v_world v)) (verifier_send_packet X pkt u)"
    if "v_world u = w'" "0 < sint nwrite" for u
    using wp_mono [OF sent [of u]] lt that by fastforce
  then show ?thesis
    using lt nz by (auto simp: flush_step_eq [OF prep wr refl] world_advance)
qed

lemma flush_loop_returns:
  assumes fin: "finitely_many_packets X left"
  shows "\<exists>y. flush_loop X ts v = Some y \<and> y \<noteq> Inl Diverges"
proof (induction "left (v_world v)" arbitrary: v rule: less_induct)
  case less
  note c = flush_step_left [OF fin, of v ts]
  show ?case
  proof (cases "flush_step X ts v")
    case (Inl f)
    with c show ?thesis by (subst flush_loop.simps) simp
  next
    case (Inr z)
    then obtain r v' where z: "flush_step X ts v = Inr (r, v')" by (cases z) simp
    show ?thesis
    proof (cases r)
      case None
      with c z have "left (v_world v') < left (v_world v)" by simp
      from less [OF this] None z show ?thesis by (subst flush_loop.simps) simp
    next
      case (Some r)
      with z show ?thesis by (subst flush_loop.simps) simp
    qed
  qed
qed

section \<open>Requests\<close>

text \<open>The clock can be read, so \<open>timestamp\<close> does not abort.\<close>

definition clock_works :: "'w quic \<Rightarrow> bool" where
  "clock_works X \<longleftrightarrow> (\<forall>w. fst (clock_gettime X w) \<noteq> None)"

lemma timestamp_works:
  assumes "clock_works X" "counts_accepted X acc"
  obtains ts w' where "timestamp X w = Inr (ts, w')" "acc w' = acc w"
proof -
  obtain r w' where c: "clock_gettime X w = (r, w')" by force
  moreover have "fst (clock_gettime X w) \<noteq> None" using assms(1) unfolding clock_works_def by blast
  ultimately obtain sec nsec where "clock_gettime X w = (Some (sec, nsec), w')" by auto
  moreover have "acc w' = acc w" using counts_acceptedD(3) [OF assms(2), of w] c by simp
  ultimately show ?thesis by (intro that [of "sec * NGTCP2_SECONDS + nsec" w']) (simp_all add: timestamp_def)
qed

lemma conserves_world: "slots_ok v \<Longrightarrow> acc w = acc (v_world v) \<Longrightarrow> conserves acc v (v\<lparr>v_world := w\<rparr>)"
  using slots_cong [of "v\<lparr>v_world := w\<rparr>" v] by (simp add: conserves_def)

lemma flush_out_total:
  assumes X: "writev_documented X" "counts_accepted X acc" "finitely_many_packets X left" "clock_works X"
    and v: "slots_ok v" "v_conn v"
  shows "\<exists>r v'. verifier_flush_out X v = Inr (r, v') \<and> conserves acc v v'"
proof -
  obtain ts w' where ts: "timestamp X (v_world v) = Inr (ts, w')" "acc w' = acc (v_world v)"
    using timestamp_works [OF X(4,2)] by blast
  note c = conserves_world [OF v(1) ts(2)]
  let ?v = "v\<lparr>v_world := w'\<rparr>"
  obtain y where y: "flush_loop X ts ?v = Some y" "y \<noteq> Inl Diverges"
    using flush_loop_returns [OF X(3)] by blast
  have "slots_ok ?v" using c by (simp add: conserves_def)
  from flush_loop_conserves [OF X(1,2) this y(1)] y(2) obtain r v' where "y = Inr (r, v')" "conserves acc ?v v'"
    by (cases y) auto
  with c ts y(1) v(2) show ?thesis by (auto simp: verifier_flush_out_def intro: conserves_trans)
qed

lemma quic_flush_total:
  assumes X: "writev_documented X" "counts_accepted X acc" "finitely_many_packets X left" "clock_works X"
    and v: "slots_ok v" "v_conn v"
  shows "\<exists>t v'. verifier_quic_flush X v = Inr (t, v') \<and> conserves acc v v'"
proof -
  obtain r v1 where f: "verifier_flush_out X v = Inr (r, v1)" "conserves acc v v1"
    using flush_out_total [OF assms] by blast
  obtain ts w' where ts: "timestamp X (v_world v1) = Inr (ts, w')" "acc w' = acc (v_world v1)"
    using timestamp_works [OF X(4,2)] by blast
  have "conserves acc v (v1\<lparr>v_world := w'\<rparr>)"
    using f(2) conserves_world [of v1 acc w'] ts(2) by (auto simp: conserves_def)
  with f ts(1) show ?thesis by (cases "r = 0") (simp_all add: verifier_quic_flush_def Let_def)
qed

lemma get_slot_opens:
  assumes v: "slots_ok v" "v_conn v" and op: "ngtcp2_conn_open_bidi_stream X (v_world v) = ((0, sid), w)"
  obtains v1 where "verifier_quic_get_slot X v = Inr (0, v1)" "slots_ok v1" "v_world v1 = w" "v_conn v1"
    "slot0 v1 = (slot0 v)\<lparr>qs_stream_id := sid\<rparr>" "qs_datalen (slot0 v1) = qs_datalen (slot0 v)"
proof -
  let ?v1 = "v\<lparr>v_world := w, v_slots := (v_slots v)[0 := (v_slots v ! 0)\<lparr>qs_stream_id := sid\<rparr>]\<rparr>"
  have g: "verifier_quic_get_slot X v = Inr (0, ?v1)"
    using v op by (simp add: verifier_quic_get_slot_def Let_def)
  have s1: "slot0 ?v1 = (slot0 v)\<lparr>qs_stream_id := sid\<rparr>"
    using slots_nonempty [OF v(1)] by (simp add: slot0_def)
  with v(1) have ok1: "slots_ok ?v1" by (simp add: slots_ok_def)
  show ?thesis by (rule that [OF g ok1 _ _ s1]) (simp_all add: s1 v(2))
qed

lemma slot_writev_full:
  "STREAM_DATA_SIZE < unat (qs_datalen (slot0 v)) + unat n \<Longrightarrow> verifier_quic_slot_writev 0 src n v = Inl Out_Of_Bounds"
  by (simp add: verifier_quic_slot_writev_def slot0_def Let_def)

lemma unat_scast_neg:
  assumes "sint (r :: i32) < 0"
  shows "2 ^ 63 \<le> unat (scast r :: u64)"
proof -
  have ge: "- (2 ^ 31) \<le> sint r" using sint_ge [of r] by simp
  have "uint (scast r :: u64) = take_bit 64 (sint r)" by transfer simp
  also have "\<dots> = sint r mod 2 ^ 64" by (rule take_bit_eq_mod)
  also have "\<dots> = (sint r + 2 ^ 64) mod 2 ^ 64" by simp
  also have "\<dots> = sint r + 2 ^ 64" using assms ge by (intro mod_pos_pos_trivial) auto
  finally show ?thesis using ge by (simp add: unat_eq_nat_uint)
qed

text \<open>A request is appended to what the slot still holds, which goes to the new stream.\<close>

lemma request_buffered:
  assumes v: "slots_ok v" "v_conn v" and op: "ngtcp2_conn_open_bidi_stream X (v_world v) = ((0, sid), w)"
    and len: "unat hl \<le> length hash" "unat pl \<le> length path"
    and fit: "unat (qs_datalen (slot0 v)) + unat hl + unat pl \<le> STREAM_DATA_SIZE"
  obtains v1 v2 v3 where "verifier_quic_get_slot X v = Inr (0, v1)" "verifier_quic_slot_writev 0 hash hl v1 = Inr v2"
    "verifier_quic_slot_writev 0 path pl v2 = Inr v3" "slots_ok v3" "v_conn v3" "v_world v3 = w"
    "unsent v3 = unsent v @ take (unat hl) hash @ take (unat pl) path" "qs_stream_id (slot0 v3) = sid"
proof -
  obtain v1 where g: "verifier_quic_get_slot X v = Inr (0, v1)" and v1: "slots_ok v1" "v_world v1 = w" "v_conn v1"
      and s1: "slot0 v1 = (slot0 v)\<lparr>qs_stream_id := sid\<rparr>"
    by (rule get_slot_opens [OF v op])
  have "unat (qs_datalen (slot0 v1)) + unat hl \<le> STREAM_DATA_SIZE" using fit s1 by simp
  from slot_writev_eq [OF v1(1) len(1) this] obtain v2 where v2: "verifier_quic_slot_writev 0 hash hl v1 = Inr v2" "slots_ok v2"
      "take (unat (qs_datalen (slot0 v2))) (qs_data (slot0 v2)) = take (unat (qs_datalen (slot0 v))) (qs_data (slot0 v)) @ take (unat hl) hash"
      "unat (qs_datalen (slot0 v2)) = unat (qs_datalen (slot0 v)) + unat hl"
      "qs_nwrite (slot0 v2) = qs_nwrite (slot0 v)" "qs_stream_id (slot0 v2) = sid" "v_conn v2" "v_world v2 = w"
    using v1(2,3) unfolding s1 by auto
  have "unat (qs_datalen (slot0 v2)) + unat pl \<le> STREAM_DATA_SIZE" using fit v2(4) by simp
  from slot_writev_eq [OF v2(2) len(2) this] obtain v3 where v3: "verifier_quic_slot_writev 0 path pl v2 = Inr v3" "slots_ok v3"
      "take (unat (qs_datalen (slot0 v3))) (qs_data (slot0 v3)) =
         take (unat (qs_datalen (slot0 v))) (qs_data (slot0 v)) @ take (unat hl) hash @ take (unat pl) path"
      "qs_nwrite (slot0 v3) = qs_nwrite (slot0 v)" "qs_stream_id (slot0 v3) = sid" "v_conn v3" "v_world v3 = w"
    using v2 by auto
  have "unat (qs_nwrite (slot0 v)) \<le> length (take (unat (qs_datalen (slot0 v))) (qs_data (slot0 v)))"
    using v(1) by (simp add: slots_ok_def word_le_nat_alt)
  then have "unsent v3 = unsent v @ take (unat hl) hash @ take (unat pl) path"
    by (simp add: unsent_def v3(3,4))
  from that [OF g v2(1) v3(1,2,6,7) this v3(5)] show ?thesis .
qed

text \<open>
  C9.  No byte of a request is lost, repeated or reordered: as long as the slot has room and a stream
  can be opened, \<open>verifier_verify_hash\<close> returns, and the bytes ngtcp2 has accepted so far followed
  by the bytes that wait in the slot have grown by exactly the hash and the path.
\<close>

theorem hash_request_conserved:
  assumes "writev_documented X" "counts_accepted X acc" "finitely_many_packets X left" "clock_works X"
    and "slots_ok v" "v_conn v" "ngtcp2_conn_open_bidi_stream X (v_world v) = ((0, sid), w)"
    and "unat hl \<le> length hash" "unat pl \<le> length path"
    and "unat (qs_datalen (slot0 v)) + unat hl + unat pl \<le> STREAM_DATA_SIZE"
  shows "\<exists>v'. verifier_verify_hash X pl path hl hash v = Inr v' \<and> slots_ok v'
    \<and> acc (v_world v') @ unsent v' = acc (v_world v) @ unsent v @ take (unat hl) hash @ take (unat pl) path"
proof -
  obtain v1 v2 v3 where b: "verifier_quic_get_slot X v = Inr (0, v1)" "verifier_quic_slot_writev 0 hash hl v1 = Inr v2"
      "verifier_quic_slot_writev 0 path pl v2 = Inr v3" "slots_ok v3" "v_conn v3" "v_world v3 = w"
      "unsent v3 = unsent v @ take (unat hl) hash @ take (unat pl) path"
    by (rule request_buffered [OF assms(5-10)])
  obtain t v4 where f: "verifier_quic_flush X v3 = Inr (t, v4)" "conserves acc v3 v4"
    using quic_flush_total [OF assms(1-4) b(4,5)] by blast
  have "acc w = acc (v_world v)"
    using counts_acceptedD(4) [OF assms(2), of "v_world v"] assms(7) by simp
  with b(6,7) f(2) have "slots_ok v4 \<and> acc (v_world v4) @ unsent v4 =
      acc (v_world v) @ unsent v @ take (unat hl) hash @ take (unat pl) path"
    by (simp add: conserves_def)
  moreover have "verifier_verify_hash X pl path hl hash v = Inr v4"
    by (simp add: verifier_verify_hash_def b f(1))
  ultimately show ?thesis by blast
qed

text \<open>
  C32.  Sending ends: if the connection has only finitely many packets to write and the socket is
  interrupted only finitely often, the loop of \<open>verifier_flush_out\<close> and the retry loop in it end.
\<close>

theorem flush_terminates:
  assumes "finitely_many_packets X left"
  shows "\<exists>y. flush_loop X ts v = Some y \<and> y \<noteq> Inl Diverges"
  using assms by (rule flush_loop_returns)

text \<open>
  C34.  Bytes change streams: what the slot still holds of an earlier request is sent first on the
  stream opened for the next one, together with the end-of-stream flag.
\<close>

theorem leftover_changes_stream:
  assumes "slots_ok v" "v_conn v" "ngtcp2_conn_open_bidi_stream X (v_world v) = ((0, sid), w)" "sid \<noteq> - 1"
    and "unat hl \<le> length hash" "unat pl \<le> length path" "unsent v \<noteq> []"
    and "unat (qs_datalen (slot0 v)) + unat hl + unat pl \<le> STREAM_DATA_SIZE"
  shows "\<exists>v1 v2 v3. verifier_quic_get_slot X v = Inr (0, v1) \<and> verifier_quic_slot_writev 0 hash hl v1 = Inr v2
    \<and> verifier_quic_slot_writev 0 path pl v2 = Inr v3 \<and> qs_stream_id (slot0 v3) = sid
    \<and> verifier_prep_vec 1 v3 = ((1, True, True, unsent v @ take (unat hl) hash @ take (unat pl) path), v3)"
proof -
  obtain v1 v2 v3 where b: "verifier_quic_get_slot X v = Inr (0, v1)" "verifier_quic_slot_writev 0 hash hl v1 = Inr v2"
      "verifier_quic_slot_writev 0 path pl v2 = Inr v3" "slots_ok v3" 
      "unsent v3 = unsent v @ take (unat hl) hash @ take (unat pl) path" "qs_stream_id (slot0 v3) = sid"
    by (rule request_buffered [OF assms(1-3,5,6,8)])
  have "qs_nwrite (slot0 v3) < qs_datalen (slot0 v3)"
    using b(5) assms(7) by (intro unsent_nonempty) simp
  then have "\<exists>d v'. verifier_prep_vec 1 v3 = ((1, True, True, d), v')"
    using b(6) assms(4) by (simp add: verifier_prep_vec_def slot0_def Let_def)
  with prep_vec_unsent [OF b(4)] have "verifier_prep_vec 1 v3 = ((1, True, True, unsent v3), v3)" by blast
  with b show ?thesis by (intro exI [of _ v1] exI [of _ v2] exI [of _ v3]) simp
qed

text \<open>
  C33.  When a request fails: without a connection, \<open>verifier_verify_hash\<close> dereferences a null pointer;
  when no stream can be opened (ngtcp2 returns a negative error code), the error code is used as the
  index of the slot; and a request that does not fit behind what the slot still holds is written
  past the end of the slot.
\<close>

theorem verify_hash_faults:
  assumes "slots_ok v"
  shows "(\<not> v_conn v \<longrightarrow> verifier_verify_hash X pl path hl hash v = Inl Null_Deref)
    \<and> (v_conn v \<and> ngtcp2_conn_open_bidi_stream X (v_world v) = ((rv, sid), w) \<and> sint rv < 0 \<longrightarrow>
         verifier_verify_hash X pl path hl hash v = Inl Out_Of_Bounds)
    \<and> (v_conn v \<and> ngtcp2_conn_open_bidi_stream X (v_world v) = ((0, sid), w)
         \<and> STREAM_DATA_SIZE < unat (qs_datalen (slot0 v)) + unat hl + unat pl
         \<and> unat hl \<le> length hash \<and> unat pl \<le> length path \<longrightarrow>
         verifier_verify_hash X pl path hl hash v = Inl Out_Of_Bounds)"
proof (intro conjI impI; (elim conjE)?)
  show "verifier_verify_hash X pl path hl hash v = Inl Null_Deref" if "\<not> v_conn v"
    using that by (simp add: verifier_verify_hash_def verifier_quic_get_slot_def)
next
  assume c: "v_conn v" and op: "ngtcp2_conn_open_bidi_stream X (v_world v) = ((rv, sid), w)" and neg: "sint rv < 0"
  have "rv \<noteq> 0" using neg by auto
  with c op have "verifier_quic_get_slot X v = Inr (rv, v\<lparr>v_world := w\<rparr>)"
    by (simp add: verifier_quic_get_slot_def Let_def)
  moreover have "MAX_CONCURRENT_WRITES \<le> unat (scast rv :: u64)"
    using unat_scast_neg [OF neg] by (simp add: MAX_CONCURRENT_WRITES_def)
  ultimately show "verifier_verify_hash X pl path hl hash v = Inl Out_Of_Bounds"
    by (simp add: verifier_verify_hash_def verifier_quic_slot_writev_def Let_def)
next
  assume c: "v_conn v" and op: "ngtcp2_conn_open_bidi_stream X (v_world v) = ((0, sid), w)"
    and big: "STREAM_DATA_SIZE < unat (qs_datalen (slot0 v)) + unat hl + unat pl"
    and len: "unat hl \<le> length hash" "unat pl \<le> length path"
  obtain v1 where g: "verifier_quic_get_slot X v = Inr (0, v1)" and v1: "slots_ok v1" "qs_datalen (slot0 v1) = qs_datalen (slot0 v)"
    using get_slot_opens [OF assms c op] by blast
  show "verifier_verify_hash X pl path hl hash v = Inl Out_Of_Bounds"
  proof (cases "unat (qs_datalen (slot0 v1)) + unat hl \<le> STREAM_DATA_SIZE")
    case True
    from slot_writev_eq [OF v1(1) len(1) True] obtain v2 where v2: "verifier_quic_slot_writev 0 hash hl v1 = Inr v2"
        "unat (qs_datalen (slot0 v2)) = unat (qs_datalen (slot0 v1)) + unat hl" by blast
    from big v1(2) v2(2) have "verifier_quic_slot_writev 0 path pl v2 = Inl Out_Of_Bounds"
      by (intro slot_writev_full) simp
    with g v2(1) show ?thesis by (simp add: verifier_verify_hash_def)
  next
    case False
    then have "verifier_quic_slot_writev 0 hash hl v1 = Inl Out_Of_Bounds" by (intro slot_writev_full) simp
    with g show ?thesis by (simp add: verifier_verify_hash_def)
  qed
qed

section \<open>The timer\<close>

lemma sint_neg_iff_64: "sint (t :: i64) < 0 \<longleftrightarrow> 2 ^ 63 \<le> unat t"
proof (cases "sint t < 0")
  case True
  have ge: "- (2 ^ 63) \<le> sint t" using sint_ge [of t] by simp
  have "uint t = uint (word_of_int (sint t) :: i64)" by simp
  also have "\<dots> = sint t mod 2 ^ 64" by (simp only: uint_word_of_int) simp
  also have "\<dots> = (sint t + 2 ^ 64) mod 2 ^ 64" by simp
  also have "\<dots> = sint t + 2 ^ 64" using True ge by (intro mod_pos_pos_trivial) auto
  finally have "int (unat t) = sint t + 2 ^ 64" by simp
  with ge have "int (2 ^ 63) \<le> int (unat t)" by simp
  then have "2 ^ 63 \<le> unat t" by (simp only: of_nat_le_iff)
  with True show ?thesis by blast
next
  case False
  have "sint t < 2 ^ 63" using sint_lt [of t] by simp
  moreover have "unat t = nat (sint t)" using False by (intro unat_sint_64) simp
  ultimately have "unat t < 2 ^ 63" by (simp add: nat_less_iff)
  with False show ?thesis by linarith
qed

lemma req_upd_expiry [simp]: "v_expiry (p_verifier (req_upd ptr f p)) = v_expiry (p_verifier p)"
  by (cases ptr) simp_all

lemma get_req_verifier: "processor_get_req p = Inr (i, p') \<Longrightarrow> p_verifier p' = p_verifier p"
  by (auto simp: processor_get_req_def Let_def split: option.splits if_splits)

lemma iou_submit_verifier: "iou_submit ptr p = Inr p' \<Longrightarrow> p_verifier p' = p_verifier p"
  by (auto simp: iou_submit_def split: sum.splits prod.splits)

lemma iou_submit_returns: "\<exists>p'. iou_submit ptr p = Inr p'"
  using ev__iou_submit_ok by (fastforce simp: iou_submit_def ev_iou_req_def ev__iou_put_def Let_def)

lemma arm_timer_expiry: "arm_timer p = Inr (ptr, p') \<Longrightarrow> v_expiry (p_verifier p') = v_expiry (p_verifier p)"
  by (auto simp: arm_timer_def dest!: get_req_verifier simp del: req_upd.simps split: if_splits)

lemma flush_egress_cases:
  assumes "verifier_quic_flush X (p_verifier p) = Inr (t, v)"
  shows "2 ^ 63 \<le> unat t \<Longrightarrow> verifier_flush_egress X p = Inl (Exit 1)"
    and "verifier_flush_egress X p = Inr p' \<Longrightarrow>
      v_expiry (p_verifier p') = (t div NGTCP2_SECONDS, t - t div NGTCP2_SECONDS * NGTCP2_SECONDS)"
  using assms by (auto simp: verifier_flush_egress_def sint_neg_iff_64 Let_def simp del: req_upd.simps
      dest!: arm_timer_expiry iou_submit_verifier split: if_splits)

text \<open>
  C35.  The timer is armed with the exact time left: seconds and nanoseconds are its quotient and
  remainder, and the nanoseconds are below one second.  A time left of \<open>2\<^sup>63\<close> nanoseconds or
  more, which \<open>ssize_t\<close> reads as a negative number, ends the program.
\<close>

theorem timer_split:
  assumes "verifier_quic_flush X (p_verifier p) = Inr (t, v)"
  shows "if 2 ^ 63 \<le> unat t then verifier_flush_egress X p = Inl (Exit 1)
    else \<forall>p' sec nsec. verifier_flush_egress X p = Inr p' \<and> v_expiry (p_verifier p') = (sec, nsec) \<longrightarrow>
      unat sec * 1000000000 + unat nsec = unat t \<and> unat nsec < 1000000000"
proof -
  have sec: "unat (t div NGTCP2_SECONDS) = unat t div 1000000000"
    by (simp add: unat_div NGTCP2_SECONDS_def)
  have "t - t div NGTCP2_SECONDS * NGTCP2_SECONDS = t mod NGTCP2_SECONDS"
    by (simp add: minus_div_mult_eq_mod)
  then have nsec: "unat (t - t div NGTCP2_SECONDS * NGTCP2_SECONDS) = unat t mod 1000000000"
    by (simp add: unat_mod NGTCP2_SECONDS_def)
  show ?thesis using flush_egress_cases [OF assms] sec nsec by auto
qed

text \<open>
  C36.  A connection without a pending timer ends the program: for it ngtcp2 reports the expiry time
  \<open>UINT64_MAX\<close>, the time left is too large, and the next flush exits.
\<close>

theorem no_timer_exits:
  assumes "verifier_flush_out X (p_verifier p) = Inr (0, v)" "ngtcp2_conn_get_expiry2 X (v_world v) = - 1"
    and "timestamp X (v_world v) = Inr (now, w)" "unat now < 2 ^ 63"
  shows "verifier_flush_egress X p = Inl (Exit 1)"
proof -
  have nlt: "\<not> - 1 < now" by (simp add: not_less)
  have "verifier_quic_flush X (p_verifier p) = Inr (- 1 - now, v\<lparr>v_world := w\<rparr>)"
    using assms(1-3) nlt by (simp add: verifier_quic_flush_def Let_def)
  moreover have "unat (- 1 - now) = 2 ^ 64 - 1 - unat now"
    using unat_sub [of now "- 1"] by (simp add: unsigned_minus_1_eq_mask mask_eq_exp_minus_1)
  ultimately show ?thesis using flush_egress_cases(1) assms(4) by fastforce
qed

section \<open>Witnesses\<close>

text \<open>
  A library that accepts up to 100 bytes with each packet.  Its world holds the bytes accepted and the
  number of packets the congestion window still allows.
\<close>

definition chunk_quic :: "(u8 list \<times> nat) quic" where
  "chunk_quic =
     \<lparr>ngtcp2_conn_open_bidi_stream = (\<lambda>w. ((0, 4), w)),
      ngtcp2_conn_writev_stream = (\<lambda>_ _ datav _ w.
        if datav = [] \<or> snd w = 0 then ((0, - 1, []), w)
        else ((1200, of_nat (min 100 (length datav)), []), (fst w @ take 100 datav, snd w - 1))),
      ngtcp2_conn_get_expiry2 = (\<lambda>_. - 1),
      ngtcp2_conn_handle_expiry = (\<lambda>_ w. (0, w)),
      ngtcp2_conn_read_pkt = (\<lambda>_ _ w. (0, w)),
      ngtcp2_conn_client_new = (\<lambda>_ _ _ _ w. (0, w)),
      liberr_code = (\<lambda>_. 1), tls_alert_code = (\<lambda>_. 2),
      NGTCP2_ERR_WRITE_MORE = - 240, NGTCP2_ERR_CRYPTO = - 227, NGTCP2_ERR_CALLBACK_FAILURE = - 502,
      clock_gettime = (\<lambda>w. (Some (10, 0), w)),
      RAND_bytes = (\<lambda>n w. (Some (replicate n 7), w)),
      sendmsg = (\<lambda>_ pkt w. (Inr (length pkt), w)),
      getsockname = (\<lambda>_ w. (0, w)), getaddrinfo = (\<lambda>w. (Inr 16, w)),
      ssl_setup = (\<lambda>w. ((True, True, True), w))\<rparr>"

lemma sint_min_64: "sint (of_nat (min 100 n) :: i64) = int (min 100 n)"
  by (simp only: signed_of_nat) (simp add: signed_take_bit_int_eq_self min_def)

lemma take_min_length: "take (min n (length xs)) xs = take n xs"
  by (cases "n \<le> length xs") (simp_all add: min_def)

lemma chunk_quic_documented:
  "writev_documented chunk_quic" "counts_accepted chunk_quic fst" "finitely_many_packets chunk_quic snd"
  "clock_works chunk_quic"
  by (auto simp: writev_documented_def counts_accepted_def finitely_many_packets_def clock_works_def accepted_def
      chunk_quic_def sint_min_64 take_min_length split: if_splits)

text \<open>A connected verifier with an empty slot, and one that still holds five bytes of an earlier request.\<close>

definition connected :: "'w \<Rightarrow> 'w verifier" where
  "connected w = (verifier_zero w)\<lparr>v_conn := True\<rparr>"

definition holding :: "'w \<Rightarrow> 'w verifier" where
  "holding w = (connected w)\<lparr>v_slots := (v_slots (connected w))[0 :=
     \<lparr>qs_stream_id = 0, qs_data = replicate 250 1, qs_datalen = 250, qs_nwrite = 245\<rparr>]\<rparr>"

lemma connected_simps [simp]:
  "slots_ok (connected w)" "v_conn (connected w)" "v_world (connected w) = w" "qs_datalen (slot0 (connected w)) = 0"
  "unsent (connected w) = []"
  by (simp_all add: connected_def verifier_zero_def slots_ok_def slot0_def unsent_def MAX_CONCURRENT_WRITES_def
      STREAM_DATA_SIZE_def)

theorem hash_request_conserved_witness:
  "\<exists>v'. verifier_verify_hash chunk_quic 100 (replicate 100 2) 32 (replicate 32 1) (connected ([], 5)) = Inr v'
     \<and> fst (v_world v') @ unsent v' = replicate 32 1 @ replicate 100 2"
proof -
  have "ngtcp2_conn_open_bidi_stream chunk_quic (v_world (connected ([], 5))) = ((0, 4), ([], 5))"
    by (simp add: chunk_quic_def)
  from hash_request_conserved [OF chunk_quic_documented connected_simps(1,2) this, of 32 "replicate 32 1" 100 "replicate 100 2"]
  show ?thesis by (auto simp: STREAM_DATA_SIZE_def)
qed

theorem flush_terminates_witness: "\<exists>y. flush_loop chunk_quic 0 (connected ([], 5)) = Some y \<and> y \<noteq> Inl Diverges"
  by (rule flush_terminates [OF chunk_quic_documented(3)])

lemma holding_simps [simp]:
  "slots_ok (holding w)" "v_conn (holding w)" "v_world (holding w) = w" "qs_datalen (slot0 (holding w)) = 250"
  "unsent (holding w) = replicate 5 1"
  by (simp_all add: holding_def connected_def verifier_zero_def slots_ok_def slot0_def unsent_def MAX_CONCURRENT_WRITES_def
      STREAM_DATA_SIZE_def)

theorem leftover_changes_stream_witness:
  "\<exists>v1 v2 v3. verifier_quic_get_slot chunk_quic (holding ([], 5)) = Inr (0, v1) \<and> verifier_quic_slot_writev 0 [7, 7] 2 v1 = Inr v2
    \<and> verifier_quic_slot_writev 0 [47] 1 v2 = Inr v3 \<and> qs_stream_id (slot0 v3) = 4
    \<and> verifier_prep_vec 1 v3 = ((1, True, True, [1, 1, 1, 1, 1, 7, 7, 47]), v3)"
proof -
  have op: "ngtcp2_conn_open_bidi_stream chunk_quic (v_world (holding ([], 5))) = ((0, 4), ([], 5))"
    by (simp add: chunk_quic_def)
  have five: "replicate 5 (1 :: u8) = [1, 1, 1, 1, 1]" by (simp add: numeral_eq_Suc)
  show ?thesis
    using leftover_changes_stream [OF holding_simps(1,2) op, of 2 "[7, 7]" 1 "[47]"]
    by (simp add: STREAM_DATA_SIZE_def five)
qed

theorem verify_hash_faults_witness:
  "verifier_verify_hash chunk_quic 1 [47] 32 (replicate 32 1) (verifier_zero ([], 5 :: nat)) = Inl Null_Deref
    \<and> verifier_verify_hash chunk_quic 1 [47] 32 (replicate 32 1) (holding ([], 5)) = Inl Out_Of_Bounds"
proof -
  have op: "ngtcp2_conn_open_bidi_stream chunk_quic (v_world (holding ([], 5))) = ((0, 4), ([], 5))"
    by (simp add: chunk_quic_def)
  have ok: "slots_ok (verifier_zero ([] :: u8 list, 5 :: nat))" "\<not> v_conn (verifier_zero ([] :: u8 list, 5 :: nat))"
    by (simp_all add: verifier_zero_def slots_ok_def slot0_def MAX_CONCURRENT_WRITES_def)
  show ?thesis
    using verify_hash_faults [OF ok(1), of chunk_quic 1 "[47]" 32 "replicate 32 1" 0 4 "([], 5)"] ok(2)
      verify_hash_faults [OF holding_simps(1), of "([], 5)" chunk_quic 1 "[47]" 32 "replicate 32 1" 0 4 "([], 5)"] op
    by (simp add: STREAM_DATA_SIZE_def)
qed

text \<open>A processor whose verifier is connected and has nothing to send.\<close>

definition idle_processor :: "(u8 list, u8 list \<times> nat) processor" where
  "idle_processor = (sample_processor [] ([], 5) 32)\<lparr>p_verifier := connected ([], 5)\<rparr>"

lemma idle_flush_out:
  assumes "\<And>sid fin ts w. ngtcp2_conn_writev_stream X sid fin [] ts w = ((0, - 1, []), w)"
    and "\<And>w. timestamp X w = Inr (now, w)"
  shows "\<exists>v. verifier_flush_out X (p_verifier idle_processor) = Inr (0, v) \<and> v_world v = ([], 5)"
  by (simp add: idle_processor_def verifier_flush_out_def assms flush_loop.simps flush_step_def verifier_prep_vec_def
      connected_def verifier_zero_def MAX_CONCURRENT_WRITES_def Let_def)

theorem no_timer_exits_witness: "verifier_flush_egress chunk_quic idle_processor = Inl (Exit 1)"
proof -
  have ts: "timestamp chunk_quic w = Inr (10000000000, w)" for w
    by (simp add: timestamp_def chunk_quic_def NGTCP2_SECONDS_def)
  obtain v where "verifier_flush_out chunk_quic (p_verifier idle_processor) = Inr (0, v)" "v_world v = ([], 5)"
    using idle_flush_out [of chunk_quic, OF _ ts] by (auto simp: chunk_quic_def)
  from no_timer_exits [OF this(1) _ ts] show ?thesis by (simp add: chunk_quic_def)
qed

theorem timer_split_witness:
  "let X = chunk_quic\<lparr>ngtcp2_conn_get_expiry2 := \<lambda>_. 12345678901\<rparr> in
   \<exists>p'. verifier_flush_egress X idle_processor = Inr p'
     \<and> unat (fst (v_expiry (p_verifier p'))) * 1000000000 + unat (snd (v_expiry (p_verifier p'))) = 2345678901
     \<and> unat (snd (v_expiry (p_verifier p'))) < 1000000000"
proof -
  let ?X = "chunk_quic\<lparr>ngtcp2_conn_get_expiry2 := \<lambda>_. 12345678901\<rparr>"
  have ts: "timestamp ?X w = Inr (10000000000, w)" for w
    by (simp add: timestamp_def chunk_quic_def NGTCP2_SECONDS_def)
  obtain v where v: "verifier_flush_out ?X (p_verifier idle_processor) = Inr (0, v)" "v_world v = ([], 5)"
    using idle_flush_out [of ?X, OF _ ts] by (auto simp: chunk_quic_def)
  then have f: "verifier_quic_flush ?X (p_verifier idle_processor) = Inr (2345678901, v\<lparr>v_world := ([], 5)\<rparr>)"
    by (simp add: verifier_quic_flush_def ts Let_def)
  from flush_frame [OF f] have "v_timer_req v = ev_io_req_zero"
    by (simp add: verifier_frame_def idle_processor_def connected_def verifier_zero_def)
  then obtain p' where p': "verifier_flush_egress ?X idle_processor = Inr p'"
    using sint_neg_iff_64 [of 2345678901] iou_submit_returns
    by (auto simp: verifier_flush_egress_def f arm_timer_def ev_io_req_zero_def IORING_OP_TIMEOUT_def Let_def)
  obtain sec nsec where e: "v_expiry (p_verifier p') = (sec, nsec)" by force
  with timer_split [OF f] p' show ?thesis by (auto simp: Let_def intro!: exI [of _ p'])
qed

end
