(* ===== verification/Client.thy ===== *)
theory Client
  imports Ride_Prelude C_Lib
begin

text \<open>
  The older QUIC client of the verifier, \<open>client.c\<close> and \<open>client.h\<close>, which is built on quiche and on a
  worker interface.  quiche, the sockets, the random source and the worker interface (\<open>worker.h\<close>) are
  not code of the repository: they are the fields of a record of functions on an external world.
  Logging is left out, and so are the statistics that are only logged.
\<close>

section \<open>External code\<close>

record addrinfo =
  ai_addrlen :: u32
  ai_addr :: "u8 list"

record quiche_config =
  application_protos :: string
  max_idle_timeout :: u64
  max_recv_udp_payload_size :: u64
  max_send_udp_payload_size :: u64
  initial_max_data :: u64
  initial_max_stream_data_bidi_local :: u64
  initial_max_stream_data_uni :: u64
  initial_max_streams_bidi :: u64
  initial_max_streams_uni :: u64
  disable_active_migration :: bool
  early_data :: bool

record 'w quiche =
  quiche_conn_send :: "'w \<Rightarrow> (i64 \<times> u8 list) \<times> 'w"
    \<comment> \<open>result and packet\<close>
  quiche_conn_recv :: "u8 list \<Rightarrow> 'w \<Rightarrow> i64 \<times> 'w"
  quiche_connect :: "u8 list \<Rightarrow> u8 list \<Rightarrow> quiche_config \<Rightarrow> 'w \<Rightarrow> bool \<times> 'w"
    \<comment> \<open>source connection id, remote address; whether a connection is returned\<close>
  quiche_conn_free :: "'w \<Rightarrow> 'w"
  quiche_conn_is_closed :: "'w \<Rightarrow> bool"
  quiche_conn_is_established :: "'w \<Rightarrow> bool"
  quiche_conn_send_ack_eliciting :: "'w \<Rightarrow> 'w"
  quiche_conn_on_timeout :: "'w \<Rightarrow> 'w"
  quiche_conn_timeout_as_millis :: "'w \<Rightarrow> u64"
  quiche_conn_stream_send :: "u64 \<Rightarrow> u8 list \<Rightarrow> bool \<Rightarrow> 'w \<Rightarrow> i64 \<times> 'w"
    \<comment> \<open>stream id, data, FIN flag\<close>
  quiche_config_new :: quiche_config
  QUICHE_ERR_DONE :: i64
  sendto :: "i32 \<Rightarrow> u8 list \<Rightarrow> 'w \<Rightarrow> i64 \<times> 'w"
  recvfrom :: "i32 \<Rightarrow> 'w \<Rightarrow> (nat + u8 list) \<times> 'w"
    \<comment> \<open>\<open>Inl\<close> the error number, or \<open>Inr\<close> a datagram of at most 65535 bytes\<close>
  getaddrinfo :: "'w \<Rightarrow> addrinfo list option \<times> 'w"
  socket :: "addrinfo \<Rightarrow> 'w \<Rightarrow> i32 \<times> 'w"
  getsockname :: "i32 \<Rightarrow> 'w \<Rightarrow> i32 \<times> 'w"
  fcntl_nonblock :: "i32 \<Rightarrow> 'w \<Rightarrow> i32 \<times> 'w"
  getrandom :: "nat \<Rightarrow> 'w \<Rightarrow> u8 list option \<times> 'w"
  VBG_TIMEOUT :: i32
  VBG_RECV :: i32

definition EWOULDBLOCK :: nat where "EWOULDBLOCK = 11"

section \<open>State\<close>

definition RIDE_ALPN :: string where "RIDE_ALPN = CHR 0x07 # ''ride0.1''"
definition RIDE_ALPN_LEN :: nat where "RIDE_ALPN_LEN = 8"
definition MAX_DATAGRAM_SIZE :: u64 where "MAX_DATAGRAM_SIZE = 1350"
definition MAX_IDLE_TIMEOUT :: i64 where "MAX_IDLE_TIMEOUT = 1000"
definition RETRY_BACKOFF :: i64 where "RETRY_BACKOFF = 100"

text \<open>\<open>sizeof(struct sockaddr)\<close>, the type of \<open>client->remote_addr\<close>, and of \<open>struct sockaddr_storage\<close>\<close>

definition SOCKADDR_SIZE :: u32 where "SOCKADDR_SIZE = 16"
definition SOCKADDR_STORAGE_SIZE :: u32 where "SOCKADDR_STORAGE_SIZE = 128"

text \<open>
  \<open>c_quiche_conn\<close> says whether \<open>quiche_conn\<close> is not null.  \<open>c_remote_list\<close> is the global \<open>remote_addr\<close>, a linked
  list shared by all clients, and \<open>c_world\<close> the external world.
\<close>

record 'w client =
  c_quiche_conn :: bool
  c_quiche_config :: quiche_config
  c_remote_addr :: "u8 list"
  c_remote_addr_len :: u32
  c_local_addr_len :: u32
  c_scid :: "u8 list"
  c_stream_id :: u64
  c_sock_fd :: i32
  c_remote_list :: "addrinfo list"
  c_world :: 'w

text \<open>The part of \<open>struct job_generic\<close> and \<open>struct verifier_config\<close> that \<open>client.c\<close> uses.\<close>

datatype job_callback = Job_None | Client_Advance

record job_generic =
  job_callback :: job_callback

record verifier_config =
  requires_background_job :: bool

section \<open>Operations\<close>

definition client_verifier_config :: verifier_config where
  "client_verifier_config = \<lparr>requires_background_job = True\<rparr>"

definition client_init_addr :: "'w quiche \<Rightarrow> 'w client \<Rightarrow> 'w client res" where
  "client_init_addr Q c =
     (if c_remote_list c \<noteq> [] then Inr c
      else case getaddrinfo Q (c_world c) of
             (None, w') \<Rightarrow> Inl (Exit 1)
           | (Some ais, w') \<Rightarrow> Inr (c\<lparr>c_remote_list := ais, c_world := w'\<rparr>))"

text \<open>Every path through the body of the loop of \<open>flush_out\<close> returns.  The result is an \<open>int\<close>.\<close>

definition flush_out :: "'w quiche \<Rightarrow> 'w client \<Rightarrow> (i32 \<times> 'w client) res" where
  "flush_out Q c =
     (if \<not> c_quiche_conn c then Inl Null_Deref
      else case quiche_conn_send Q (c_world c) of
             ((n, out), w1) \<Rightarrow>
               if n = QUICHE_ERR_DONE Q then Inr (0, c\<lparr>c_world := w1\<rparr>)
               else if sint n < 0 then Inr (ucast n, c\<lparr>c_world := w1\<rparr>)
               else case sendto Q (c_sock_fd c) out w1 of
                      (n', w2) \<Rightarrow> Inr (ucast n', c\<lparr>c_world := w2\<rparr>))"

definition client_receive :: "'w quiche \<Rightarrow> 'w client \<Rightarrow> (i32 \<times> 'w client) res" where
  "client_receive Q c =
     (case recvfrom Q (c_sock_fd c) (c_world c) of
        (Inl errno, w1) \<Rightarrow>
          if errno = EWOULDBLOCK then Inr (- of_nat EWOULDBLOCK, c\<lparr>c_world := w1\<rparr>)
          else Inr (- 1, c\<lparr>c_world := w1\<rparr>)
      | (Inr buf, w1) \<Rightarrow>
          if \<not> c_quiche_conn c then Inl Null_Deref
          else case quiche_conn_recv Q buf w1 of
                 (n, w2) \<Rightarrow> Inr (if sint n < 0 then ucast n else 0, c\<lparr>c_world := w2\<rparr>))"

text \<open>\<open>client_process_receive\<close> compares the \<open>int\<close> results widened to \<open>ssize_t\<close>; \<open>None\<close> is a loop that never ends.\<close>

partial_function (option) client_process_receive ::
  "'w quiche \<Rightarrow> 'w client \<Rightarrow> (i32 \<times> 'w client) res option" where
  "client_process_receive Q c =
     (case client_receive Q c of
        Inl f \<Rightarrow> Some (Inl f)
      | Inr (r, c') \<Rightarrow>
          if r = - of_nat EWOULDBLOCK then Some (Inr (r, c'))
          else if (scast r :: i64) = QUICHE_ERR_DONE Q then Some (Inr (0, c'))
          else client_process_receive Q c')"

text \<open>The text of the connection id that is logged, with the comparison \<open>> 4\<close> of the source.\<close>

definition hexchars :: string where "hexchars = ''0123456789abcdef''"

definition scid_str :: "u8 list \<Rightarrow> string" where
  "scid_str scid = concat (map (\<lambda>b. [hexchars ! (if 4 < b then 1 else 0), hexchars ! unat (b AND 0x0F)]) scid)"

definition client_new_quiche_conn :: "'w quiche \<Rightarrow> 'w client \<Rightarrow> (i32 \<times> 'w client) res" where
  "client_new_quiche_conn Q c =
     (case getrandom Q 16 (c_world c) of
        (None, w1) \<Rightarrow> Inl (Exit 1)
      | (Some scid, w1) \<Rightarrow>
          (case quiche_connect Q scid (take (unat (c_remote_addr_len c)) (c_remote_addr c)) (c_quiche_config c) w1 of
             (conn, w2) \<Rightarrow>
               let c1 = c\<lparr>c_scid := scid, c_quiche_conn := conn, c_world := w2\<rparr> in
               if \<not> conn then Inr (- 1, c1) else Inr (0, c1)))"

definition client_init :: "'w quiche \<Rightarrow> 'w client \<Rightarrow> job_generic \<Rightarrow> 'w client \<times> job_generic" where
  "client_init Q c background_job =
     (c\<lparr>c_quiche_conn := False,
        c_quiche_config := (quiche_config_new Q)
          \<lparr>application_protos := take RIDE_ALPN_LEN RIDE_ALPN,
           max_idle_timeout := MAX_IDLE_TIMEOUT,
           max_recv_udp_payload_size := MAX_DATAGRAM_SIZE,
           max_send_udp_payload_size := MAX_DATAGRAM_SIZE,
           initial_max_data := 10000000,
           initial_max_stream_data_bidi_local := 10000000,
           initial_max_stream_data_uni := 10000000,
           initial_max_streams_bidi := 10000,
           initial_max_streams_uni := 10000,
           disable_active_migration := True,
           early_data := True\<rparr>,
        c_local_addr_len := SOCKADDR_STORAGE_SIZE, c_stream_id := 0\<rparr>,
      background_job\<lparr>job_callback := Client_Advance\<rparr>)"

text \<open>
  The loop of \<open>client_new_connection\<close>: it advances the global list, and leaves the result of the last
  call of \<open>socket\<close> in \<open>sock_fd\<close>.
\<close>

fun open_socket :: "'w quiche \<Rightarrow> addrinfo list \<Rightarrow> i32 \<Rightarrow> 'w client \<Rightarrow> (i32 \<times> 'w client) res" where
  "open_socket Q [] sock_fd c = Inr (sock_fd, c\<lparr>c_remote_list := []\<rparr>)"
| "open_socket Q (ai # ais) sock_fd c =
     (case socket Q ai (c_world c) of
        (fd, w') \<Rightarrow>
          let c1 = c\<lparr>c_world := w'\<rparr> in
          if sint fd < 0 then open_socket Q ais fd c1
          else if SOCKADDR_SIZE < ai_addrlen ai then Inl Out_Of_Bounds
          else Inr (fd, c1\<lparr>c_remote_addr := take (unat (ai_addrlen ai)) (ai_addr ai),
                           c_remote_addr_len := ai_addrlen ai, c_sock_fd := fd, c_remote_list := ai # ais\<rparr>))"

definition client_new_connection :: "'w quiche \<Rightarrow> 'w client \<Rightarrow> (i32 \<times> 'w client) res" where
  "client_new_connection Q c =
     bind_res (client_init_addr Q c) (\<lambda>c1.
     bind_res (open_socket Q (c_remote_list c1) 0 (c1\<lparr>c_remote_addr_len := 0\<rparr>)) (\<lambda>(sock_fd, c2).
       if sock_fd = 0 then Inl (Exit 1)
       else case getsockname Q (c_sock_fd c2) (c_world c2) of
              (r, w3) \<Rightarrow>
                if r \<noteq> 0 then Inl (Exit 1)
                else case fcntl_nonblock Q (c_sock_fd c2) w3 of
                       (r', w4) \<Rightarrow>
                         if r' \<noteq> 0 then Inl (Exit 1)
                         else bind_res (client_new_quiche_conn Q (c2\<lparr>c_world := w4\<rparr>))
                                (\<lambda>(r'', c5). Inr (if r'' \<noteq> 0 then 1 else 0, c5))))"

definition client_close_connection :: "'w quiche \<Rightarrow> 'w client \<Rightarrow> 'w client" where
  "client_close_connection Q c =
     c\<lparr>c_world := quiche_conn_free Q (c_world c), c_quiche_conn := False, c_sock_fd := 0\<rparr>"

text \<open>The time until the next call, in milliseconds.\<close>

definition advance_timeout :: "u64 \<Rightarrow> i64" where
  "advance_timeout millis =
     (let timeout = (if sint millis < sint (MAX_IDLE_TIMEOUT div 2) then millis else MAX_IDLE_TIMEOUT div 2) in
      if timeout = 0 then 1 else if sint timeout < 0 then RETRY_BACKOFF else timeout)"

text \<open>
  \<open>client_advance\<close>, once there is a connection.
\<close>

definition advance_conn :: "'w quiche \<Rightarrow> i32 \<Rightarrow> 'w client \<Rightarrow> (i64 \<times> 'w client) res" where
  "advance_conn Q flags c =
     (let c1 = (if flags AND VBG_TIMEOUT Q \<noteq> 0 then
                  c\<lparr>c_world := quiche_conn_on_timeout Q
                      (if quiche_conn_is_established Q (c_world c)
                       then quiche_conn_send_ack_eliciting Q (c_world c) else c_world c)\<rparr>
                else c) in
      bind_res (if flags AND VBG_RECV Q \<noteq> 0 then
                  (case client_process_receive Q c1 of None \<Rightarrow> Inl Diverges | Some r \<Rightarrow> r)
                else Inr (0, c1)) (\<lambda>(_, c2).
      bind_res (flush_out Q c2) (\<lambda>(_, c3).
        Inr (advance_timeout (quiche_conn_timeout_as_millis Q (c_world c3)), c3))))"

text \<open>
  \<open>client_advance\<close>: besides the result and the client, the value stored through \<open>out_sock_fd\<close>, if any.
\<close>

definition client_advance :: "'w quiche \<Rightarrow> i32 \<Rightarrow> 'w client \<Rightarrow> (i64 \<times> i32 option \<times> 'w client) res" where
  "client_advance Q flags c =
     (if c_quiche_conn c \<and> quiche_conn_is_closed Q (c_world c) then
        Inr (RETRY_BACKOFF, Some 0, client_close_connection Q c)
      else if \<not> c_quiche_conn c then
        bind_res (client_new_connection Q c) (\<lambda>(r, c1).
          if r \<noteq> 0 then Inr (RETRY_BACKOFF, None, c1)
          else bind_res (advance_conn Q flags c1) (\<lambda>(t, c2). Inr (t, Some (c_sock_fd c1), c2)))
      else bind_res (advance_conn Q flags c) (\<lambda>(t, c1). Inr (t, None, c1)))"

text \<open>\<open>payload\<close> is the whole array of the job.\<close>

definition client_verify_request :: "'w quiche \<Rightarrow> u8 list \<Rightarrow> 'w client \<Rightarrow> (i32 \<times> 'w client) res" where
  "client_verify_request Q payload c =
     (if \<not> c_quiche_conn c \<or> \<not> quiche_conn_is_established Q (c_world c) \<or> quiche_conn_is_closed Q (c_world c) then
        Inr (- 1, c)
      else case quiche_conn_stream_send Q (c_stream_id c) payload True (c_world c) of
             (n, w1) \<Rightarrow>
               if sint n < 0 \<and> n \<noteq> QUICHE_ERR_DONE Q then Inr (0, c\<lparr>c_world := w1\<rparr>)
               else bind_res (flush_out Q (c\<lparr>c_world := w1, c_stream_id := c_stream_id c + 2\<rparr>)) (\<lambda>(_, c1). Inr (0, c1)))"

section \<open>The time until the next call\<close>

lemma sint_small: "sint (1 :: i64) = 1" "sint (500 :: i64) = 500" "sint (100 :: i64) = 100" "sint (0 :: i64) = 0"
  by simp_all

lemma advance_timeout_range: "1 \<le> sint (advance_timeout millis) \<and> sint (advance_timeout millis) \<le> 500"
proof -
  have half: "MAX_IDLE_TIMEOUT div 2 = 500" by (simp add: MAX_IDLE_TIMEOUT_def)
  have "sint millis \<noteq> 0" if "millis \<noteq> 0" using that by (metis sint_0 signed_word_eqI)
  then show ?thesis
    by (auto simp: advance_timeout_def half Let_def RETRY_BACKOFF_def sint_small)
qed

text \<open>
  The older client always asks to be called again after 1 to 500 milliseconds, whatever state
  its connection is in and whatever timeout quiche reports.
\<close>

lemma advance_timeout_bounds:
  assumes "client_advance Q flags c = Inr (t, fd, c')"
  shows "1 \<le> sint t \<and> sint t \<le> 500"
  using assms advance_timeout_range
  by (auto simp: client_advance_def advance_conn_def Let_def RETRY_BACKOFF_def sint_small split: if_splits)

section \<open>Receiving\<close>

text \<open>
  \<open>QUICHE_ERR_DONE\<close> is \<open>-1\<close>, and a socket holds finitely many datagrams: \<open>pending w\<close> bounds their number.
\<close>

definition recv_documented :: "'w quiche \<Rightarrow> ('w \<Rightarrow> nat) \<Rightarrow> bool" where
  "recv_documented Q pending \<longleftrightarrow> QUICHE_ERR_DONE Q = - 1
     \<and> (\<forall>fd w buf w'. recvfrom Q fd w = (Inr buf, w') \<longrightarrow> pending w' < pending w)
     \<and> (\<forall>buf w. pending (snd (quiche_conn_recv Q buf w)) \<le> pending w)"

lemma client_receive_pending:
  assumes doc: "recv_documented Q pending" and run: "client_receive Q c = Inr (r, c')"
  shows "c_quiche_conn c' = c_quiche_conn c"
    "r = - of_nat EWOULDBLOCK \<or> r = - 1 \<or> pending (c_world c') < pending (c_world c)"
proof -
  show "c_quiche_conn c' = c_quiche_conn c"
    using run by (auto simp: client_receive_def split: sum.splits prod.splits if_splits)
  obtain z w1 where recv: "recvfrom Q (c_sock_fd c) (c_world c) = (z, w1)" by force
  show "r = - of_nat EWOULDBLOCK \<or> r = - 1 \<or> pending (c_world c') < pending (c_world c)"
  proof (cases z)
    case (Inl errno)
    with run recv show ?thesis by (auto simp: client_receive_def split: if_splits)
  next
    case (Inr buf)
    with recv doc have lt: "pending w1 < pending (c_world c)" unfolding recv_documented_def by blast
    obtain n w2 where q: "quiche_conn_recv Q buf w1 = (n, w2)" by force
    have "pending (snd (quiche_conn_recv Q buf w1)) \<le> pending w1"
      using doc unfolding recv_documented_def by blast
    with q lt have "pending w2 < pending (c_world c)" by simp
    with run recv Inr q show ?thesis by (auto simp: client_receive_def split: if_splits)
  qed
qed

text \<open>
  C27.  Reading the socket ends: when a datagram that \<open>recvfrom\<close> returns is no longer pending, and finitely many
  are, the loop of \<open>client_process_receive\<close> ends, whatever quiche answers to the packets; with a connection
  it returns 0 or \<open>-EWOULDBLOCK\<close> and never faults.
\<close>

theorem process_receive_terminates:
  assumes doc: "recv_documented Q pending"
  shows "\<exists>y. client_process_receive Q c = Some y
    \<and> (if c_quiche_conn c then \<exists>r c'. y = Inr (r, c') \<and> (r = 0 \<or> r = - of_nat EWOULDBLOCK) else True)"
proof (induction "pending (c_world c)" arbitrary: c rule: less_induct)
  case less
  show ?case
  proof (cases "client_receive Q c")
    case (Inl f)
    then have "\<not> c_quiche_conn c"
      by (auto simp: client_receive_def split: sum.splits prod.splits if_splits)
    with Inl show ?thesis by (subst client_process_receive.simps) simp
  next
    case (Inr z)
    then obtain r c' where r: "client_receive Q c = Inr (r, c')" by (cases z) simp
    note p = client_receive_pending [OF doc r]
    show ?thesis
    proof (cases "r = - of_nat EWOULDBLOCK \<or> (scast r :: i64) = QUICHE_ERR_DONE Q")
      case True
      with r show ?thesis by (subst client_process_receive.simps) auto
    next
      case False
      have "r \<noteq> - 1" using False doc by (auto simp: recv_documented_def)
      with False p(2) have "pending (c_world c') < pending (c_world c)" by blast
      from less [OF this] p(1) False r show ?thesis by (subst client_process_receive.simps) simp
    qed
  qed
qed

section \<open>Error paths\<close>

text \<open>A socket error reads as \<open>QUICHE_ERR_DONE\<close>, so reading ends with the result for success.\<close>

lemma recv_error_is_done:
  assumes "QUICHE_ERR_DONE Q = - 1" "recvfrom Q (c_sock_fd c) (c_world c) = (Inl errno, w)" "errno \<noteq> EWOULDBLOCK"
  shows "client_process_receive Q c = Some (Inr (0, c\<lparr>c_world := w\<rparr>))"
  using assms by (subst client_process_receive.simps) (simp add: client_receive_def EWOULDBLOCK_def)

text \<open>
  When no socket can be created, \<open>sock_fd\<close> is negative and not zero: the test for failure does not
  fire, and the client goes on with the descriptor of its previous connection.
\<close>

lemma open_socket_all_fail:
  assumes "\<And>ai w. ai \<in> set ais \<Longrightarrow> sint (fst (socket Q ai w)) < 0" "sint fd < 0"
  shows "\<exists>fd' w. open_socket Q ais fd c = Inr (fd', c\<lparr>c_remote_list := [], c_world := w\<rparr>) \<and> sint fd' < 0"
  using assms
proof (induction ais arbitrary: fd c)
  case Nil
  then show ?case by (intro exI [of _ fd] exI [of _ "c_world c"]) simp
next
  case (Cons ai ais)
  obtain fd1 w1 where s: "socket Q ai (c_world c) = (fd1, w1)" by force
  then have neg: "sint fd1 < 0" using Cons.prems(1) [of ai "c_world c"] by simp
  from Cons.IH [OF _ neg, of "c\<lparr>c_world := w1\<rparr>"] Cons.prems(1) s neg show ?case by simp
qed

text \<open>The first digit of every byte of the logged connection id is 0 or 1.\<close>

lemma scid_str_loses_digits: "scid_str [0x10] = scid_str [0xF0]"
  by (simp add: scid_str_def hexchars_def)

section \<open>Witnesses\<close>

text \<open>One datagram is pending; the world is the number of datagrams left.\<close>

definition sample_quiche :: "nat quiche" where
  "sample_quiche =
     \<lparr>quiche_conn_send = (\<lambda>w. ((- 1, []), w)), quiche_conn_recv = (\<lambda>_ w. (10, w)),
      quiche_connect = (\<lambda>_ _ _ w. (True, w)), quiche_conn_free = id,
      quiche_conn_is_closed = (\<lambda>_. False), quiche_conn_is_established = (\<lambda>_. True),
      quiche_conn_send_ack_eliciting = id, quiche_conn_on_timeout = id,
      quiche_conn_timeout_as_millis = (\<lambda>_. - 1), quiche_conn_stream_send = (\<lambda>_ bs _ w. (of_nat (length bs), w)),
      quiche_config_new = \<lparr>application_protos = [], max_idle_timeout = 0, max_recv_udp_payload_size = 65527,
        max_send_udp_payload_size = 1200, initial_max_data = 0, initial_max_stream_data_bidi_local = 0,
        initial_max_stream_data_uni = 0, initial_max_streams_bidi = 0, initial_max_streams_uni = 0,
        disable_active_migration = False, early_data = False\<rparr>,
      QUICHE_ERR_DONE = - 1, sendto = (\<lambda>_ bs w. (of_nat (length bs), w)),
      recvfrom = (\<lambda>_ w. if w = 0 then (Inl EWOULDBLOCK, w) else (Inr [1, 2], w - 1)),
      getaddrinfo = (\<lambda>w. (Some [\<lparr>ai_addrlen = 16, ai_addr = replicate 16 0\<rparr>], w)),
      socket = (\<lambda>_ w. (7, w)), getsockname = (\<lambda>_ w. (0, w)), fcntl_nonblock = (\<lambda>_ w. (0, w)),
      getrandom = (\<lambda>n w. (Some (replicate n 5), w)), VBG_TIMEOUT = 1, VBG_RECV = 2\<rparr>"

definition sample_client :: "nat client" where
  "sample_client =
     \<lparr>c_quiche_conn = False, c_quiche_config = quiche_config_new sample_quiche, c_remote_addr = replicate 16 0,
      c_remote_addr_len = 16, c_local_addr_len = 128, c_scid = replicate 16 0, c_stream_id = 0, c_sock_fd = 0,
      c_remote_list = [], c_world = 1\<rparr>"

theorem process_receive_terminates_witness:
  "\<exists>r c'. client_process_receive sample_quiche (sample_client\<lparr>c_quiche_conn := True\<rparr>) = Some (Inr (r, c'))
     \<and> (r = 0 \<or> r = - of_nat EWOULDBLOCK)"
proof -
  have "recv_documented sample_quiche id"
    by (auto simp: recv_documented_def sample_quiche_def split: if_splits)
  from process_receive_terminates [OF this, of "sample_client\<lparr>c_quiche_conn := True\<rparr>"] show ?thesis by auto
qed

end
