(* ===== verification/Ride_Log.thy ===== *)
theory Ride_Log
  imports C_Lib
begin

text \<open>
  \<open>log.h\<close>: the four logging functions, and \<open>log_printf\<close> of \<open>verifier_quic.h\<close>.  Their argument is the text the format and its arguments give.
  The time stamp comes from \<open>ctime_r\<close>, here on the broken-down local time.
\<close>

section \<open>Time stamps\<close>

record tm =
  tm_sec :: nat
  tm_min :: nat
  tm_hour :: nat
  tm_mday :: nat
  tm_mon :: nat
  tm_year :: int
  tm_wday :: nat

definition wday_name :: "nat \<Rightarrow> string" where
  "wday_name d = [''Sun'', ''Mon'', ''Tue'', ''Wed'', ''Thu'', ''Fri'', ''Sat''] ! d"

definition mon_name :: "nat \<Rightarrow> string" where
  "mon_name m = [''Jan'', ''Feb'', ''Mar'', ''Apr'', ''May'', ''Jun'', ''Jul'', ''Aug'', ''Sep'', ''Oct'', ''Nov'', ''Dec''] ! m"

text \<open>\<open>%3d\<close> and \<open>%.2d\<close>\<close>

definition pad :: "nat \<Rightarrow> char \<Rightarrow> string \<Rightarrow> string" where
  "pad n c s = replicate (n - length s) c @ s"

definition asctime_text :: "tm \<Rightarrow> string" where
  "asctime_text t =
     wday_name (tm_wday t) @ '' '' @ mon_name (tm_mon t) @ pad 3 CHR '' '' (show_nat (tm_mday t)) @ '' ''
     @ pad 2 CHR ''0'' (show_nat (tm_hour t)) @ '':'' @ pad 2 CHR ''0'' (show_nat (tm_min t)) @ '':''
     @ pad 2 CHR ''0'' (show_nat (tm_sec t)) @ '' '' @ show_int (1900 + tm_year t) @ [CHR 0x0A]"

text \<open>The text and its terminator must fit into 26 bytes; otherwise the result is a null pointer.\<close>

definition ctime_r :: "tm \<Rightarrow> string option" where
  "ctime_r t = (if length (asctime_text t) < 26 then Some (asctime_text t) else None)"

section \<open>Logging\<close>

datatype stdio = Stdout | Stderr

definition ESC :: char where "ESC = CHR 0x1B"

text \<open>
  Each function calls \<open>printf\<close> three times; other threads may print between the calls.  \<open>%.*s\<close> with the
  length minus one drops the line feed of the time stamp.
\<close>

definition stamped :: "stdio \<Rightarrow> string \<Rightarrow> string option \<Rightarrow> string \<Rightarrow> (stdio \<times> string) list res" where
  "stamped h label m msg =
     (case m of
        None \<Rightarrow> Inl Null_Deref
      | Some m \<Rightarrow> Inr [(h, ''['' @ take (length m - 1) m @ ''] '' @ label), (h, msg), (h, [CHR 0x0A])])"

definition log_trace :: "bool \<Rightarrow> tm \<Rightarrow> string \<Rightarrow> (stdio \<times> string) list res" where
  "log_trace LOG_TRACE t msg =
     (if LOG_TRACE then stamped Stdout ([ESC] @ ''[33mTRACE'' @ [ESC] @ ''[0m: '') (ctime_r t) msg else Inr [])"

definition log_debug :: "bool \<Rightarrow> bool \<Rightarrow> tm \<Rightarrow> string \<Rightarrow> (stdio \<times> string) list res" where
  "log_debug LOG_DEBUG LOG_TRACE t msg =
     (if LOG_DEBUG \<or> LOG_TRACE then stamped Stdout ([ESC] @ ''[34mDEBUG'' @ [ESC] @ ''[0m: '') (ctime_r t) msg
      else Inr [])"

definition log_info :: "tm \<Rightarrow> string \<Rightarrow> (stdio \<times> string) list res" where
  "log_info t msg = stamped Stdout ([ESC] @ ''[32mINFO'' @ [ESC] @ ''[0m;: '') (ctime_r t) msg"

definition log_error :: "tm \<Rightarrow> string \<Rightarrow> (stdio \<times> string) list res" where
  "log_error t msg = stamped Stderr ([ESC] @ ''[31mERROR'' @ [ESC] @ ''[0m: '') (ctime_r t) msg"

text \<open>\<open>log_printf\<close> of \<open>verifier_quic.h\<close>, which ngtcp2 calls for its own messages.\<close>

definition log_printf :: "bool \<Rightarrow> bool \<Rightarrow> string \<Rightarrow> (stdio \<times> string) list" where
  "log_printf LOG_DEBUG LOG_TRACE msg = (if LOG_DEBUG \<or> LOG_TRACE then [(Stderr, msg), (Stderr, [CHR 0x0A])] else [])"

section \<open>What a call writes\<close>

definition tm_ok :: "tm \<Rightarrow> bool" where
  "tm_ok t \<longleftrightarrow> tm_sec t \<le> 60 \<and> tm_min t < 60 \<and> tm_hour t < 24 \<and> 1 \<le> tm_mday t \<and> tm_mday t \<le> 31
     \<and> tm_mon t < 12 \<and> tm_wday t < 7"

lemma length_pad: "length (show_nat n) \<le> k \<Longrightarrow> length (pad k c (show_nat n)) = k"
  by (simp add: pad_def)

lemma name_lengths:
  "d < 7 \<Longrightarrow> length (wday_name d) = 3" "m < 12 \<Longrightarrow> length (mon_name m) = 3"
  by (auto simp: wday_name_def mon_name_def less_Suc_eq numeral_eq_Suc)

lemma length_asctime:
  assumes "tm_ok t"
  shows "length (asctime_text t) = 21 + length (show_int (1900 + tm_year t))"
proof -
  have two: "length (show_nat n) \<le> 2" if "n < 100" for n using length_show_nat [of n 1] that by simp
  from assms have "length (pad 3 CHR '' '' (show_nat (tm_mday t))) = 3" "length (pad 2 CHR ''0'' (show_nat (tm_hour t))) = 2"
    "length (pad 2 CHR ''0'' (show_nat (tm_min t))) = 2" "length (pad 2 CHR ''0'' (show_nat (tm_sec t))) = 2"
    using two [of "tm_mday t"] by (auto simp: tm_ok_def intro!: length_pad two)
  with assms name_lengths show ?thesis by (simp add: asctime_text_def tm_ok_def)
qed

lemma show_nat_long: "10 ^ k \<le> n \<Longrightarrow> k < length (show_nat n)"
proof (induction k arbitrary: n)
  case 0
  then show ?case by (subst show_nat.simps) simp
next
  case (Suc k)
  then have k: "10 ^ k \<le> n div 10" by (simp add: less_eq_div_iff_mult_less_eq mult.commute)
  have "1 \<le> (10 :: nat) ^ k" by simp
  with k have "\<not> n < 10" by (metis div_less not_one_le_zero order_trans)
  with k Suc.IH [of "n div 10"] show ?case by (subst show_nat.simps) simp
qed

lemma char_digit: "k < 10 \<Longrightarrow> char_of (48 + k :: nat) \<noteq> CHR 0x0A"
proof
  assume k: "k < 10" and "char_of (48 + k :: nat) = CHR 0x0A"
  then have "of_char (char_of (48 + k :: nat)) = (of_char (CHR 0x0A) :: nat)" by (simp only:)
  with k show False by simp
qed

lemma show_nat_newline: "CHR 0x0A \<notin> set (show_nat n)"
proof (induction n rule: less_induct)
  case (less n)
  show ?case
  proof (cases "n < 10")
    case True
    then show ?thesis using char_digit [of n] by (subst show_nat.simps) auto
  next
    case False
    with less [of "n div 10"] char_digit [of "n mod 10"] show ?thesis by (subst show_nat.simps) auto
  qed
qed

lemma names_mem:
  "d < 7 \<Longrightarrow> wday_name d \<in> {''Sun'', ''Mon'', ''Tue'', ''Wed'', ''Thu'', ''Fri'', ''Sat''}"
  "m < 12 \<Longrightarrow> mon_name m \<in>
    {''Jan'', ''Feb'', ''Mar'', ''Apr'', ''May'', ''Jun'', ''Jul'', ''Aug'', ''Sep'', ''Oct'', ''Nov'', ''Dec''}"
  unfolding wday_name_def mon_name_def list.set(2) [symmetric] list.set(1) [symmetric] by (rule nth_mem, simp)+

lemma names_newline:
  "d < 7 \<Longrightarrow> CHR 0x0A \<notin> set (wday_name d)" "m < 12 \<Longrightarrow> CHR 0x0A \<notin> set (mon_name m)"
  by (use names_mem(1) [of d] in fastforce, use names_mem(2) [of m] in fastforce)

lemma stamp_newline:
  assumes "tm_ok t"
  shows "CHR 0x0A \<notin> set (butlast (asctime_text t))"
proof -
  have "CHR 0x0A \<notin> set (wday_name (tm_wday t))" "CHR 0x0A \<notin> set (mon_name (tm_mon t))"
    using assms names_newline unfolding tm_ok_def by blast+
  moreover have "CHR 0x0A \<notin> set (pad n c (show_nat k))" if "c \<noteq> CHR 0x0A" for n c k
    using show_nat_newline [of k] that by (auto simp: pad_def)
  moreover have "CHR 0x0A \<notin> set (show_int y)" for y using show_nat_newline by (auto simp: show_int_def)
  ultimately show ?thesis unfolding asctime_text_def append_assoc [symmetric] butlast_snoc by simp
qed

text \<open>The four functions, with whether their compile-time switches leave them on and the stream they write to.\<close>

definition log_functions :: "bool \<Rightarrow> bool \<Rightarrow> ((tm \<Rightarrow> string \<Rightarrow> (stdio \<times> string) list res) \<times> bool \<times> stdio) set" where
  "log_functions DEBUG TRACE =
     {(log_trace TRACE, TRACE, Stdout), (log_debug DEBUG TRACE, DEBUG \<or> TRACE, Stdout),
      (log_info, True, Stdout), (log_error, True, Stderr)}"

text \<open>
  C40.  What a call of a logging function writes, for every message and every setting of the switches:
  nothing if the switches leave it out; otherwise, until the year 9999, a time stamp and a label without
  a line feed, the message as it is, and a line feed, to standard error for errors and to standard output
  otherwise, the time stamp fitting its buffer of 26 bytes.  So there is one line feed more than the message
  has, and a message that ends in one is followed by an empty line.  From the year 10000 on \<open>ctime_r\<close>
  fails, and the null pointer it returns is passed to \<open>strlen\<close>.
\<close>

theorem log_adds_line_feed:
  assumes "tm_ok t" "0 \<le> tm_year t" "(log, on, h) \<in> log_functions DEBUG TRACE"
  shows "if \<not> on then log t msg = Inr []
    else if 1900 + tm_year t \<le> 9999
    then \<exists>out pre. log t msg = Inr out \<and> concat (map snd out) = pre @ msg @ [CHR 0x0A] \<and> CHR 0x0A \<notin> set pre
      \<and> count_list (concat (map snd out)) (CHR 0x0A) = count_list msg (CHR 0x0A) + 1 \<and> fst ` set out = {h}
    else log t msg = Inl Null_Deref"
proof (cases on)
  case True
  let ?s = "asctime_text t" and ?y = "nat (1900 + tm_year t)"
  from assms(3) True obtain label where log: "log t msg = stamped h label (ctime_r t) msg" and label: "CHR 0x0A \<notin> set label"
    by (auto simp: log_functions_def log_trace_def log_debug_def log_info_def log_error_def ESC_def)
  have len: "length ?s = 21 + length (show_nat ?y)" using length_asctime [OF assms(1)] assms(2) by (simp add: show_int_def)
  show ?thesis
  proof (cases "1900 + tm_year t \<le> 9999")
    case year: True
    then have "length (show_nat ?y) \<le> 4" using length_show_nat [of ?y 3] by simp
    with len have c: "ctime_r t = Some ?s" by (simp add: ctime_r_def)
    let ?pre = "''['' @ take (length ?s - 1) ?s @ ''] '' @ label"
    have pre: "CHR 0x0A \<notin> set ?pre" using stamp_newline [OF assms(1)] label by (simp add: butlast_conv_take)
    then have "count_list (?pre @ msg @ [CHR 0x0A]) (CHR 0x0A) = count_list msg (CHR 0x0A) + 1"
      by (simp only: count_list_append count_notin) simp
    moreover have "log t msg = Inr [(h, ?pre), (h, msg), (h, [CHR 0x0A])]" using c log by (simp add: stamped_def)
    ultimately have "\<exists>out pre. log t msg = Inr out \<and> concat (map snd out) = pre @ msg @ [CHR 0x0A] \<and> CHR 0x0A \<notin> set pre
        \<and> count_list (concat (map snd out)) (CHR 0x0A) = count_list msg (CHR 0x0A) + 1 \<and> fst ` set out = {h}"
      using pre by (intro exI [of _ "[(h, ?pre), (h, msg), (h, [CHR 0x0A])]"] exI [of _ ?pre]) simp
    with True year show ?thesis by simp
  next
    case False
    then have "4 < length (show_nat ?y)" using show_nat_long [of 4 ?y] by simp
    with len have "ctime_r t = None" by (simp add: ctime_r_def)
    with True False log show ?thesis by (simp add: stamped_def)
  qed
next
  case False
  with assms(3) show ?thesis by (auto simp: log_functions_def log_trace_def log_debug_def)
qed

text \<open>\<open>on_queue_event\<close> passes a message with a line feed of its own.\<close>

theorem log_adds_line_feed_witness:
  "\<exists>out. log_error \<lparr>tm_sec = 5, tm_min = 4, tm_hour = 3, tm_mday = 2, tm_mon = 0, tm_year = 125, tm_wday = 4\<rparr>
       (''queue_event error: Invalid argument'' @ [CHR 0x0A]) = Inr out
     \<and> count_list (concat (map snd out)) (CHR 0x0A) = 2 \<and> fst ` set out = {Stderr}"
  using log_adds_line_feed [of "\<lparr>tm_sec = 5, tm_min = 4, tm_hour = 3, tm_mday = 2, tm_mon = 0, tm_year = 125, tm_wday = 4\<rparr>"
      log_error True Stderr False False "''queue_event error: Invalid argument'' @ [CHR 0x0A]"]
  by (auto simp: tm_ok_def log_functions_def)

end
