(* ===== verification/Verifier_Server.thy ===== *)
theory Verifier_Server
  imports Ride_Prelude
begin

text \<open>
  The verifier server, a Go program: \<open>main.go\<close> and \<open>server.go\<close> under \<open>src/verifier\<close>.  It listens on one
  address, accepts one connection, and prints what it receives on each stream.  The QUIC library
  and the certificate functions are parameters; \<open>None\<close> is a call that never returns.
\<close>

section \<open>Definitions\<close>

record 'w quic_go =
  generate_key :: "'w \<Rightarrow> bool \<times> 'w"
  create_certificate :: "'w \<Rightarrow> bool \<times> 'w"
  listen_addr :: "string \<Rightarrow> 'w \<Rightarrow> bool \<times> 'w"
  accept_conn :: "'w \<Rightarrow> (bool \<times> 'w) option"
  accept_stream :: "'w \<Rightarrow> (nat option \<times> 'w) option"
  read_all :: "nat \<Rightarrow> 'w \<Rightarrow> (u8 list option \<times> 'w) option"
  close_stream :: "nat \<Rightarrow> 'w \<Rightarrow> 'w"
  close_listener :: "'w \<Rightarrow> 'w"

text \<open>How the program ends, and what it prints; \<open>PrintDefaults\<close> lists the flags defined so far.\<close>

datatype go_end = Panic | Os_Exit nat

datatype go_out = Println string | Received "u8 list" | Flag_Message | PrintDefaults "string list"

text \<open>The endless loop of \<open>VerifierServer\<close>.\<close>

definition waiting :: go_out where "waiting = Println ''Waiting for a stream''"
definition accepted :: go_out where "accepted = Println ''Accepted stream''"

partial_function (option) serve :: "'w quic_go \<Rightarrow> 'w \<Rightarrow> go_out list \<Rightarrow> (go_end \<times> go_out list \<times> 'w) option" where
  "serve Q w out =
     (case accept_stream Q w of
        None \<Rightarrow> None
      | Some (None, w1) \<Rightarrow> Some (Panic, out @ [waiting], w1)
      | Some (Some s, w1) \<Rightarrow>
          (case read_all Q s w1 of
             None \<Rightarrow> None
           | Some (None, w2) \<Rightarrow> Some (Panic, out @ [waiting, accepted], w2)
           | Some (Some payload, w2) \<Rightarrow>
               serve Q (close_stream Q s w2) (out @ [waiting, accepted, Received payload])))"

text \<open>\<open>Inl\<close> is a panic.\<close>

definition generateTLSConfig :: "'w quic_go \<Rightarrow> 'w \<Rightarrow> 'w + 'w" where
  "generateTLSConfig Q w =
     (case generate_key Q w of
        (False, w1) \<Rightarrow> Inl w1
      | (True, w1) \<Rightarrow>
          (case create_certificate Q w1 of
             (False, w2) \<Rightarrow> Inl w2
           | (True, w2) \<Rightarrow> Inr w2))"

text \<open>A panic behind the \<open>defer\<close> closes the listener.  The argument \<open>dbPath\<close> is not used.\<close>

definition VerifierServer ::
  "'w quic_go \<Rightarrow> string \<Rightarrow> string \<Rightarrow> 'w \<Rightarrow> go_out list \<Rightarrow> (go_end \<times> go_out list \<times> 'w) option" where
  "VerifierServer Q addr dbPath w out =
     (case generateTLSConfig Q w of
        Inl w1 \<Rightarrow> Some (Panic, out, w1)
      | Inr w1 \<Rightarrow>
     (case listen_addr Q addr w1 of
        (False, w2) \<Rightarrow> Some (Panic, out, w2)
      | (True, w2) \<Rightarrow>
          let out1 = out @ [Println (''Listening on '' @ addr)] in
          map_option (\<lambda>(e, out', w'). (e, out', close_listener Q w'))
            (case accept_conn Q w2 of
               None \<Rightarrow> None
             | Some (False, w3) \<Rightarrow> Some (Panic, out1, w3)
             | Some (True, w3) \<Rightarrow> serve Q w3 out1)))"

text \<open>
  \<open>flag.Parse\<close> of the Go library with the string flags \<open>flags\<close> defined.  \<open>vals\<close> holds the flags set so far with their
  values, the last one last.  A flag is \<open>-name\<close> or \<open>--name\<close>, and its value follows after \<open>=\<close> or is the next
  argument; parsing ends at the first argument that is no flag, or after \<open>--\<close>.
\<close>

datatype flag_result =
    Flag_Help "(string \<times> string) list"
  | Flag_Error
  | Flag_Args "(string \<times> string) list" "string list"

fun flag_parse :: "string list \<Rightarrow> (string \<times> string) list \<Rightarrow> string list \<Rightarrow> flag_result" where
  "flag_parse flags vals [] = Flag_Args vals []"
| "flag_parse flags vals (s # rest) =
     (if length s < 2 \<or> hd s \<noteq> CHR ''-'' then Flag_Args vals (s # rest)
      else if s = ''--'' then Flag_Args vals rest
      else
        let arg = drop (if s ! 1 = CHR ''-'' then 2 else 1) s in
        if hd arg = CHR ''-'' \<or> hd arg = CHR ''='' then Flag_Error
        else
          let name = takeWhile (\<lambda>c. c \<noteq> CHR ''='') arg in
          if name \<notin> set flags then if name \<in> {''help'', ''h''} then Flag_Help vals else Flag_Error
          else if name \<noteq> arg then flag_parse flags (vals @ [(name, drop (length name + 1) arg)]) rest
          else case rest of
                 [] \<Rightarrow> Flag_Error
               | v # rest' \<Rightarrow> flag_parse flags (vals @ [(name, v)]) rest')"

definition usage :: "string list \<Rightarrow> go_out list" where
  "usage flags = [Println ''Usage: verifier [options]'', PrintDefaults flags]"

text \<open>
  \<open>main\<close>.  No flag is defined when the arguments are parsed; \<open>db\<close> is defined afterwards, with its default.
  A parse error ends the program with status 2, a request for help with status 0.
\<close>

definition verifier_main :: "'w quic_go \<Rightarrow> string list \<Rightarrow> 'w \<Rightarrow> (go_end \<times> go_out list \<times> 'w) option" where
  "verifier_main Q args w =
     (case flag_parse [] [] args of
        Flag_Help _ \<Rightarrow> Some (Os_Exit 0, usage [], w)
      | Flag_Error \<Rightarrow> Some (Os_Exit 2, Flag_Message # usage [], w)
      | Flag_Args _ rest \<Rightarrow>
          let dbPath = ''./store.db''
          in VerifierServer Q ''localhost:4433'' dbPath w (if rest \<noteq> [] then usage [''db''] else []))"

section \<open>What the server prints\<close>

text \<open>The streams with the payloads \<open>ps\<close> arrive, one after the other.\<close>

inductive receives :: "'w quic_go \<Rightarrow> 'w \<Rightarrow> u8 list list \<Rightarrow> 'w \<Rightarrow> bool" for Q where
  Nothing: "receives Q w [] w"
| Stream: "accept_stream Q w = Some (Some s, w1) \<Longrightarrow> read_all Q s w1 = Some (Some p, w2) \<Longrightarrow>
    receives Q (close_stream Q s w2) ps w' \<Longrightarrow> receives Q w (p # ps) w'"

definition stream_out :: "u8 list \<Rightarrow> go_out list" where
  "stream_out p = [waiting, accepted, Received p]"

definition stops :: "'w quic_go \<Rightarrow> 'w \<Rightarrow> go_out list \<Rightarrow> 'w \<Rightarrow> bool" where
  "stops Q w out w' \<longleftrightarrow> accept_stream Q w = Some (None, w') \<and> out = [waiting]
     \<or> (\<exists>s w1. accept_stream Q w = Some (Some s, w1) \<and> read_all Q s w1 = Some (None, w') \<and> out = [waiting, accepted])"

definition ended :: "'w quic_go \<Rightarrow> 'w \<Rightarrow> go_out list \<Rightarrow> go_end \<times> go_out list \<times> 'w \<Rightarrow> bool" where
  "ended Q w out r \<longleftrightarrow> fst r = Panic \<and> (\<exists>ps w' tail. receives Q w ps w' \<and> stops Q w' tail (snd (snd r))
     \<and> fst (snd r) = out @ concat (map stream_out ps) @ tail)"

lemma ended_stop: "stops Q w tail w' \<Longrightarrow> ended Q w out (Panic, out @ tail, w')"
  unfolding ended_def by (force intro: receives.Nothing)

lemma ended_stream:
  assumes "accept_stream Q w = Some (Some s, w1)" "read_all Q s w1 = Some (Some p, w2)"
    and "ended Q (close_stream Q s w2) (out @ stream_out p) r"
  shows "ended Q w out r"
proof -
  from assms(3) obtain ps w' tail where "fst r = Panic" and ps: "receives Q (close_stream Q s w2) ps w'"
    and "stops Q w' tail (snd (snd r))" "fst (snd r) = out @ concat (map stream_out (p # ps)) @ tail"
    by (auto simp: ended_def)
  with receives.Stream [OF assms(1,2) ps] show ?thesis unfolding ended_def by blast
qed

lemma serve_ends: "serve Q w out = Some r \<Longrightarrow> ended Q w out r"
proof (rule serve.raw_induct [where P = ended])
  fix serve' :: "'a quic_go \<Rightarrow> 'a \<Rightarrow> go_out list \<Rightarrow> (go_end \<times> go_out list \<times> 'a) option" and Q w out r
  assume IH: "\<And>Q w out r. serve' Q w out = Some r \<Longrightarrow> ended Q w out r"
    and r: "(case accept_stream Q w of
        None \<Rightarrow> None
      | Some (None, w1) \<Rightarrow> Some (Panic, out @ [waiting], w1)
      | Some (Some s, w1) \<Rightarrow>
          (case read_all Q s w1 of
             None \<Rightarrow> None
           | Some (None, w2) \<Rightarrow> Some (Panic, out @ [waiting, accepted], w2)
           | Some (Some payload, w2) \<Rightarrow>
               serve' Q (close_stream Q s w2) (out @ [waiting, accepted, Received payload]))) = Some r"
  from r consider (a) w1 where "accept_stream Q w = Some (None, w1)" "r = (Panic, out @ [waiting], w1)"
    | (b) s w1 w2 where "accept_stream Q w = Some (Some s, w1)" "read_all Q s w1 = Some (None, w2)"
        "r = (Panic, out @ [waiting, accepted], w2)"
    | (c) s w1 p w2 where "accept_stream Q w = Some (Some s, w1)" "read_all Q s w1 = Some (Some p, w2)"
        "serve' Q (close_stream Q s w2) (out @ stream_out p) = Some r"
    by (auto simp: stream_out_def split: option.splits prod.splits)
  then show "ended Q w out r"
  proof cases
    case a
    then show ?thesis using ended_stop [of Q w "[waiting]" w1 out] by (simp add: stops_def)
  next
    case b
    then show ?thesis using ended_stop [of Q w "[waiting, accepted]" w2 out] by (simp add: stops_def)
  next
    case c
    from ended_stream [OF c(1,2) IH [OF c(3)]] show ?thesis .
  qed
qed

lemma serve_receives:
  assumes "receives Q w ps w'" "stops Q w' tail w''"
  shows "serve Q w out = Some (Panic, out @ concat (map stream_out ps) @ tail, w'')"
  using assms
proof (induction arbitrary: out rule: receives.induct)
  case (Nothing w)
  then show ?case by (subst serve.simps) (auto simp: stops_def)
next
  case (Stream w s w1 p w2 ps w')
  then show ?case by (subst serve.simps) (simp add: stream_out_def [of p])
qed

text \<open>
  C38.  The loop of the verifier server ends only in a panic of the QUIC calls.  It ends exactly when,
  after the streams with some payloads \<open>ps\<close>, accepting or reading a stream fails; and then it has
  printed the payloads \<open>ps\<close>, each once and in the order the streams were accepted.
\<close>

theorem server_prints_streams:
  "serve Q w out = Some (e, out', w'') \<longleftrightarrow>
     e = Panic \<and> (\<exists>ps w' tail. receives Q w ps w' \<and> stops Q w' tail w'' \<and> out' = out @ concat (map stream_out ps) @ tail)"
  using serve_ends [of Q w out "(e, out', w'')"] serve_receives [of Q w _ _ _ w'' out]
  unfolding ended_def fst_conv snd_conv by blast

text \<open>Parsing only adds to the flags set.\<close>

lemma flag_parse_step:
  "(\<exists>rest. flag_parse flags vals args \<in> {Flag_Help vals, Flag_Error, Flag_Args vals rest})
   \<or> (\<exists>z xs. length xs < length args \<and> flag_parse flags vals args = flag_parse flags (vals @ [z]) xs)"
proof (cases args)
  case (Cons s rest)
  define arg where "arg = drop (if s ! 1 = CHR ''-'' then 2 else 1) s"
  define name where "name = takeWhile (\<lambda>c. c \<noteq> CHR ''='') arg"
  note parse = flag_parse.simps(2) [of flags vals s rest, unfolded Let_def, folded arg_def, folded name_def]
  let ?stop = "length s < 2 \<or> hd s \<noteq> CHR ''-'' \<or> s = ''--'' \<or> hd arg = CHR ''-'' \<or> hd arg = CHR ''='' \<or> name \<notin> set flags"
  consider ?stop | "\<not> ?stop" "name \<noteq> arg" | "\<not> ?stop" "name = arg" "rest = []"
    | v xs where "\<not> ?stop" "name = arg" "rest = v # xs" by (cases rest) blast+
  then show ?thesis
  proof cases
    case 1
    then have "\<exists>rest'. flag_parse flags vals args \<in> {Flag_Help vals, Flag_Error, Flag_Args vals rest'}"
      unfolding Cons parse by auto
    then show ?thesis ..
  next
    case 2
    then have "flag_parse flags vals args = flag_parse flags (vals @ [(name, drop (length name + 1) arg)]) rest"
      unfolding Cons parse by (simp del: flag_parse.simps)
    then show ?thesis unfolding Cons by (intro disjI2 exI conjI) simp_all
  next
    case 3
    then have "flag_parse flags vals args = Flag_Error" unfolding Cons parse by (simp del: flag_parse.simps)
    then show ?thesis by simp
  next
    case 4
    then have "flag_parse flags vals args = flag_parse flags (vals @ [(name, v)]) xs"
      unfolding Cons parse by (simp del: flag_parse.simps)
    with 4(3) show ?thesis unfolding Cons by (intro disjI2 exI conjI) simp_all
  qed
qed simp

lemma flag_parse_set:
  "vals \<noteq> [] \<Longrightarrow> case flag_parse flags vals args of
      Flag_Help vals' \<Rightarrow> vals' \<noteq> [] | Flag_Error \<Rightarrow> True | Flag_Args vals' _ \<Rightarrow> vals' \<noteq> []"
proof (induction "length args" arbitrary: vals args rule: less_induct)
  case less
  from flag_parse_step [of flags vals args] show ?case
  proof (elim disjE exE conjE)
    fix z xs
    assume "length xs < length args" and eq: "flag_parse flags vals args = flag_parse flags (vals @ [z]) xs"
    from less.hyps [OF this(1), of "vals @ [z]"] show ?thesis unfolding eq by simp
  qed (use less.prems in auto)
qed

text \<open>
  C39.  The database cannot be chosen.  For every command line, compare with what parsing it would give had
  \<open>db\<close> been defined before: where that sets \<open>db\<close>, and where it fails, the program ends with status 2 before it
  listens, and the usage message does not list the option; where it sets nothing, the program shows the
  usage for a request for help, and otherwise serves with the default database, even when there are
  superfluous arguments, among which a \<open>-db\<close> may be.
\<close>

theorem db_flag_rejected:
  "verifier_main Q args w =
     (case flag_parse [''db''] [] args of
        Flag_Args [] rest \<Rightarrow>
          VerifierServer Q ''localhost:4433'' ''./store.db'' w (if rest \<noteq> [] then usage [''db''] else [])
      | Flag_Help [] \<Rightarrow> Some (Os_Exit 0, usage [], w)
      | _ \<Rightarrow> Some (Os_Exit 2, Flag_Message # usage [], w))"
proof (cases args)
  case (Cons s rest)
  define arg where "arg = drop (if s ! 1 = CHR ''-'' then 2 else 1) s"
  define name where "name = takeWhile (\<lambda>c. c \<noteq> CHR ''='') arg"
  note parse = flag_parse.simps(2) [of _ _ s rest, unfolded Let_def, folded arg_def, folded name_def]
  have rejected: "(case flag_parse [''db''] [z] xs of
        Flag_Args [] rest \<Rightarrow> a rest
      | Flag_Help [] \<Rightarrow> b
      | _ \<Rightarrow> c) = c" for z xs a b and c :: "(go_end \<times> go_out list \<times> 'a) option"
    using flag_parse_set [of "[z]" "[''db'']" xs] by (auto split: flag_result.splits list.splits)
  show ?thesis
  proof (cases "length s < 2 \<or> hd s \<noteq> CHR ''-'' \<or> s = ''--'' \<or> hd arg = CHR ''-'' \<or> hd arg = CHR ''='' \<or> name \<noteq> ''db''")
    case True
    then have "flag_parse [''db''] [] args = flag_parse [] [] args"
        "\<exists>rest. flag_parse [] [] args \<in> {Flag_Help [], Flag_Error, Flag_Args [] rest}"
      unfolding Cons parse by auto
    then show ?thesis unfolding verifier_main_def by auto
  next
    case False
    then have "flag_parse [] [] args = Flag_Error" unfolding Cons parse by simp
    moreover have "flag_parse [''db''] [] args =
        (if name \<noteq> arg then flag_parse [''db''] [(name, drop (length name + 1) arg)] rest
         else case rest of [] \<Rightarrow> Flag_Error | v # rest' \<Rightarrow> flag_parse [''db''] [(name, v)] rest')"
      using False unfolding Cons parse by (simp del: flag_parse.simps cong: if_cong list.case_cong)
    then have "flag_parse [''db''] [] args = Flag_Error \<or> (\<exists>z xs. flag_parse [''db''] [] args = flag_parse [''db''] [z] xs)"
      by (cases "name \<noteq> arg"; cases rest) (simp_all only: if_True if_False list.case not_False_eq_True, blast+)
    ultimately show ?thesis unfolding verifier_main_def by (auto simp: rejected simp del: flag_parse.simps)
  qed
qed (simp add: verifier_main_def)

end
