(* ===== verification/Spec2Isabelle.thy ===== *)
theory Spec2Isabelle
  imports Ride_System Kernel_Abi Verifier_Correct Client Ride_Log Verifier_Server
begin

text \<open>
  Verification of \<open>ride\<close>, a file integrity monitor for Linux.  All sources named here are under
  \<open>src/src/\<close>.

  \<^bold>\<open>The program.\<close>  A BPF program in the kernel (\<open>ride.bpf.c\<close>) sees every file that is opened and puts
  the paths of the watched ones into a ring buffer.  The main thread (\<open>ride.c\<close>, \<open>main.c\<close>) parses the
  command line, loads the BPF program, starts the processor threads, and moves events from the ring
  buffer into a queue (\<open>queue.c\<close>), notifying one thread for each event through an eventfd.  A processor
  thread (\<open>processor.c\<close>) runs an event loop over io_uring (\<open>ev.c\<close>): it opens the file of an event, reads
  it block by block into a BLAKE3 hash (\<open>hasher.c\<close>), prints the digest, and on request sends it to a
  verifier over QUIC (\<open>verifier.c\<close>, \<open>verifier_quic.h\<close>).  \<open>client.c\<close> is an older QUIC client that the build
  does not use.

  \<^bold>\<open>Conventions.\<close>  C integers are words of their width; signed ones are read with \<^const>\<open>sint\<close>.  A
  function that can end the program or fault returns a \<open>res\<close>: \<open>Inl\<close> a value of the type \<open>fault\<close> (an exit
  with its status, a failing assertion, an access out of bounds or through a null pointer, a division
  by zero, a loop that never ends) or \<open>Inr\<close> what the C function returns.  State is passed explicitly, one
  record per C structure.  Loops with a bound are recursive functions with a termination proof.  Loops
  that may run forever (the main loop, the event loop, sending and receiving) are partial functions
  into \<open>option\<close>, where \<open>None\<close> means that the loop never ends; there is no fuel in the development, and
  theorems that say such a loop ends are stated as existence of its result.

  \<^bold>\<open>Parameters.\<close>  The kernel, libbpf, BLAKE3, ngtcp2, quiche, the TLS library, sockets, the clock and the
  random source are not code of the repository.  They are arguments: records of functions on an
  external world (\<open>blake3\<close>, \<open>quic\<close>, \<open>quiche\<close>), or records of the results of calls (\<open>iou_setup\<close>, \<open>thread_env\<close>,
  \<open>run_env\<close>).  What a theorem needs of them is a named hypothesis with their documented behaviour, such as
  \<open>writev_documented\<close>; each such theorem is followed by a witness with a concrete instance.

  \<^bold>\<open>Theories.\<close>

  \<^item> \<open>Ride_Prelude\<close>: integers, faults, \<open>bind_res\<close>, the rule \<open>wp\<close> for handlers, ring storage, and the locale
    \<open>bounded_fifo\<close>.  \<open>C_Lib\<close>: what the sources use of the C library (\<open>strncpy\<close>, \<open>strtoll\<close>, \<open>getopt\<close>, \<open>printf\<close>,
    eventfd).  \<open>Ride_Types\<close>: \<open>ride.h\<close>.

  \<^item> \<open>Bpf_Filter\<close>: \<open>ride.bpf.c\<close> with \<open>fs_requires_dev\<close>, \<open>in_watch_path\<close> and the hook \<open>ride\<close>.  What the hook does for
    every documented outcome of \<open>bpf_path_d_path\<close>; for a directory watch a failure of it is not noticed.

  \<^item> \<open>Ride_Config\<close>: \<open>parse_env\<close> and \<open>ride_stat\<close> of \<open>ride.c\<close>.  The accepted ranges of the options, the
    well-formedness of the arguments, and the end-to-end description of what the hook does for a given
    command line, with the error cases (watching the root directory, a path of 127 characters, one
    processor).

  \<^item> \<open>Event_Queue\<close>: \<open>queue.c\<close>, an interpretation of \<open>bounded_fifo\<close>; each operation refines one on a list of at
    most 8191 events.  \<open>Event_Feed\<close>: the callback \<open>ride_ringbuf_handle\<close> with the eventfd objects, and the
    interleaving of the threads around the queue; events are handed out in turn.  The locale
    \<open>feed_client\<close> is what the feed needs of a thread that uses it.

  \<^item> \<open>Ev_Loop\<close>: \<open>ev.c\<close>.  Submission and completion ring are interpretations of \<open>bounded_fifo\<close> for all values
    of the wrapping 32-bit indices.  The locale \<open>ev_client\<close> is what the loop needs of its callbacks.  A round of
    the loop takes what the kernel and the other threads do meanwhile as an argument; \<open>posts_only\<close> is the
    protocol of the completion ring that the kernel keeps.

  \<^item> \<open>Hasher\<close>: \<open>hasher.c\<close>.  \<open>Processor_Slab\<close>: the request slab of \<open>processor.c\<close>, with the locale \<open>req_pool\<close> as its
    contract.  \<open>Processor\<close>: all handlers, the setup, and \<open>processor_run\<close>; the handlers interpret \<open>ev_client\<close>,
    so one round of the loop is a fold over the completions that were there when it read the tail.

  \<^item> \<open>Processor_Safety\<close>: the invariant of a processor, kept by each handler.  \<open>Processor_System\<close>: the step
    relation of a processor and the kernel with every interleaving, and that the invariant holds from
    \<open>processor_start\<close> on.  \<open>Processor_Correct\<close>: printed lines carry the digest of the whole file, no slot is
    used twice at a time, no memory fault in the file handlers but those of the one call of the verifier at
    the end of a file, the output buffer is large enough, and
    the hexadecimal form determines the digest; since paths are not escaped, a file name can forge an
    output line.  \<open>Processor_Paths\<close>: a step of a thread leaves the queue alone or consumes one event through
    its own eventfd (an interpretation of \<open>feed_client\<close>), and opens only files of events it consumed.

  \<^item> \<open>Ride_System\<close>: the running program, as a step relation \<open>ride_step\<close> of the callback of the ring buffer
    and all threads with their kernel sides, over the shared queue and eventfd objects; its invariant;
    the events of the hook; and schedules, with a complete run from the command line to the printed
    line.  This theory: for every run of the program, only files below the watched path are printed,
    with correct digests; events are taken once and in order; the program refines the abstract feed of
    \<open>Event_Feed\<close>; and no event is stranded.

  \<^item> \<open>Verifier_Quic\<close>: \<open>verifier_quic.h\<close> and \<open>verifier_verify_hash\<close>.  \<open>Verifier\<close>: the socket and timer callbacks of
    \<open>verifier.c\<close>.  \<open>Verifier_Correct\<close>: the bytes of a request reach ngtcp2 completely and in order, sending
    ends, the timer is split correctly, and the ways a request or the timer fails.

  \<^item> \<open>Ride_Main\<close>: \<open>ride_run\<close> of \<open>ride.c\<close> and \<open>main\<close>.  The state after the start; the main loop ends on a signal;
    the program as a whole does not end, since its threads never do.

  \<^item> \<open>Kernel_Layout\<close>: C types with their System V layout and byte-level access.  \<open>Kernel_Fs\<close>, \<open>Kernel_Uring\<close>,
    \<open>Kernel_Bpf\<close>, \<open>Kernel_Task\<close>: the declarations of \<open>vmlinux.h\<close> that the program depends on, each with its
    computed layout.  \<open>Kernel_Abi\<close>: the hook as loads from kernel memory, under every layout the
    relocating loader may find, and the submission entries of \<open>ev.c\<close>, as bytes, are the abstract ones.

  \<^item> \<open>Client\<close>: \<open>client.c\<close> and \<open>client.h\<close>; the time it returns is within bounds and its receive loop ends.

  \<^item> \<open>Ride_Log\<close>: \<open>log.h\<close>; each call adds a stamp and a line feed to its message, and the time stamp fits its
    buffer.  \<open>Verifier_Server\<close>: the Go program under \<open>src/verifier\<close>; it prints every stream in order, ends only in
    a panic, and its option for the database is never accepted.

  \<^bold>\<open>Atomicity.\<close>  Operations of \<open>queue.c\<close> hold the mutex throughout and are single steps.  A callback runs to
  its end before the next one of the same thread; the kernel and the other threads act between
  callbacks, also between two callbacks of one round.  A callback uses the shared queue at most once, in \<open>queue_consume_try\<close>, so that taking a whole
  callback as one step of the program loses no interleaving of the queue operations.  The two release
  and acquire accesses of each ring are taken as atomic reads and writes.

  \<^bold>\<open>Assumptions on the kernel and the loader.\<close>  The contents of an opened file are the bytes its reads deliver,
  from the open to the end of the file (\<open>read_answer\<close>).  For a file that nobody writes meanwhile these are its
  contents; for one that changes while it is read they are the mixture that was read, and the theorems on
  digests speak of that mixture.  libbpf relocates the member accesses of the BPF program by name, so the
  loaded program reads each member at the offset it has in the running kernel (\<open>Kernel_Abi\<close>).  The entries of
  the submission ring have the layout of \<open>struct io_uring_sqe\<close> in \<open>vmlinux.h\<close>; \<open>ev.c\<close> is compiled against the system's
  header of the same stable interface.  The counter of \<open>ride_ringbuf_handle\<close> is a word that wraps around.

  \<^bold>\<open>Not modelled.\<close>  The messages the handlers log, since no state depends on them (\<open>Ride_Log\<close> has the
  functions), and the statistics of \<open>client.c\<close>.  The declarations of \<open>vmlinux.h\<close> that neither the program nor
  the types above refer to.  \<open>processor_free\<close>, which is never called.  The contents of socket addresses,
  of which only lengths matter, and the TLS settings.  The static \<open>remote_addr\<close> of \<open>verifier.c\<close>, which the
  threads fill in once under a mutex, belongs to the memory a thread starts with.
\<close>

section \<open>The whole program\<close>


text \<open>
  C2.  Events are taken once and in order: whatever the threads do, the events they took, in the order
  they took them, followed by the events in the queue are exactly the events the queue accepted.  So
  no event is lost, repeated or taken by two threads.  A thread opens only files of events it took
  itself (or the empty path).
\<close>

theorem events_taken_once:
  assumes "ride_start E a = Inr (ro, f, ws)" "eventfds_new E (unat (threads a))" "unat (threads a) < 2 ^ 32"
    and "blake3_streaming B" "threads_fresh E" "V \<subseteq> {e. event_term e}"
    and "(ride_step B X E ws V)\<^sup>*\<^sup>* (ride_sys_start f ws) S"
  shows "map snd (rd_taken S) @ queue_contents (fd_queue (rd_feed S)) = rd_accepted S \<and>
    (\<forall>i < length ws. \<forall>t. rd_threads S ! i = Some t \<longrightarrow>
      fst ` set (s_opened t) \<subseteq> insert [] {cstr (ev_path e) | e. (i, e) \<in> set (rd_taken S)})"
  using program_inv(1) [OF assms] by (simp add: ride_inv_def thread_ok_def taken_paths_def)

text \<open>
  C3.  The running program refines the feed: for every run of the callback, the threads and their
  kernel sides, the shared queue and eventfd objects go through a run in which only
  \<open>ride_ringbuf_handle\<close> and \<open>queue_consume_try\<close>, on the eventfd of a thread, act on them.
\<close>

theorem program_refines_feed:
  assumes "ride_start E a = Inr (ro, f, ws)" "eventfds_new E (unat (threads a))" "unat (threads a) < 2 ^ 32"
    and "blake3_streaming B" "threads_fresh E" "V \<subseteq> {e. event_term e}"
    and "(ride_step B X E ws V)\<^sup>*\<^sup>* (ride_sys_start f ws) S"
  shows "feed_step\<^sup>*\<^sup>* f (rd_feed S)"
  using program_inv(2) [OF assms] .

text \<open>
  C15.  No event is stranded: in every state the running program reaches, as long as the queue holds
  events there is a thread whose eventfd is readable, and its next attempt to consume delivers the
  oldest event.
\<close>

theorem no_stranded_event:
  assumes "ride_start E a = Inr (ro, f, ws)" "eventfds_new E (unat (threads a))" "unat (threads a) < 2 ^ 32"
    and "blake3_streaming B" "threads_fresh E" "V \<subseteq> {e. event_term e}"
    and "(ride_step B X E ws V)\<^sup>*\<^sup>* (ride_sys_start f ws) S" "queue_contents (fd_queue (rd_feed S)) \<noteq> []"
  shows "\<exists>w \<in> set ws. \<exists>q t. queue_consume_try (fd_fds (rd_feed S)) (wa_queue_eventfd w) event_zero (fd_queue (rd_feed S)) =
      Inr (0, hd (queue_contents (fd_queue (rd_feed S))), q, t) \<and> queue_contents q = tl (queue_contents (fd_queue (rd_feed S)))"
  using queue_delivers [OF assms(1-3) program_inv(2) [OF assms(1-7)] assms(8)] .

section \<open>Witnesses\<close>


lemma program_example:
  obtains a' S t where "ride_start program_env a' = Inr (ride_rodata a' 42, sample_started [4], [program_worker])"
    "eventfds_new program_env (unat (threads a'))" "unat (threads a') < 2 ^ 32" "{run_event} \<subseteq> {e. event_term e}"
    "(ride_step sum_hash sample_quic program_env [program_worker] {run_event})\<^sup>*\<^sup>*
      (ride_sys_start (sample_started [4]) [program_worker]) S"
    "rd_threads S = [Some t]" "s_opened t = [(''a'', [1, 2, 3])]"
proof -
  obtain a' :: ride_cli_args where a': "threads a' = 1" "io_concurrency a' = 4" "verify a' = False" by (rule program_stat) blast
  obtain S t where "(ride_step sum_hash sample_quic program_env [program_worker] {run_event})\<^sup>*\<^sup>*
      (ride_sys_start (sample_started [4]) [program_worker]) S" "rd_threads S = [Some t]" "s_opened t = [(''a'', [1, 2, 3])]"
    by (rule program_reaches [of "{run_event}"]) simp
  moreover have "event_term run_event" by (simp add: event_term_def run_event_def MAX_FILENAME_LEN_def)
  ultimately show thesis using that [OF program_start [OF a'], of S t] a' by simp
qed

theorem events_taken_once_witness:
  "\<exists>S. (ride_step sum_hash sample_quic program_env [program_worker] {run_event})\<^sup>*\<^sup>*
      (ride_sys_start (sample_started [4]) [program_worker]) S
    \<and> map snd (rd_taken S) @ queue_contents (fd_queue (rd_feed S)) = rd_accepted S
    \<and> (\<exists>e. (0, e) \<in> set (rd_taken S) \<and> cstr (ev_path e) = ''a'')"
proof (rule program_example)
  fix a' S t
  assume st: "ride_start program_env a' = Inr (ride_rodata a' 42, sample_started [4], [program_worker])"
      "eventfds_new program_env (unat (threads a'))" "unat (threads a') < 2 ^ 32" "{run_event} \<subseteq> {e. event_term e}"
    and run: "(ride_step sum_hash sample_quic program_env [program_worker] {run_event})\<^sup>*\<^sup>*
      (ride_sys_start (sample_started [4]) [program_worker]) S" and S: "rd_threads S = [Some t]" "s_opened t = [(''a'', [1, 2, 3])]"
  from events_taken_once [OF st(1-3) sum_hash_streaming program_fresh st(4) run] run S show ?thesis by force
qed

theorem program_refines_feed_witness:
  "\<exists>S t. (ride_step sum_hash sample_quic program_env [program_worker] {run_event})\<^sup>*\<^sup>*
      (ride_sys_start (sample_started [4]) [program_worker]) S
    \<and> rd_threads S = [Some t] \<and> s_opened t \<noteq> [] \<and> feed_step\<^sup>*\<^sup>* (sample_started [4]) (rd_feed S)"
proof (rule program_example)
  fix a' S t
  assume st: "ride_start program_env a' = Inr (ride_rodata a' 42, sample_started [4], [program_worker])"
      "eventfds_new program_env (unat (threads a'))" "unat (threads a') < 2 ^ 32" "{run_event} \<subseteq> {e. event_term e}"
    and run: "(ride_step sum_hash sample_quic program_env [program_worker] {run_event})\<^sup>*\<^sup>*
      (ride_sys_start (sample_started [4]) [program_worker]) S" and S: "rd_threads S = [Some t]" "s_opened t = [(''a'', [1, 2, 3])]"
  from program_refines_feed [OF st(1-3) sum_hash_streaming program_fresh st(4) run] run S show ?thesis
    by (intro exI [of _ S] exI [of _ t]) simp
qed

theorem no_stranded_event_witness:
  "\<exists>q t. queue_consume_try (fd_fds program_fed) 4 event_zero (fd_queue program_fed) = Inr (0, run_event, q, t)
     \<and> queue_contents q = []"
proof (rule program_example)
  fix a'
  assume st: "ride_start program_env a' = Inr (ride_rodata a' 42, sample_started [4], [program_worker])"
      "eventfds_new program_env (unat (threads a'))" "unat (threads a') < 2 ^ 32" "{run_event} \<subseteq> {e. event_term e}"
  let ?I = "ride_sys_start (sample_started [4]) [program_worker] :: (u8 list, u8 list list) ride_sys"
  let ?S = "?I\<lparr>rd_feed := program_fed, rd_accepted := rd_accepted ?I @ handled run_event (fd_queue (rd_feed ?I))\<rparr>"
  have "ride_step sum_hash sample_quic program_env [program_worker] {run_event} ?I ?S"
    by (rule ride_step.Handle) (simp_all add: ride_sys_start_def program_handle)
  then have run: "(ride_step sum_hash sample_quic program_env [program_worker] {run_event})\<^sup>*\<^sup>* ?I ?S" by simp
  have c: "queue_contents (fd_queue program_fed) = [run_event]"
    by (simp add: program_fed_def queue_contents_def queue_defs ring_list_def)
  from no_stranded_event [OF st(1-3) sum_hash_streaming program_fresh st(4) run] c show ?thesis
    by (simp add: program_worker_def)
qed

end
